(* ===== verification/Nigiri_Prelude.thy ===== *)
theory Nigiri_Prelude
  imports Main "HOL-Library.Word" "HOL-Library.Sublist"
begin

text \<open>
  Shared vocabulary of the development: Rust's machine integers as words, \<open>Result\<close> as a
  sum with the \<open>?\<close> operator as a bind, \<open>Duration\<close>, and strings as UTF-8 byte
  sequences with the slicing operations of the standard library that the program uses. Every
  generic lemma on them lives here, in the collections \<open>result_simps\<close> (taking a
  successful or failed \<open>?\<close> chain apart) and \<open>int_simps\<close> (checked conversions).
\<close>

named_theorems result_simps \<open>inversion of chains of fallible steps\<close>
named_theorems int_simps \<open>checked machine-integer conversions read on integers\<close>

unbundle bit_operations_syntax

section \<open>Fallible computations\<close>

text \<open>
  \<open>Result<T, E>\<close> is the sum \<open>'e + 'a\<close>. The two abbreviations keep Rust's
  constructor names, also in patterns.
\<close>

abbreviation Ok :: "'a \<Rightarrow> 'e + 'a" where
  "Ok \<equiv> Inr"

abbreviation Err :: "'e \<Rightarrow> 'e + 'a" where
  "Err \<equiv> Inl"

text \<open>The \<open>?\<close> operator (and \<open>Result::and_then\<close>): stop at the first error.\<close>

fun and_then :: "'e + 'a \<Rightarrow> ('a \<Rightarrow> 'e + 'b) \<Rightarrow> 'e + 'b" where
  "and_then (Err e) f = Err e"
| "and_then (Ok a) f = f a"

fun map_err :: "('e \<Rightarrow> 'f) \<Rightarrow> 'e + 'a \<Rightarrow> 'f + 'a" where
  "map_err g (Err e) = Err (g e)"
| "map_err g (Ok a) = Ok a"

fun map_ok :: "('a \<Rightarrow> 'b) \<Rightarrow> 'e + 'a \<Rightarrow> 'e + 'b" where
  "map_ok f (Err e) = Err e"
| "map_ok f (Ok a) = Ok (f a)"

fun ok_or :: "'a option \<Rightarrow> 'e \<Rightarrow> 'e + 'a" where
  "ok_or None e = Err e"
| "ok_or (Some a) e = Ok a"

fun is_ok :: "'e + 'a \<Rightarrow> bool" where
  "is_ok (Err e) = False"
| "is_ok (Ok a) = True"

text \<open>\<open>iter().map(f).collect::<Result<Vec<_>, _>>()\<close>: the first error wins.\<close>

fun try_map :: "('a \<Rightarrow> 'e + 'b) \<Rightarrow> 'a list \<Rightarrow> 'e + 'b list" where
  "try_map f [] = Ok []"
| "try_map f (x # xs) = and_then (f x) (\<lambda>y. and_then (try_map f xs) (\<lambda>ys. Ok (y # ys)))"

lemma and_then_eq_Ok [result_simps]:
  "and_then r f = Ok b \<longleftrightarrow> (\<exists>a. r = Ok a \<and> f a = Ok b)"
  by (cases r) auto

lemma and_then_eq_Err [result_simps]:
  "and_then r f = Err e \<longleftrightarrow> r = Err e \<or> (\<exists>a. r = Ok a \<and> f a = Err e)"
  by (cases r) auto

lemma map_err_eq_Ok [result_simps]: "map_err g r = Ok a \<longleftrightarrow> r = Ok a"
  by (cases r) auto

lemma map_err_eq_Err [result_simps]: "map_err g r = Err e \<longleftrightarrow> (\<exists>d. r = Err d \<and> e = g d)"
  by (cases r) auto

lemma map_ok_eq_Ok [result_simps]: "map_ok f r = Ok b \<longleftrightarrow> (\<exists>a. r = Ok a \<and> b = f a)"
  by (cases r) auto

lemma map_ok_eq_Err [result_simps]: "map_ok f r = Err e \<longleftrightarrow> r = Err e"
  by (cases r) auto

lemma ok_or_eq_Ok [result_simps]: "ok_or x e = Ok a \<longleftrightarrow> x = Some a"
  by (cases x) auto

lemma ok_or_eq_Err [result_simps]: "ok_or x e = Err d \<longleftrightarrow> x = None \<and> d = e"
  by (cases x) auto

lemma if_Err_eq_Ok [result_simps]: "(if c then Err e else r) = Ok a \<longleftrightarrow> \<not> c \<and> r = Ok a"
  by simp

lemma is_ok_iff: "is_ok r \<longleftrightarrow> (\<exists>a. r = Ok a)"
  by (cases r) auto

lemma and_then_cong [fundef_cong]:
  "r = r' \<Longrightarrow> (\<And>a. r' = Ok a \<Longrightarrow> f a = f' a) \<Longrightarrow> and_then r f = and_then r' f'"
  by (cases r') auto

lemma try_map_eq_Ok:
  "try_map f xs = Ok ys \<longleftrightarrow> list_all2 (\<lambda>x y. f x = Ok y) xs ys"
proof (induction xs arbitrary: ys)
  case Nil
  show ?case by auto
next
  case (Cons x xs)
  then show ?case by (cases ys) (auto simp: result_simps)
qed

section \<open>Machine integers\<close>

type_synonym u8 = "8 word"
type_synonym u16 = "16 word"
type_synonym u32 = "32 word"
type_synonym i32 = "32 word"
type_synonym u64 = "64 word"
type_synonym i64 = "64 word"

text \<open>
  \<open>i32\<close> and \<open>i64\<close> are the same bit patterns as \<open>u32\<close> and \<open>u64\<close>, read with
  \<^const>\<open>sint\<close>. The conversions below are Rust's \<open>TryFrom\<close> between the readings.
\<close>

definition u64_of_i64 :: "i64 \<Rightarrow> u64 option" where
  "u64_of_i64 x = (if sint x < 0 then None else Some x)"

definition i64_of_u64 :: "u64 \<Rightarrow> i64 option" where
  "i64_of_u64 x = (if unat x < 2 ^ 63 then Some x else None)"

definition i32_of_u64 :: "u64 \<Rightarrow> i32 option" where
  "i32_of_u64 x = (if unat x < 2 ^ 31 then Some (ucast x) else None)"

definition checked_add_u64 :: "u64 \<Rightarrow> u64 \<Rightarrow> u64 option" where
  "checked_add_u64 x y = (if unat x + unat y < 2 ^ 64 then Some (x + y) else None)"

definition checked_sub_u64 :: "u64 \<Rightarrow> u64 \<Rightarrow> u64 option" where
  "checked_sub_u64 x y = (if y \<le> x then Some (x - y) else None)"

definition checked_mul_u64 :: "u64 \<Rightarrow> u64 \<Rightarrow> u64 option" where
  "checked_mul_u64 x y = (if unat x * unat y < 2 ^ 64 then Some (x * y) else None)"

lemma sint_nonneg_eq: "0 \<le> sint (x :: u64) \<Longrightarrow> sint x = int (unat x)"
proof -
  assume nonneg: "0 \<le> sint x"
  have "sint x < 2 ^ 63"
    using sint_lt [of x] by simp
  then have "take_bit 64 (sint x) = sint x"
    using nonneg by (simp add: take_bit_int_eq_self_iff)
  then have "uint x = sint x"
    by (simp add: uint_sint)
  then show ?thesis
    by (metis Word.uint_nat)
qed

lemma sint_nonneg_iff [int_simps]: "0 \<le> sint (x :: u64) \<longleftrightarrow> unat x < 2 ^ 63"
proof
  assume "0 \<le> sint x"
  then have "int (unat x) < 2 ^ 63"
    using sint_lt [of x] sint_nonneg_eq [of x] by simp
  then show "unat x < 2 ^ 63"
    unfolding of_nat_less_iff [where 'a = int, symmetric] by simp
next
  assume "unat x < 2 ^ 63"
  then have "uint x < 2 ^ 63"
    by (metis Word.uint_nat of_nat_less_iff of_nat_numeral of_nat_power)
  moreover have "- (2 ^ 63) \<le> uint x"
    by (rule order_trans [of _ 0]) simp_all
  ultimately have "signed_take_bit 63 (uint x) = uint x"
    by (intro signed_take_bit_int_eq_self) simp_all
  then show "0 \<le> sint x"
    by (simp add: sint_uint)
qed

lemma sint_neg_iff [int_simps]: "sint (x :: u64) < 0 \<longleftrightarrow> 2 ^ 63 \<le> unat x"
  using sint_nonneg_iff [of x] by linarith

lemma u64_of_i64_eq_Some [int_simps]:
  "u64_of_i64 x = Some y \<longleftrightarrow> y = x \<and> unat x < 2 ^ 63"
  by (auto simp: u64_of_i64_def int_simps)

lemma u64_of_i64_eq_None [int_simps]: "u64_of_i64 x = None \<longleftrightarrow> 2 ^ 63 \<le> unat x"
  by (auto simp: u64_of_i64_def int_simps)

lemma i64_of_u64_eq_Some [int_simps]:
  "i64_of_u64 x = Some y \<longleftrightarrow> y = x \<and> unat x < 2 ^ 63"
  by (auto simp: i64_of_u64_def)

lemma i64_of_u64_eq_None [int_simps]: "i64_of_u64 x = None \<longleftrightarrow> 2 ^ 63 \<le> unat x"
  by (auto simp: i64_of_u64_def)

lemma i32_of_u64_eq_None [int_simps]: "i32_of_u64 x = None \<longleftrightarrow> 2 ^ 31 \<le> unat x"
  by (auto simp: i32_of_u64_def)

lemma i32_of_u64_value: "i32_of_u64 x = Some y \<Longrightarrow> unat y = unat x \<and> unat x < 2 ^ 31"
  by (auto simp: i32_of_u64_def unsigned_ucast_eq take_bit_nat_eq_self_iff split: if_splits)

lemma checked_add_u64_eq_Some [int_simps]:
  "checked_add_u64 x y = Some z \<longleftrightarrow> unat z = unat x + unat y"
  using unsigned_less [of z, where 'a = nat]
  by (auto simp: checked_add_u64_def unat_word_ariths word_unat_eq_iff split: if_splits)

lemma checked_add_u64_eq_None [int_simps]:
  "checked_add_u64 x y = None \<longleftrightarrow> 2 ^ 64 \<le> unat x + unat y"
  by (auto simp: checked_add_u64_def)

lemma checked_sub_u64_eq_Some [int_simps]:
  "checked_sub_u64 x y = Some z \<longleftrightarrow> unat x = unat y + unat z"
  by (auto simp: checked_sub_u64_def unat_sub word_unat_eq_iff word_le_nat_alt split: if_splits)

lemma checked_mul_u64_eq_Some [int_simps]:
  "checked_mul_u64 x y = Some z \<longleftrightarrow> unat z = unat x * unat y"
  using unsigned_less [of z, where 'a = nat]
  by (auto simp: checked_mul_u64_def unat_word_ariths word_unat_eq_iff split: if_splits)

lemma checked_mul_u64_eq_None [int_simps]:
  "checked_mul_u64 x y = None \<longleftrightarrow> 2 ^ 64 \<le> unat x * unat y"
  by (auto simp: checked_mul_u64_def)

section \<open>Durations\<close>

text \<open>
  \<open>std::time::Duration\<close>: whole seconds in a \<open>u64\<close> and the nanoseconds below one second.
  A clock reading is a count of nanoseconds.
\<close>

record duration =
  as_secs :: u64
  subsec_nanos :: u32

definition duration_ok :: "duration \<Rightarrow> bool" where
  "duration_ok d \<longleftrightarrow> unat (subsec_nanos d) < 1000000000"

definition from_secs :: "u64 \<Rightarrow> duration" where
  "from_secs s = \<lparr>as_secs = s, subsec_nanos = 0\<rparr>"

definition from_millis :: "u64 \<Rightarrow> duration" where
  "from_millis m = \<lparr>as_secs = m div 1000, subsec_nanos = ucast (m mod 1000) * 1000000\<rparr>"

definition as_nanos :: "duration \<Rightarrow> nat" where
  "as_nanos d = unat (as_secs d) * 1000000000 + unat (subsec_nanos d)"

definition is_zero :: "duration \<Rightarrow> bool" where
  "is_zero d \<longleftrightarrow> as_secs d = 0 \<and> subsec_nanos d = 0"

lemma from_secs_simps [simp]: "as_secs (from_secs s) = s" "subsec_nanos (from_secs s) = 0"
  by (simp_all add: from_secs_def)

lemma is_zero_iff: "is_zero d \<longleftrightarrow> as_nanos d = 0"
  by (simp add: is_zero_def as_nanos_def unat_eq_zero)

section \<open>Strings\<close>

text \<open>
  A Rust \<open>String\<close> is its UTF-8 encoding, here the list of its bytes as a \<^typ>\<open>string\<close>.
  \<open>byte\<close> reads one of them. A byte offset is a character boundary when it is an end of the
  string or the byte there does not continue a character.
\<close>

definition byte :: "char \<Rightarrow> u8" where
  "byte c = of_char c"

definition continuation_byte :: "char \<Rightarrow> bool" where
  "continuation_byte c \<longleftrightarrow> (let b = (of_char c :: nat) in 128 \<le> b \<and> b < 192)"

definition is_char_boundary :: "string \<Rightarrow> nat \<Rightarrow> bool" where
  "is_char_boundary s i \<longleftrightarrow>
     i = 0 \<or> i = length s \<or> (i < length s \<and> \<not> continuation_byte (s ! i))"

text \<open>\<open>while !value.is_char_boundary(end) { end -= 1; }\<close>; offset 0 is a boundary.\<close>

fun boundary_below :: "string \<Rightarrow> nat \<Rightarrow> nat" where
  "boundary_below s 0 = 0"
| "boundary_below s (Suc i) = (if is_char_boundary s (Suc i) then Suc i else boundary_below s i)"

lemma boundary_below_le: "boundary_below s i \<le> i"
  by (induction i) (auto intro: le_SucI)

lemma boundary_below_boundary: "is_char_boundary s (boundary_below s i)"
  by (induction i) (auto simp: is_char_boundary_def)

text \<open>
  Well-formed UTF-8, by the lengths the leading bytes announce (RFC 3629 without the
  exclusion of overlong forms and surrogates, which no operation of the program depends on).
\<close>

definition utf8_width :: "char \<Rightarrow> nat option" where
  "utf8_width c = (let b = (of_char c :: nat) in
     if b < 128 then Some 0 else if b < 192 then None
     else if b < 224 then Some 1 else if b < 240 then Some 2
     else if b < 248 then Some 3 else None)"

fun utf8_rest :: "nat \<Rightarrow> string \<Rightarrow> bool" where
  "utf8_rest 0 [] = True"
| "utf8_rest 0 (c # cs) = (case utf8_width c of None \<Rightarrow> False | Some n \<Rightarrow> utf8_rest n cs)"
| "utf8_rest (Suc n) [] = False"
| "utf8_rest (Suc n) (c # cs) = (continuation_byte c \<and> utf8_rest n cs)"

definition utf8_valid :: "string \<Rightarrow> bool" where
  "utf8_valid s = utf8_rest 0 s"

lemma utf8_rest_append:
  "utf8_rest n xs \<Longrightarrow> utf8_rest 0 ys \<Longrightarrow> utf8_rest n (xs @ ys)"
  by (induction n xs rule: utf8_rest.induct) (auto split: option.splits)

lemma utf8_rest_prefix:
  assumes "utf8_rest n (xs @ ys)" and "ys = [] \<or> \<not> continuation_byte (hd ys)"
  shows "utf8_rest n xs"
  using assms
proof (induction xs arbitrary: n)
  case Nil
  then show ?case by (cases n; cases ys) auto
next
  case (Cons c cs)
  then show ?case by (cases n) (auto split: option.splits)
qed

lemma utf8_valid_append: "utf8_valid xs \<Longrightarrow> utf8_valid ys \<Longrightarrow> utf8_valid (xs @ ys)"
  by (simp add: utf8_valid_def utf8_rest_append)

lemma utf8_valid_take:
  assumes "utf8_valid s" and "is_char_boundary s i"
  shows "utf8_valid (take i s)"
proof (cases "i = 0")
  case True
  then show ?thesis by (simp add: utf8_valid_def)
next
  case False
  have "utf8_rest 0 (take i s @ drop i s)"
    using assms(1) by (simp add: utf8_valid_def)
  moreover have "drop i s = [] \<or> \<not> continuation_byte (hd (drop i s))"
    using assms(2) False by (auto simp: is_char_boundary_def hd_drop_conv_nth)
  ultimately show ?thesis
    unfolding utf8_valid_def by (rule utf8_rest_prefix)
qed

definition ellipsis :: string where
  "ellipsis = [CHR 0xE2, CHR 0x80, CHR 0xA6]"

lemma utf8_valid_ellipsis: "utf8_valid ellipsis"
  by (simp add: utf8_valid_def ellipsis_def utf8_width_def continuation_byte_def numeral_eq_Suc)

section \<open>Searching and trimming\<close>

text \<open>
  \<open>str::find\<close> on the encoded bytes, \<open>strip_prefix\<close>, \<open>strip_suffix\<close>,
  \<open>split_once\<close> and \<open>trim_ascii\<close>.
\<close>

fun find_sub :: "'a list \<Rightarrow> 'a list \<Rightarrow> nat option" where
  "find_sub p [] = (if p = [] then Some 0 else None)"
| "find_sub p (x # xs) = (if prefix p (x # xs) then Some 0 else map_option Suc (find_sub p xs))"

definition strip_prefix_of :: "'a list \<Rightarrow> 'a list \<Rightarrow> 'a list option" where
  "strip_prefix_of p s = (if prefix p s then Some (drop (length p) s) else None)"

definition strip_suffix_of :: "'a list \<Rightarrow> 'a list \<Rightarrow> 'a list option" where
  "strip_suffix_of p s = (if suffix p s then Some (take (length s - length p) s) else None)"

definition split_once :: "'a list \<Rightarrow> 'a list \<Rightarrow> ('a list \<times> 'a list) option" where
  "split_once p s =
     map_option (\<lambda>i. (take i s, drop (i + length p) s)) (find_sub p s)"

definition is_ascii_whitespace :: "char \<Rightarrow> bool" where
  "is_ascii_whitespace c \<longleftrightarrow>
     c = CHR '' '' \<or> c = CHR 0x09 \<or> c = CHR 0x0A \<or> c = CHR 0x0C \<or> c = CHR 0x0D"

definition trim_ascii_end :: "string \<Rightarrow> string" where
  "trim_ascii_end s = rev (dropWhile is_ascii_whitespace (rev s))"

definition trim_ascii :: "string \<Rightarrow> string" where
  "trim_ascii s = trim_ascii_end (dropWhile is_ascii_whitespace s)"

lemma find_sub_Some:
  "find_sub p s = Some i \<Longrightarrow>
     i + length p \<le> length s \<and> take (length p) (drop i s) = p
     \<and> (\<forall>j<i. \<not> prefix p (drop j s))"
proof (induction s arbitrary: i)
  case Nil
  then show ?case by (auto split: if_splits)
next
  case (Cons x xs)
  show ?case
  proof (cases "prefix p (x # xs)")
    case True
    then show ?thesis
      using Cons.prems prefix_length_le [OF True] by (auto simp: prefix_def)
  next
    case False
    then obtain k where k: "i = Suc k" "find_sub p xs = Some k"
      using Cons.prems by auto
    show ?thesis
      using Cons.IH [OF k(2)] False k(1) by (auto simp: less_Suc_eq_0_disj)
  qed
qed

lemma find_sub_None: "find_sub p s = None \<longleftrightarrow> \<not> sublist p s"
proof (induction s)
  case Nil
  show ?case by simp
next
  case (Cons x xs)
  then show ?case
    by (auto simp: sublist_Cons_right)
qed

lemma find_sub_split:
  assumes "find_sub p s = Some i"
  shows "s = take i s @ p @ drop (i + length p) s"
proof -
  have "drop i s = p @ drop (length p) (drop i s)"
    using find_sub_Some [OF assms] by (metis append_take_drop_id)
  then show ?thesis
    by (metis append_take_drop_id drop_drop add.commute)
qed

lemma split_once_Some:
  assumes "split_once p s = Some (a, b)"
  shows "s = a @ p @ b"
  using assms find_sub_split by (fastforce simp: split_once_def)

lemma strip_prefix_of_eq_Some: "strip_prefix_of p s = Some r \<longleftrightarrow> s = p @ r"
  by (auto simp: strip_prefix_of_def prefix_def)

lemma strip_suffix_of_eq_Some: "strip_suffix_of p s = Some r \<longleftrightarrow> s = r @ p"
  by (auto simp: strip_suffix_of_def suffix_def)

lemma trim_ascii_end_no_trailing:
  "trim_ascii_end s \<noteq> [] \<Longrightarrow> \<not> is_ascii_whitespace (last (trim_ascii_end s))"
proof -
  assume nonempty: "trim_ascii_end s \<noteq> []"
  let ?r = "dropWhile is_ascii_whitespace (rev s)"
  have "?r \<noteq> []"
    using nonempty by (simp add: trim_ascii_end_def)
  then have "\<not> is_ascii_whitespace (hd ?r)"
    by (rule hd_dropWhile)
  then show ?thesis
    using \<open>?r \<noteq> []\<close> by (simp add: trim_ascii_end_def last_rev)
qed

lemma trim_ascii_Nil: "trim_ascii s = [] \<longleftrightarrow> list_all is_ascii_whitespace s"
proof -
  have "dropWhile is_ascii_whitespace (rev (dropWhile is_ascii_whitespace s)) = []
      \<longleftrightarrow> (\<forall>c \<in> set s. is_ascii_whitespace c)"
    unfolding dropWhile_eq_Nil_conv set_rev
    by (metis (full_types) dropWhile_eq_Nil_conv hd_dropWhile hd_in_set set_dropWhileD)
  then show ?thesis
    by (simp add: trim_ascii_def trim_ascii_end_def list_all_iff)
qed

text \<open>\<open>str::split(char)\<close>: never empty, one piece more than separators.\<close>

fun split_on :: "'a \<Rightarrow> 'a list \<Rightarrow> 'a list list" where
  "split_on c [] = [[]]"
| "split_on c (x # xs) =
     (if x = c then [] # split_on c xs
      else case split_on c xs of [] \<Rightarrow> [[x]] | y # ys \<Rightarrow> (x # y) # ys)"

lemma split_on_nonempty [simp]: "split_on c xs \<noteq> []"
  by (induction xs) (auto split: list.splits)

lemma split_on_set:
  "x \<in> set xs \<Longrightarrow> x \<noteq> c \<Longrightarrow> \<exists>p \<in> set (split_on c xs). x \<in> set p"
proof (induction xs)
  case Nil
  then show ?case by simp
next
  case (Cons y ys)
  then show ?case
    by (cases "split_on c ys") auto
qed

text \<open>ASCII classes of \<open>u8\<close> and \<open>to_ascii_lowercase\<close>.\<close>

definition is_ascii :: "char \<Rightarrow> bool" where
  "is_ascii c \<longleftrightarrow> (of_char c :: nat) < 128"

definition is_ascii_digit :: "char \<Rightarrow> bool" where
  "is_ascii_digit c \<longleftrightarrow> (let b = (of_char c :: nat) in 48 \<le> b \<and> b \<le> 57)"

definition is_ascii_lowercase :: "char \<Rightarrow> bool" where
  "is_ascii_lowercase c \<longleftrightarrow> (let b = (of_char c :: nat) in 97 \<le> b \<and> b \<le> 122)"

definition is_ascii_uppercase :: "char \<Rightarrow> bool" where
  "is_ascii_uppercase c \<longleftrightarrow> (let b = (of_char c :: nat) in 65 \<le> b \<and> b \<le> 90)"

definition is_ascii_alphanumeric :: "char \<Rightarrow> bool" where
  "is_ascii_alphanumeric c \<longleftrightarrow>
     is_ascii_digit c \<or> is_ascii_lowercase c \<or> is_ascii_uppercase c"

definition to_ascii_lower :: "char \<Rightarrow> char" where
  "to_ascii_lower c = (if is_ascii_uppercase c then char_of ((of_char c :: nat) + 32) else c)"

definition to_ascii_lowercase :: "string \<Rightarrow> string" where
  "to_ascii_lowercase s = map to_ascii_lower s"

lemma to_ascii_lower_idem [simp]: "to_ascii_lower (to_ascii_lower c) = to_ascii_lower c"
  by (auto simp: to_ascii_lower_def is_ascii_uppercase_def Let_def)

lemma to_ascii_lowercase_idem [simp]:
  "to_ascii_lowercase (to_ascii_lowercase s) = to_ascii_lowercase s"
  by (simp add: to_ascii_lowercase_def)

text \<open>\<open>find([c1, c2, ..])\<close> as an offset, the length when there is none, and
  \<open>rsplit_once(char)\<close>.\<close>

definition find_any :: "char list \<Rightarrow> string \<Rightarrow> nat" where
  "find_any cs s = length (takeWhile (\<lambda>c. c \<notin> set cs) s)"

definition rsplit_once :: "'a \<Rightarrow> 'a list \<Rightarrow> ('a list \<times> 'a list) option" where
  "rsplit_once c s =
     (if c \<in> set s
      then (let after = rev (takeWhile (\<lambda>d. d \<noteq> c) (rev s))
            in Some (take (length s - length after - 1) s, after))
      else None)"

lemma find_any_split:
  assumes "\<forall>c \<in> set a. c \<notin> set cs" and "b = [] \<or> hd b \<in> set cs"
  shows "find_any cs (a @ b) = length a"
  using assms by (cases b) (auto simp: find_any_def takeWhile_append takeWhile_eq_all_conv [THEN iffD2])

lemma rsplit_once_append:
  assumes "c \<notin> set b"
  shows "rsplit_once c (a @ c # b) = Some (a, b)"
proof -
  have "takeWhile (\<lambda>d. d \<noteq> c) (rev b @ c # rev a) = rev b"
    using assms by (subst takeWhile_append2) auto
  then show ?thesis
    by (simp add: rsplit_once_def Let_def)
qed

end
