(* ===== verification/Lnd_Types.thy ===== *)
theory Lnd_Types
  imports Nigiri_Prelude
begin

text \<open>
  The public domain model of the crate \<open>nigiri-rs-lnd\<close>: \<open>amount.rs\<close>,
  \<open>error.rs\<close> and the values of \<open>types.rs\<close> that do not depend on host parsing, each
  with its validating constructor. Types of the \<open>bitcoin\<close> and \<open>lightning_invoice\<close>
  crates appear through what the program observes of them, and their parsers and the hash
  function are the fields of the parameter record \<open>ext\<close>.
\<close>

section \<open>Third-party values\<close>

type_synonym hash256 = "u8 list"
type_synonym public_key = "u8 list"
type_synonym txid = "u8 list"

record out_point =
  op_txid :: txid
  op_vout :: u32

record bolt11_invoice =
  b11_payment_hash :: hash256
  b11_amount_milli_satoshis :: "u64 option"
  b11_duration_since_epoch :: duration
  b11_expiry_time :: duration
  b11_to_string :: string

datatype grpc_code =
    Code_Ok | Code_Cancelled | Code_Unknown | Code_InvalidArgument | Code_DeadlineExceeded
  | Code_NotFound | Code_AlreadyExists | Code_PermissionDenied | Code_ResourceExhausted
  | Code_FailedPrecondition | Code_Aborted | Code_OutOfRange | Code_Unimplemented
  | Code_Internal | Code_Unavailable | Code_DataLoss | Code_Unauthenticated

record ext =
  sha256_hash :: "u8 list \<Rightarrow> hash256"
  sha256_from_slice :: "u8 list \<Rightarrow> hash256 option"
  sha256_from_str :: "string \<Rightarrow> hash256 option"
  sha256_to_string :: "hash256 \<Rightarrow> string"
  public_key_from_str :: "string \<Rightarrow> public_key option"
  public_key_to_string :: "public_key \<Rightarrow> string"
  public_key_serialize :: "public_key \<Rightarrow> u8 list"
  out_point_from_str :: "string \<Rightarrow> out_point option"
  out_point_to_string :: "out_point \<Rightarrow> string"
  txid_from_slice :: "u8 list \<Rightarrow> txid option"
  txid_from_str :: "string \<Rightarrow> txid option"
  bolt11_from_str :: "string \<Rightarrow> bolt11_invoice option"
  code_to_string :: "grpc_code \<Rightarrow> string"

section \<open>Errors\<close>

datatype lnd_status_code =
    LndOk | LndCancelled | LndUnknown | LndInvalidArgument | LndDeadlineExceeded
  | LndNotFound | LndAlreadyExists | LndPermissionDenied | LndResourceExhausted
  | LndFailedPrecondition | LndAborted | LndOutOfRange | LndUnimplemented
  | LndInternal | LndUnavailable | LndDataLoss | LndUnauthenticated

text \<open>
  A \<open>tonic::Status\<close> is its code and the chain of \<open>source()\<close> errors below it, of which
  the program asks only whether each is a \<open>tonic::transport::Error\<close>. The boxed source of a
  transport error is either such a status or a configuration error.
\<close>

datatype error_cause = TransportCause | OtherCause

record status =
  status_code_of :: grpc_code
  status_sources :: "error_cause list"

datatype error_source = StatusSource status | ConfigurationSource string

datatype io_error = NotFoundIo | PermissionDeniedIo | InvalidDataIo | OtherIo

datatype lnd_error =
    InvalidRequest (err_detail: string)
  | CredentialRead (err_path: string) io_error
  | Transport (err_operation: string) (err_detail: string) error_source
  | Authentication (err_operation: string) (err_detail: string)
  | Status lnd_status_code (err_operation: string) (err_detail: string)
  | Timeout (err_operation: string) duration
  | InvalidResponse (err_operation: string) (err_detail: string) (err_identifier: "string option")
  | PaymentFailed hash256 string
  | OutcomeUnknown (err_operation: string) (err_identifier: "string option")

definition MAX_ERROR_TEXT_BYTES :: nat where
  "MAX_ERROR_TEXT_BYTES = 1024"

text \<open>\<open>bounded\<close>: keep at most 1024 bytes, cut at a character boundary before an ellipsis.\<close>

definition bounded :: "string \<Rightarrow> string" where
  "bounded s =
     (if length s \<le> MAX_ERROR_TEXT_BYTES then s
      else take (boundary_below s (MAX_ERROR_TEXT_BYTES - length ellipsis)) s @ ellipsis)"

lemma bounded_length: "length (bounded s) \<le> MAX_ERROR_TEXT_BYTES"
proof -
  have "boundary_below s 1021 \<le> 1021"
    by (rule boundary_below_le)
  then show ?thesis
    by (simp add: bounded_def MAX_ERROR_TEXT_BYTES_def ellipsis_def)
qed

lemma bounded_utf8: "utf8_valid s \<Longrightarrow> utf8_valid (bounded s)"
  by (simp add: bounded_def utf8_valid_append utf8_valid_take boundary_below_boundary
      utf8_valid_ellipsis)

lemma bounded_keeps_prefix:
  "bounded s = s \<or> (\<exists>i. bounded s = take i s @ ellipsis)"
  by (auto simp: bounded_def)

lemma bounded_idempotent: "bounded (bounded s) = bounded s"
  using bounded_length [of s] by (simp add: bounded_def)

section \<open>Amounts\<close>

datatype sats = Sats (sats_as_u64: u64)

datatype millisats = Millisats (msat_as_u64: u64)

instantiation sats :: linorder
begin

definition less_eq_sats :: "sats \<Rightarrow> sats \<Rightarrow> bool" where
  "x \<le> y \<longleftrightarrow> sats_as_u64 x \<le> sats_as_u64 y"

definition less_sats :: "sats \<Rightarrow> sats \<Rightarrow> bool" where
  "x < y \<longleftrightarrow> sats_as_u64 x < sats_as_u64 y"

instance
  by standard (auto simp: less_eq_sats_def less_sats_def sats.expand)

end

instantiation millisats :: linorder
begin

definition less_eq_millisats :: "millisats \<Rightarrow> millisats \<Rightarrow> bool" where
  "x \<le> y \<longleftrightarrow> msat_as_u64 x \<le> msat_as_u64 y"

definition less_millisats :: "millisats \<Rightarrow> millisats \<Rightarrow> bool" where
  "x < y \<longleftrightarrow> msat_as_u64 x < msat_as_u64 y"

instance
  by standard (auto simp: less_eq_millisats_def less_millisats_def millisats.expand)

end

definition millisats_try_from :: "sats \<Rightarrow> lnd_error + millisats" where
  "millisats_try_from value =
     map_ok Millisats
       (ok_or (checked_mul_u64 (sats_as_u64 value) 1000)
         (InvalidRequest ''satoshi amount overflows millisatoshis''))"

definition sats_try_from :: "millisats \<Rightarrow> lnd_error + sats" where
  "sats_try_from value =
     (if msat_as_u64 value mod 1000 \<noteq> 0
      then Err (InvalidRequest ''millisatoshi amount is not a whole satoshi'')
      else Ok (Sats (msat_as_u64 value div 1000)))"

lemma millisats_try_from_eq_Ok:
  "millisats_try_from s = Ok m \<longleftrightarrow> unat (msat_as_u64 m) = unat (sats_as_u64 s) * 1000"
  by (cases m) (auto simp: millisats_try_from_def result_simps int_simps)

lemma millisats_try_from_eq_Err:
  "millisats_try_from s = Err e \<longleftrightarrow>
     2 ^ 64 \<le> unat (sats_as_u64 s) * 1000
     \<and> e = InvalidRequest ''satoshi amount overflows millisatoshis''"
  by (auto simp: millisats_try_from_def result_simps int_simps)

section \<open>Domain values\<close>

definition invalid :: "string \<Rightarrow> lnd_error" where
  "invalid detail = InvalidRequest detail"

lemma is_InvalidRequest_invalid [simp]: "is_InvalidRequest (invalid detail)"
  by (simp add: invalid_def)

record node_info =
  ni_public_key :: public_key
  ni_alias :: string
  ni_version :: string
  ni_block_height :: u32
  ni_network :: string
  ni_synced_to_chain :: bool
  ni_synced_to_graph :: bool

definition NodeInfo_try_new ::
  "public_key \<Rightarrow> string \<Rightarrow> string \<Rightarrow> u32 \<Rightarrow> string \<Rightarrow> bool \<Rightarrow> bool \<Rightarrow> lnd_error + node_info"
where
  "NodeInfo_try_new public_key alias version block_height network synced_chain synced_graph =
     (if network = [] then Err (invalid ''network must not be empty'')
      else Ok \<lparr>ni_public_key = public_key, ni_alias = alias, ni_version = version,
               ni_block_height = block_height, ni_network = network,
               ni_synced_to_chain = synced_chain, ni_synced_to_graph = synced_graph\<rparr>)"

record wallet_balance =
  wb_total :: sats
  wb_confirmed :: sats
  wb_unconfirmed :: sats

definition WalletBalance_try_new :: "sats \<Rightarrow> sats \<Rightarrow> sats \<Rightarrow> lnd_error + wallet_balance" where
  "WalletBalance_try_new whole confirmed unconfirmed =
     (if checked_add_u64 (sats_as_u64 confirmed) (sats_as_u64 unconfirmed)
           \<noteq> Some (sats_as_u64 whole)
      then Err (invalid ''wallet total must equal confirmed plus unconfirmed balance'')
      else Ok \<lparr>wb_total = whole, wb_confirmed = confirmed, wb_unconfirmed = unconfirmed\<rparr>)"

text \<open>The invariant the constructor enforces, over the integers.\<close>

definition wallet_balance_ok :: "wallet_balance \<Rightarrow> bool" where
  "wallet_balance_ok b \<longleftrightarrow>
     unat (sats_as_u64 (wb_total b)) =
       unat (sats_as_u64 (wb_confirmed b)) + unat (sats_as_u64 (wb_unconfirmed b))"

lemma WalletBalance_try_new_ok:
  "WalletBalance_try_new t c u = Ok b \<longleftrightarrow>
     b = \<lparr>wb_total = t, wb_confirmed = c, wb_unconfirmed = u\<rparr> \<and> wallet_balance_ok b"
  by (auto simp: WalletBalance_try_new_def wallet_balance_ok_def int_simps)

record open_channel_request =
  ocr_peer_public_key :: public_key
  ocr_capacity :: sats
  ocr_push_amount :: sats

definition OpenChannelRequest_new ::
  "public_key \<Rightarrow> sats \<Rightarrow> sats \<Rightarrow> lnd_error + open_channel_request"
where
  "OpenChannelRequest_new peer_public_key capacity push_amount =
     (if sats_as_u64 capacity = 0
      then Err (invalid ''channel capacity must be greater than zero'')
      else if push_amount \<ge> capacity
      then Err (invalid ''channel push amount must be lower than capacity'')
      else Ok \<lparr>ocr_peer_public_key = peer_public_key, ocr_capacity = capacity,
               ocr_push_amount = push_amount\<rparr>)"

definition open_channel_request_ok :: "open_channel_request \<Rightarrow> bool" where
  "open_channel_request_ok r \<longleftrightarrow> ocr_push_amount r < ocr_capacity r"

lemma OpenChannelRequest_new_ok:
  "OpenChannelRequest_new k c p = Ok r \<longleftrightarrow>
     r = \<lparr>ocr_peer_public_key = k, ocr_capacity = c, ocr_push_amount = p\<rparr>
     \<and> open_channel_request_ok r"
  by (auto simp: OpenChannelRequest_new_def open_channel_request_ok_def less_sats_def
      less_eq_sats_def not_le)

record channel =
  ch_channel_point :: out_point
  ch_remote_public_key :: public_key
  ch_active :: bool
  ch_capacity :: sats
  ch_local_balance :: millisats
  ch_remote_balance :: millisats

definition u128_from :: "u64 \<Rightarrow> 128 word" where
  "u128_from x = ucast x"

definition Channel_try_new ::
  "out_point \<Rightarrow> public_key \<Rightarrow> bool \<Rightarrow> sats \<Rightarrow> millisats \<Rightarrow> millisats \<Rightarrow> lnd_error + channel"
where
  "Channel_try_new channel_point remote_public_key active capacity local_balance remote_balance =
     (let accounted = u128_from (msat_as_u64 local_balance) + u128_from (msat_as_u64 remote_balance)
      in if accounted > u128_from (sats_as_u64 capacity) * 1000
         then Err (invalid ''channel balances must not exceed capacity'')
         else Ok \<lparr>ch_channel_point = channel_point, ch_remote_public_key = remote_public_key,
                  ch_active = active, ch_capacity = capacity,
                  ch_local_balance = local_balance, ch_remote_balance = remote_balance\<rparr>)"

definition channel_ok :: "channel \<Rightarrow> bool" where
  "channel_ok c \<longleftrightarrow>
     unat (msat_as_u64 (ch_local_balance c)) + unat (msat_as_u64 (ch_remote_balance c))
       \<le> unat (sats_as_u64 (ch_capacity c)) * 1000"

lemma unat_u128_from: "unat (u128_from x) = unat x"
  using unsigned_less [of x, where 'a = nat]
  by (simp add: u128_from_def unsigned_ucast_eq take_bit_nat_eq_self_iff)

lemma u128_add_exact: "unat (u128_from x + u128_from y) = unat x + unat y"
  using unsigned_less [of x, where 'a = nat] unsigned_less [of y, where 'a = nat]
  by (simp add: unat_word_ariths unat_u128_from)

lemma u128_mul_1000_exact: "unat (u128_from x * 1000) = unat x * 1000"
  using unsigned_less [of x, where 'a = nat]
  by (simp add: unat_word_ariths unat_u128_from)

lemma Channel_try_new_ok:
  "Channel_try_new p k a c l r = Ok ch \<longleftrightarrow>
     ch = \<lparr>ch_channel_point = p, ch_remote_public_key = k, ch_active = a, ch_capacity = c,
           ch_local_balance = l, ch_remote_balance = r\<rparr> \<and> channel_ok ch"
  by (auto simp: Channel_try_new_def Let_def channel_ok_def word_less_nat_alt u128_add_exact
      u128_mul_1000_exact not_less)

record create_invoice_request =
  cir_amount :: millisats
  cir_memo :: string
  cir_expiry :: duration

definition CreateInvoiceRequest_new ::
  "millisats \<Rightarrow> string \<Rightarrow> duration \<Rightarrow> lnd_error + create_invoice_request"
where
  "CreateInvoiceRequest_new amount memo expiry =
     (if msat_as_u64 amount = 0 then Err (invalid ''invoice amount must be greater than zero'')
      else if is_zero expiry then Err (invalid ''invoice expiry must be greater than zero'')
      else Ok \<lparr>cir_amount = amount, cir_memo = memo, cir_expiry = expiry\<rparr>)"

datatype invoice_state =
  InvoiceOpen | InvoiceSettled | InvoiceCanceled | InvoiceAccepted | InvoiceUnknown i32

record invoice_record =
  inv_invoice :: bolt11_invoice
  inv_payment_hash :: hash256
  inv_amount :: millisats
  inv_state :: invoice_state

definition InvoiceRecord_from_invoice ::
  "bolt11_invoice \<Rightarrow> invoice_state \<Rightarrow> lnd_error + invoice_record"
where
  "InvoiceRecord_from_invoice invoice state =
     and_then
       (ok_or (b11_amount_milli_satoshis invoice) (invalid ''invoice must have an amount''))
       (\<lambda>amount. Ok \<lparr>inv_invoice = invoice, inv_payment_hash = b11_payment_hash invoice,
                     inv_amount = Millisats amount, inv_state = state\<rparr>)"

text \<open>A record whose hash and amount are those its invoice encodes.\<close>

definition invoice_record_ok :: "invoice_record \<Rightarrow> bool" where
  "invoice_record_ok r \<longleftrightarrow>
     inv_payment_hash r = b11_payment_hash (inv_invoice r)
     \<and> b11_amount_milli_satoshis (inv_invoice r) = Some (msat_as_u64 (inv_amount r))"

lemma InvoiceRecord_from_invoice_ok:
  "InvoiceRecord_from_invoice i st = Ok r \<Longrightarrow> invoice_record_ok r \<and> inv_state r = st"
  by (auto simp: InvoiceRecord_from_invoice_def invoice_record_ok_def result_simps)

record payment_options =
  po_fee_limit :: millisats
  po_timeout :: duration

definition PaymentOptions_new :: "millisats \<Rightarrow> duration \<Rightarrow> lnd_error + payment_options" where
  "PaymentOptions_new fee_limit timeout =
     (if is_zero timeout then Err (invalid ''payment timeout must be greater than zero'')
      else Ok \<lparr>po_fee_limit = fee_limit, po_timeout = timeout\<rparr>)"

datatype payment_state =
  PaymentInFlight | PaymentSucceeded | PaymentStateFailed | PaymentUnknown i32

record payment_record =
  pr_payment_hash :: hash256
  pr_preimage :: "u8 list option"
  pr_value :: millisats
  pr_fee :: millisats
  pr_state :: payment_state

definition PaymentRecord_try_new ::
  "ext \<Rightarrow> hash256 \<Rightarrow> u8 list option \<Rightarrow> millisats \<Rightarrow> millisats \<Rightarrow> payment_state
     \<Rightarrow> lnd_error + payment_record"
where
  "PaymentRecord_try_new x payment_hash preimage value fee state =
     (if state = PaymentSucceeded \<and> preimage = None
      then Err (invalid ''succeeded payment must have a preimage'')
      else if (case preimage of None \<Rightarrow> False | Some proof \<Rightarrow> sha256_hash x proof \<noteq> payment_hash)
      then Err (invalid ''payment preimage must prove the payment hash'')
      else Ok \<lparr>pr_payment_hash = payment_hash, pr_preimage = preimage, pr_value = value,
               pr_fee = fee, pr_state = state\<rparr>)"

text \<open>The proof of a record: present on success, and proving the hash whenever present.\<close>

definition payment_proven :: "ext \<Rightarrow> payment_record \<Rightarrow> bool" where
  "payment_proven x r \<longleftrightarrow>
     (\<exists>p. pr_preimage r = Some p \<and> sha256_hash x p = pr_payment_hash r)"

definition payment_record_ok :: "ext \<Rightarrow> payment_record \<Rightarrow> bool" where
  "payment_record_ok x r \<longleftrightarrow>
     (pr_state r = PaymentSucceeded \<or> pr_preimage r \<noteq> None \<longrightarrow> payment_proven x r)"

lemma PaymentRecord_try_new_ok:
  "PaymentRecord_try_new x h p v f st = Ok r \<longleftrightarrow>
     r = \<lparr>pr_payment_hash = h, pr_preimage = p, pr_value = v, pr_fee = f, pr_state = st\<rparr>
     \<and> payment_record_ok x r"
  by (auto simp: PaymentRecord_try_new_def payment_record_ok_def payment_proven_def
      split: option.splits)

end
