(* ===== verification/Rust_Std.thy ===== *)
theory Rust_Std
  imports Nigiri_Prelude
begin

text \<open>
  The parts of Rust's standard library that the program's address handling uses: numbers in
  text (\<open>Display\<close>, \<open>u16::from_str\<close>), Unicode \<open>trim\<close>, and the parsers and
  printers of \<open>Ipv4Addr\<close> and \<open>Ipv6Addr\<close>.
\<close>

section \<open>Numbers in text\<close>

text \<open>\<open>char::to_digit\<close> for radix 10 and 16.\<close>

definition to_digit :: "nat \<Rightarrow> char \<Rightarrow> nat option" where
  "to_digit radix c =
     (let b = (of_char c :: nat);
          d = (if 48 \<le> b \<and> b \<le> 57 then b - 48
               else if 97 \<le> b \<and> b \<le> 102 then b - 87
               else if 65 \<le> b \<and> b \<le> 70 then b - 55 else radix)
      in if d < radix then Some d else None)"

definition is_digit :: "nat \<Rightarrow> char \<Rightarrow> bool" where
  "is_digit radix c \<longleftrightarrow> to_digit radix c \<noteq> None"

definition digit_char :: "nat \<Rightarrow> char" where
  "digit_char d = (if d < 10 then char_of (48 + d) else char_of (87 + d))"

text \<open>\<open>Display\<close> and \<open>LowerHex\<close> of an unsigned integer.\<close>

fun show_radix :: "nat \<Rightarrow> nat \<Rightarrow> string" where
  "show_radix radix n =
     (if n < radix \<or> radix < 2 then [digit_char n]
      else show_radix radix (n div radix) @ [digit_char (n mod radix)])"

declare show_radix.simps [simp del]

definition show_i32 :: "i32 \<Rightarrow> string" where
  "show_i32 v =
     (if sint v < 0 then ''-'' @ show_radix 10 (nat (- sint v)) else show_radix 10 (unat v))"

definition digits_value :: "nat \<Rightarrow> string \<Rightarrow> nat" where
  "digits_value radix ds = foldl (\<lambda>v c. v * radix + the (to_digit radix c)) 0 ds"

text \<open>\<open>u16::from_str\<close>: an optional plus sign, then decimal digits that fit.\<close>

definition parse_unsigned :: "nat \<Rightarrow> string \<Rightarrow> nat option" where
  "parse_unsigned limit s =
     (let ds = (case s of c # rest \<Rightarrow> (if c = CHR ''+'' then rest else s) | [] \<Rightarrow> s)
      in if ds \<noteq> [] \<and> list_all (is_digit 10) ds \<and> digits_value 10 ds \<le> limit
         then Some (digits_value 10 ds) else None)"

definition parse_u16 :: "string \<Rightarrow> u16 option" where
  "parse_u16 s = map_option of_nat (parse_unsigned 65535 s)"

lemma to_digit_digit_char:
  assumes "d < radix" and "radix = 10 \<or> radix = 16"
  shows "to_digit radix (digit_char d) = Some d"
  using assms by (auto simp: to_digit_def digit_char_def Let_def)

lemma digits_value_snoc [simp]:
  "digits_value radix (ds @ [c]) = digits_value radix ds * radix + the (to_digit radix c)"
  by (simp add: digits_value_def)

lemma show_radix_digits:
  assumes "radix = 10 \<or> radix = 16"
  shows "list_all (is_digit radix) (show_radix radix n) \<and> show_radix radix n \<noteq> []
    \<and> digits_value radix (show_radix radix n) = n"
proof (induction n rule: less_induct)
  case (less n)
  show ?case
  proof (cases "n < radix")
    case True
    then show ?thesis
      using to_digit_digit_char [OF True assms]
      by (simp add: show_radix.simps [of radix n] is_digit_def digits_value_def)
  next
    case False
    then have smaller: "n div radix < n" and r: "\<not> radix < 2" "n mod radix < radix"
      using assms by auto
    show ?thesis
      using less.IH [OF smaller] False r to_digit_digit_char [OF r(2) assms]
      by (simp add: show_radix.simps [of radix n] is_digit_def mult.commute)
  qed
qed

lemma digit_not_plus: "is_digit 10 c \<Longrightarrow> c \<noteq> CHR ''+''"
  by (auto simp: is_digit_def to_digit_def Let_def)

lemma parse_unsigned_show:
  assumes "n \<le> limit"
  shows "parse_unsigned limit (show_radix 10 n) = Some n"
proof -
  obtain c cs where s: "show_radix 10 n = c # cs"
    using show_radix_digits [of 10 n] by (cases "show_radix 10 n") auto
  then have "c \<noteq> CHR ''+''"
    using show_radix_digits [of 10 n] digit_not_plus [of c] by auto
  then show ?thesis
    using show_radix_digits [of 10 n] s assms by (simp add: parse_unsigned_def)
qed

lemma parse_u16_show: "parse_u16 (show_radix 10 (unat p)) = Some p"
proof -
  have "unat p \<le> 65535"
    using unsigned_less [of p, where 'a = nat] by simp
  then show ?thesis
    by (simp add: parse_u16_def parse_unsigned_show)
qed

section \<open>Unicode trimming\<close>

text \<open>The encodings of the characters with the Unicode property \<open>White_Space\<close>.\<close>

definition whitespace_encodings :: "string list" where
  "whitespace_encodings =
     [[CHR 0x09], [CHR 0x0A], [CHR 0x0B], [CHR 0x0C], [CHR 0x0D], [CHR 0x20],
      [CHR 0xC2, CHR 0x85], [CHR 0xC2, CHR 0xA0], [CHR 0xE1, CHR 0x9A, CHR 0x80],
      [CHR 0xE2, CHR 0x80, CHR 0x80], [CHR 0xE2, CHR 0x80, CHR 0x81],
      [CHR 0xE2, CHR 0x80, CHR 0x82], [CHR 0xE2, CHR 0x80, CHR 0x83],
      [CHR 0xE2, CHR 0x80, CHR 0x84], [CHR 0xE2, CHR 0x80, CHR 0x85],
      [CHR 0xE2, CHR 0x80, CHR 0x86], [CHR 0xE2, CHR 0x80, CHR 0x87],
      [CHR 0xE2, CHR 0x80, CHR 0x88], [CHR 0xE2, CHR 0x80, CHR 0x89],
      [CHR 0xE2, CHR 0x80, CHR 0x8A], [CHR 0xE2, CHR 0x80, CHR 0xA8],
      [CHR 0xE2, CHR 0x80, CHR 0xA9], [CHR 0xE2, CHR 0x80, CHR 0xAF],
      [CHR 0xE2, CHR 0x81, CHR 0x9F], [CHR 0xE3, CHR 0x80, CHR 0x80]]"

lemma whitespace_nonempty: "w \<in> set whitespace_encodings \<Longrightarrow> w \<noteq> []"
  by (auto simp: whitespace_encodings_def)

lemma whitespace_found:
  assumes "find P whitespace_encodings = Some w"
  shows "P w \<and> 0 < length w"
  using assms whitespace_nonempty by (auto simp: find_Some_iff)

function trim_start :: "string \<Rightarrow> string" where
  "trim_start s =
     (case find (\<lambda>w. prefix w s) whitespace_encodings of
        None \<Rightarrow> s
      | Some w \<Rightarrow> trim_start (drop (length w) s))"
  by pat_completeness auto
termination
  by (relation "measure length") (auto simp: prefix_def dest!: whitespace_found)

declare trim_start.simps [simp del]

definition ends_with_whitespace :: "string \<Rightarrow> string option" where
  "ends_with_whitespace s = find (\<lambda>w. suffix w s) whitespace_encodings"

function trim_end :: "string \<Rightarrow> string" where
  "trim_end s =
     (case ends_with_whitespace s of
        None \<Rightarrow> s
      | Some w \<Rightarrow> trim_end (take (length s - length w) s))"
  by pat_completeness auto
termination
  by (relation "measure length")
    (auto simp: ends_with_whitespace_def suffix_def dest!: whitespace_found)

declare trim_end.simps [simp del]

definition trim :: "string \<Rightarrow> string" where
  "trim s = trim_end (trim_start s)"

definition trimmed :: "string \<Rightarrow> bool" where
  "trimmed s \<longleftrightarrow>
     list_all (\<lambda>w. \<not> prefix w s \<and> \<not> suffix w s) whitespace_encodings"

lemma trim_trimmed: "trimmed s \<Longrightarrow> trim s = s"
proof -
  assume "trimmed s"
  then have "find (\<lambda>w. prefix w s) whitespace_encodings = None"
    and "find (\<lambda>w. suffix w s) whitespace_encodings = None"
    by (auto simp: trimmed_def find_None_iff list_all_iff)
  then show ?thesis
    by (simp add: trim_def trim_start.simps [of s] trim_end.simps [of s] ends_with_whitespace_def)
qed

section \<open>IP addresses\<close>

text \<open>
  \<open>core::net\<close>: an \<open>Ipv4Addr\<close> is its four octets, an \<open>Ipv6Addr\<close> its eight
  segments. A parser returns the value and the unread rest, or fails without consuming.
\<close>

type_synonym ipv4_addr = "u8 list"
type_synonym ipv6_addr = "u16 list"

text \<open>\<open>Parser::read_number\<close> with a maximal number of digits.\<close>

definition read_number ::
  "nat \<Rightarrow> nat \<Rightarrow> bool \<Rightarrow> nat \<Rightarrow> string \<Rightarrow> (nat \<times> string) option"
where
  "read_number radix max_digits allow_zero_prefix bound s =
     (let ds = takeWhile (is_digit radix) s
      in if length ds > max_digits \<or> ds = [] then None
         else if \<not> allow_zero_prefix \<and> hd ds = CHR ''0'' \<and> length ds > 1 then None
         else if digits_value radix ds \<le> bound
         then Some (digits_value radix ds, dropWhile (is_digit radix) s) else None)"

definition read_given_char :: "char \<Rightarrow> string \<Rightarrow> string option" where
  "read_given_char c s = (case s of [] \<Rightarrow> None | d # rest \<Rightarrow> if d = c then Some rest else None)"

definition read_separator ::
  "char \<Rightarrow> nat \<Rightarrow> (string \<Rightarrow> ('a \<times> string) option) \<Rightarrow> string \<Rightarrow> ('a \<times> string) option"
where
  "read_separator sep index inner s =
     (if index > 0 then Option.bind (read_given_char sep s) inner else inner s)"

fun read_octets :: "nat \<Rightarrow> nat \<Rightarrow> string \<Rightarrow> (ipv4_addr \<times> string) option" where
  "read_octets 0 i s = Some ([], s)"
| "read_octets (Suc k) i s =
     (case read_separator CHR ''.'' i (read_number 10 3 False 255) s of
        None \<Rightarrow> None
      | Some (v, rest) \<Rightarrow> map_option (map_prod (\<lambda>vs. of_nat v # vs) id) (read_octets k (Suc i) rest))"

definition read_ipv4_addr :: "string \<Rightarrow> (ipv4_addr \<times> string) option" where
  "read_ipv4_addr s = read_octets 4 0 s"

definition parse_ipv4 :: "string \<Rightarrow> ipv4_addr option" where
  "parse_ipv4 s =
     (if length s > 15 then None
      else case read_ipv4_addr s of
          Some (a, []) \<Rightarrow> Some a
        | _ \<Rightarrow> None)"

definition u16_from_be_bytes :: "u8 \<Rightarrow> u8 \<Rightarrow> u16" where
  "u16_from_be_bytes hi lo = ucast hi * 256 + ucast lo"

text \<open>
  \<open>read_groups\<close>: up to \<open>k\<close> more groups, the next one being group \<open>i\<close>; an
  embedded IPv4 address may fill the last two. The flag tells that it did.
\<close>

fun read_groups :: "nat \<Rightarrow> nat \<Rightarrow> string \<Rightarrow> u16 list \<times> bool \<times> string" where
  "read_groups 0 i s = ([], False, s)"
| "read_groups (Suc k) i s =
     (case (if k > 0 then read_separator CHR '':'' i read_ipv4_addr s else None) of
        Some (v4, rest) \<Rightarrow>
          ([u16_from_be_bytes (v4 ! 0) (v4 ! 1), u16_from_be_bytes (v4 ! 2) (v4 ! 3)], True, rest)
      | None \<Rightarrow>
          (case read_separator CHR '':'' i (read_number 16 4 True 65535) s of
             None \<Rightarrow> ([], False, s)
           | Some (g, rest) \<Rightarrow>
               (let (gs, v4, rest') = read_groups k (Suc i) rest in (of_nat g # gs, v4, rest'))))"

definition read_ipv6_addr :: "string \<Rightarrow> (ipv6_addr \<times> string) option" where
  "read_ipv6_addr s =
     (let (front, front_v4, rest) = read_groups 8 0 s
      in if length front = 8 then Some (front, rest)
         else if front_v4 then None
         else case Option.bind (read_given_char CHR '':'' rest) (read_given_char CHR '':'') of
             None \<Rightarrow> None
           | Some rest' \<Rightarrow>
               (let (back, _, rest'') = read_groups (8 - (length front + 1)) 0 rest'
                in Some (front @ replicate (8 - length front - length back) 0 @ back, rest'')))"

definition parse_ipv6 :: "string \<Rightarrow> ipv6_addr option" where
  "parse_ipv6 s = (case read_ipv6_addr s of Some (a, []) \<Rightarrow> Some a | _ \<Rightarrow> None)"

fun join_with :: "string \<Rightarrow> string list \<Rightarrow> string" where
  "join_with sep [] = []"
| "join_with sep [x] = x"
| "join_with sep (x # y # ys) = x @ sep @ join_with sep (y # ys)"

definition show_ipv4 :: "ipv4_addr \<Rightarrow> string" where
  "show_ipv4 a = join_with ''.'' (map (\<lambda>b. show_radix 10 (unat b)) a)"

definition to_ipv4_mapped :: "ipv6_addr \<Rightarrow> ipv4_addr option" where
  "to_ipv4_mapped a =
     (if take 6 a = [0, 0, 0, 0, 0, 0xffff]
      then Some [ucast (a ! 6 div 256), ucast (a ! 6 mod 256),
                 ucast (a ! 7 div 256), ucast (a ! 7 mod 256)]
      else None)"

text \<open>The first longest run of zero segments, as start and length.\<close>

fun longest_zero_run ::
  "u16 list \<Rightarrow> nat \<Rightarrow> nat \<times> nat \<Rightarrow> nat \<times> nat \<Rightarrow> nat \<times> nat"
where
  "longest_zero_run [] i current longest = longest"
| "longest_zero_run (seg # segs) i (start, len) longest =
     (if seg = 0
      then let cur = (if len = 0 then i else start, len + 1)
           in longest_zero_run segs (i + 1) cur (if snd cur > snd longest then cur else longest)
      else longest_zero_run segs (i + 1) (0, 0) longest)"

definition show_segments :: "u16 list \<Rightarrow> string" where
  "show_segments segs = join_with '':'' (map (\<lambda>g. show_radix 16 (unat g)) segs)"

definition show_ipv6 :: "ipv6_addr \<Rightarrow> string" where
  "show_ipv6 a =
     (case to_ipv4_mapped a of
        Some v4 \<Rightarrow> ''::ffff:'' @ show_ipv4 v4
      | None \<Rightarrow>
          (let (start, len) = longest_zero_run a 0 (0, 0) (0, 0)
           in if len > 1
              then show_segments (take start a) @ ''::'' @ show_segments (drop (start + len) a)
              else show_segments a))"

end
