(* ===== verification/Lnd_Endpoint.thy ===== *)
theory Lnd_Endpoint
  imports Lnd_Types Rust_Std
begin

text \<open>
  \<open>endpoint.rs\<close> and the two peer types of \<open>types.rs\<close>: validation and canonical
  text of Lightning peer hosts, with the asymmetry that a reported version 2 onion host is
  readable but not dialable.
\<close>

datatype peer_host =
    PeerIpv4 ipv4_addr
  | PeerIpv6 ipv6_addr
  | PeerName string
  | PeerOnionV2 string
  | PeerOnionV3 string

fun canonical_host :: "peer_host \<Rightarrow> string" where
  "canonical_host (PeerIpv4 address) = show_ipv4 address"
| "canonical_host (PeerIpv6 address) = show_ipv6 address"
| "canonical_host (PeerName name) = name"
| "canonical_host (PeerOnionV2 name) = name"
| "canonical_host (PeerOnionV3 name) = name"

definition base32_char :: "char \<Rightarrow> bool" where
  "base32_char c \<longleftrightarrow> is_ascii_lowercase c \<or> (let b = (of_char c :: nat) in 50 \<le> b \<and> b \<le> 55)"

definition label_ok :: "string \<Rightarrow> bool" where
  "label_ok label \<longleftrightarrow>
     \<not> (label = [] \<or> length label > 63 \<or> prefix ''-'' label \<or> suffix ''-'' label
        \<or> \<not> list_all (\<lambda>c. is_ascii_alphanumeric c \<or> c = CHR ''-'') label)"

definition parse_name :: "string \<Rightarrow> unit + peer_host" where
  "parse_name s =
     (if \<not> list_all is_ascii s \<or> length s > 253 then Err ()
      else let name = (case strip_suffix_of ''.'' s of Some n \<Rightarrow> n | None \<Rightarrow> s) in
        if name = [] then Err ()
        else let lowercase_name = to_ascii_lowercase name in
          case strip_suffix_of ''.onion'' lowercase_name of
            Some service \<Rightarrow>
              (if \<not> list_all base32_char service \<or> CHR ''.'' \<in> set service then Err ()
               else if length service = 16 then Ok (PeerOnionV2 lowercase_name)
               else if length service = 56 then Ok (PeerOnionV3 lowercase_name)
               else Err ())
          | None \<Rightarrow>
              (if list_all (\<lambda>c. is_ascii_digit c \<or> c = CHR ''.'') name then Err ()
               else if list_all label_ok (split_on CHR ''.'' name) then Ok (PeerName s)
               else Err ()))"

definition parse_host :: "string \<Rightarrow> unit + peer_host" where
  "parse_host s =
     (if s = [] \<or> s \<noteq> trim s then Err ()
      else if prefix ''['' s \<or> suffix '']'' s
      then and_then (ok_or (Option.bind (strip_prefix_of ''['' s) (strip_suffix_of '']'')) ())
             (\<lambda>inner. map_ok PeerIpv6 (ok_or (parse_ipv6 inner) ()))
      else case parse_ipv6 s of
          Some address \<Rightarrow> Ok (PeerIpv6 address)
        | None \<Rightarrow>
            (if CHR '':'' \<in> set s then Err ()
             else case parse_ipv4 s of
                 Some address \<Rightarrow> Ok (PeerIpv4 address)
               | None \<Rightarrow> parse_name s))"

definition normalize_outbound_peer_host :: "string \<Rightarrow> unit + string" where
  "normalize_outbound_peer_host s =
     and_then (parse_host s)
       (\<lambda>h. case h of PeerOnionV2 name \<Rightarrow> Err () | _ \<Rightarrow> Ok (canonical_host h))"

definition normalize_reported_peer_host :: "string \<Rightarrow> unit + string" where
  "normalize_reported_peer_host s = map_ok canonical_host (parse_host s)"

definition serialize_peer_endpoint :: "string \<Rightarrow> u16 \<Rightarrow> string" where
  "serialize_peer_endpoint host port =
     (if parse_ipv6 host \<noteq> None
      then ''['' @ host @ '']:'' @ show_radix 10 (unat port)
      else host @ '':'' @ show_radix 10 (unat port))"

definition parse_peer_endpoint :: "string \<Rightarrow> unit + string" where
  "parse_peer_endpoint s =
     (if s \<noteq> trim s then Err ()
      else and_then
        (case strip_prefix_of ''['' s of
           Some bracketed \<Rightarrow>
             and_then (ok_or (split_once '']:'' bracketed) ())
               (\<lambda>(host, port).
                  if host = [] \<or> CHR '':'' \<in> set port \<or> CHR '']'' \<in> set port then Err ()
                  else Ok (''['' @ host @ '']'', port))
         | None \<Rightarrow>
             and_then (ok_or (split_once '':'' s) ())
               (\<lambda>(host, port).
                  if host = [] \<or> CHR '':'' \<in> set port then Err () else Ok (host, port)))
        (\<lambda>(host, port_text).
           and_then (ok_or (parse_u16 port_text) ())
             (\<lambda>port. if port = 0 then Err ()
                else and_then (normalize_reported_peer_host host)
                       (\<lambda>host'. Ok (serialize_peer_endpoint host' port)))))"

section \<open>Peer values\<close>

record peer_address =
  pa_public_key :: public_key
  pa_host :: string
  pa_port :: u16

definition PeerAddress_new :: "public_key \<Rightarrow> string \<Rightarrow> u16 \<Rightarrow> lnd_error + peer_address" where
  "PeerAddress_new public_key host_text port =
     (let host = trim host_text in
      if host = [] then Err (invalid ''peer host must not be blank'')
      else if port = 0 then Err (invalid ''peer port must not be zero'')
      else and_then
        (map_err (\<lambda>_. invalid ''peer host must be a valid host without a port'')
          (normalize_outbound_peer_host host))
        (\<lambda>host'. Ok \<lparr>pa_public_key = public_key, pa_host = host', pa_port = port\<rparr>))"

record peer =
  peer_public_key :: public_key
  peer_endpoint :: string
  peer_connected :: bool

definition Peer_try_new :: "public_key \<Rightarrow> string \<Rightarrow> bool \<Rightarrow> lnd_error + peer" where
  "Peer_try_new public_key address connected =
     and_then
       (map_err (\<lambda>_. invalid ''peer address is malformed'') (parse_peer_endpoint address))
       (\<lambda>address'. Ok \<lparr>peer_public_key = public_key, peer_endpoint = address',
                       peer_connected = connected\<rparr>)"

end
