(* ===== verification/Lnd_Config.thy ===== *)
theory Lnd_Config
  imports Lnd_Types Rust_Std
begin

text \<open>
  \<open>config.rs\<close>: the validated TLS endpoint and the bounded credentials of a client. The
  \<open>url\<close> crate's parser is the parameter \<open>url_parse\<close>; a file is the sequence of its
  reads.
\<close>

datatype url_host = HostDomain string | HostIpv4 ipv4_addr | HostIpv6 ipv6_addr

record url =
  url_as_str :: string
  url_scheme :: string
  url_host_of :: "url_host option"
  url_host_str :: "string option"
  url_port :: "u16 option"
  url_query :: "string option"
  url_fragment :: "string option"

definition MAX_TLS_CERTIFICATE_BYTES :: nat where
  "MAX_TLS_CERTIFICATE_BYTES = 1048576"

definition MAX_MACAROON_BYTES :: nat where
  "MAX_MACAROON_BYTES = 65536"

record tls_config =
  tls_endpoint_url :: url
  tls_certificate :: string
  tls_timeout :: duration

record lnd_config =
  lc_tls :: tls_config
  lc_macaroon :: "u8 list"

section \<open>The endpoint\<close>

definition original_authority :: "string \<Rightarrow> lnd_error + string" where
  "original_authority endpoint =
     and_then (ok_or (split_once ''://'' endpoint) (invalid ''endpoint must include a host''))
       (\<lambda>(_, rest). Ok (take (find_any ''/?#'' rest) rest))"

definition authority_port :: "string \<Rightarrow> string option" where
  "authority_port authority =
     (if prefix ''['' authority
      then Option.bind (find_sub '']'' authority)
             (\<lambda>close. strip_prefix_of '':'' (drop (close + 1) authority))
      else map_option snd (rsplit_once CHR '':'' authority))"

definition validate_authority :: "string \<Rightarrow> lnd_error + unit" where
  "validate_authority authority =
     (if CHR ''@'' \<in> set authority then Err (invalid ''endpoint must not include userinfo'')
      else case authority_port authority of
          None \<Rightarrow> Err (invalid ''endpoint must include a port'')
        | Some port_text \<Rightarrow>
            (if port_text = [] \<or> \<not> list_all is_ascii_digit port_text
             then Err (invalid ''endpoint port must be in range'')
             else and_then
               (ok_or (parse_u16 port_text) (invalid ''endpoint port must be in range''))
               (\<lambda>port. if port = 0 then Err (invalid ''endpoint port must be greater than zero'')
                      else Ok ())))"

definition validate_endpoint :: "(string \<Rightarrow> url option) \<Rightarrow> string \<Rightarrow> lnd_error + url" where
  "validate_endpoint url_parse endpoint =
     and_then (original_authority endpoint) (\<lambda>authority.
     and_then (validate_authority authority) (\<lambda>_.
     and_then (ok_or (url_parse endpoint) (invalid ''endpoint must be a valid HTTPS URL'')) (\<lambda>url.
       if url_scheme url \<noteq> ''https'' then Err (invalid ''endpoint must use HTTPS'')
       else if url_host_str url = None then Err (invalid ''endpoint must include a host'')
       else if url_query url \<noteq> None then Err (invalid ''endpoint must not include a query'')
       else if url_fragment url \<noteq> None
       then Err (invalid ''endpoint must not include a fragment'')
       else Ok url)))"

section \<open>Credentials\<close>

definition validate_credential :: "string \<Rightarrow> nat \<Rightarrow> nat \<Rightarrow> lnd_error + unit" where
  "validate_credential name len maximum =
     (if len = 0
      then Err (invalid (if name = ''TLS certificate'' then ''TLS certificate must not be empty''
                         else ''macaroon must not be empty''))
      else if len > maximum
      then Err (invalid (if name = ''TLS certificate''
                         then ''TLS certificate exceeds MAX_TLS_CERTIFICATE_BYTES''
                         else ''macaroon exceeds MAX_MACAROON_BYTES''))
      else Ok ())"

definition TlsConfig_new ::
  "(string \<Rightarrow> url option) \<Rightarrow> string \<Rightarrow> string \<Rightarrow> duration \<Rightarrow> lnd_error + tls_config"
where
  "TlsConfig_new url_parse endpoint certificate timeout =
     and_then (validate_endpoint url_parse endpoint) (\<lambda>url.
     and_then (validate_credential ''TLS certificate'' (length certificate)
                 MAX_TLS_CERTIFICATE_BYTES) (\<lambda>_.
       if is_zero timeout then Err (invalid ''timeout must be greater than zero'')
       else Ok \<lparr>tls_endpoint_url = url, tls_certificate = certificate, tls_timeout = timeout\<rparr>))"

text \<open>
  \<open>TlsConfig::from_url\<close> restores the default port, which a parsed \<open>Url\<close> no longer
  shows, in the text that is validated again.
\<close>

definition restore_default_port :: "url \<Rightarrow> string" where
  "restore_default_port url =
     (let text = url_as_str url in
      if url_scheme url = ''https'' \<and> url_port url = None
      then let start = (case find_sub ''://'' text of Some i \<Rightarrow> i + 3 | None \<Rightarrow> 0);
               authority_end = start + find_any ''/?#'' (drop start text)
           in take authority_end text @ '':443'' @ drop authority_end text
      else text)"

definition TlsConfig_from_url ::
  "(string \<Rightarrow> url option) \<Rightarrow> url \<Rightarrow> string \<Rightarrow> duration \<Rightarrow> lnd_error + tls_config"
where
  "TlsConfig_from_url url_parse endpoint certificate timeout =
     TlsConfig_new url_parse (restore_default_port endpoint) certificate timeout"

definition LndConfig_authenticated :: "tls_config \<Rightarrow> u8 list \<Rightarrow> lnd_error + lnd_config" where
  "LndConfig_authenticated tls macaroon =
     and_then (validate_credential ''macaroon'' (length macaroon) MAX_MACAROON_BYTES)
       (\<lambda>_. Ok \<lparr>lc_tls = tls, lc_macaroon = macaroon\<rparr>)"

definition LndConfig_new ::
  "(string \<Rightarrow> url option) \<Rightarrow> string \<Rightarrow> string \<Rightarrow> u8 list \<Rightarrow> duration \<Rightarrow> lnd_error + lnd_config"
where
  "LndConfig_new url_parse endpoint certificate macaroon timeout =
     and_then (TlsConfig_new url_parse endpoint certificate timeout)
       (\<lambda>tls. LndConfig_authenticated tls macaroon)"

text \<open>
  A file: opening it fails or yields its reads. The \<open>i\<close>-th read fails or returns at most
  one chunk, the empty one at the end of the file. The loop keeps no more than \<open>maximum\<close>
  bytes, whatever the file serves.
\<close>

type_synonym 'b reads = "nat \<Rightarrow> io_error + 'b list"

function read_chunks ::
  "string \<Rightarrow> nat \<Rightarrow> 'b reads \<Rightarrow> nat \<Rightarrow> 'b list \<Rightarrow> lnd_error + 'b list"
where
  "read_chunks path maximum reads i bytes =
     (case reads i of
        Err source \<Rightarrow> Err (CredentialRead path source)
      | Ok chunk \<Rightarrow>
          (if chunk = [] then Ok bytes
           else if length bytes + length chunk \<ge> 2 ^ 64
           then Err (invalid ''credential file length overflowed while reading'')
           else if length bytes + length chunk > maximum
           then Err (invalid (if maximum = MAX_TLS_CERTIFICATE_BYTES
                              then ''TLS certificate exceeds MAX_TLS_CERTIFICATE_BYTES''
                              else ''macaroon exceeds MAX_MACAROON_BYTES''))
           else read_chunks path maximum reads (Suc i) (bytes @ chunk)))"
  by pat_completeness auto
termination
  by (relation "measure (\<lambda>(path, maximum, reads, i, bytes). maximum - length bytes)")
    (auto simp: not_less simp flip: length_greater_0_conv)

declare read_chunks.simps [simp del]

datatype 'b opened_file = CannotOpen io_error | Opened "'b reads"

definition read_bounded :: "(string \<Rightarrow> 'b opened_file) \<Rightarrow> string \<Rightarrow> nat \<Rightarrow> lnd_error + 'b list" where
  "read_bounded open_file path maximum =
     (case open_file path of
        CannotOpen source \<Rightarrow> Err (CredentialRead path source)
      | Opened reads \<Rightarrow> read_chunks path maximum reads 0 [])"

definition LndConfig_from_files ::
  "(string \<Rightarrow> url option) \<Rightarrow> (string \<Rightarrow> char opened_file) \<Rightarrow> (string \<Rightarrow> u8 opened_file)
     \<Rightarrow> string \<Rightarrow> string \<Rightarrow> string \<Rightarrow> duration \<Rightarrow> lnd_error + lnd_config"
where
  "LndConfig_from_files url_parse open_text open_binary endpoint certificate_path macaroon_path
       timeout =
     and_then (read_bounded open_text certificate_path MAX_TLS_CERTIFICATE_BYTES) (\<lambda>certificate.
     and_then (read_bounded open_binary macaroon_path MAX_MACAROON_BYTES) (\<lambda>macaroon.
       LndConfig_new url_parse endpoint certificate macaroon timeout))"

section \<open>What the reader returns\<close>

text \<open>
  The abstract content of a file from its \<open>i\<close>-th read on: the concatenation of its
  reads up to the first empty one. A file that fails, or never ends, has none.
\<close>

inductive file_serves :: "'b reads \<Rightarrow> nat \<Rightarrow> 'b list \<Rightarrow> bool" for reads where
  at_end: "reads i = Ok [] \<Longrightarrow> file_serves reads i []"
| at_chunk: "reads i = Ok c \<Longrightarrow> c \<noteq> [] \<Longrightarrow> file_serves reads (Suc i) rest
     \<Longrightarrow> file_serves reads i (c @ rest)"

inductive_cases file_serves_elim: "file_serves reads i content"

lemma file_serves_Err: "reads i = Err e \<Longrightarrow> \<not> file_serves reads i content"
  by (auto elim: file_serves_elim)

lemma file_serves_end: "reads i = Ok [] \<Longrightarrow> file_serves reads i content \<longleftrightarrow> content = []"
  by (auto elim: file_serves_elim intro: file_serves.intros)

lemma file_serves_chunk:
  "reads i = Ok c \<Longrightarrow> c \<noteq> [] \<Longrightarrow>
     file_serves reads i content \<longleftrightarrow>
       (\<exists>rest. content = c @ rest \<and> file_serves reads (Suc i) rest)"
  by (auto elim: file_serves_elim intro: file_serves.intros)

lemma read_chunks_Ok_iff:
  assumes "length bytes \<le> maximum" and "maximum < 2 ^ 64"
  shows "read_chunks path maximum reads i bytes = Ok r \<longleftrightarrow>
    (\<exists>content. file_serves reads i content \<and> r = bytes @ content \<and> length r \<le> maximum)"
  using assms
proof (induction path maximum reads i bytes rule: read_chunks.induct)
  case (1 path maximum reads i bytes)
  show ?case
  proof (cases "reads i")
    case (Inl e)
    then show ?thesis
      by (simp add: read_chunks.simps [of path maximum reads i] file_serves_Err)
  next
    case (Inr c)
    show ?thesis
    proof (cases "c = [] \<or> length bytes + length c > maximum")
      case True
      then show ?thesis
        using Inr 1(2,3)
        by (auto simp: read_chunks.simps [of path maximum reads i] file_serves_end
            file_serves_chunk)
    next
      case False
      then have "read_chunks path maximum reads i bytes
          = read_chunks path maximum reads (Suc i) (bytes @ c)"
        using Inr 1(3) by (simp add: read_chunks.simps [of path maximum reads i])
      moreover have "read_chunks path maximum reads (Suc i) (bytes @ c) = Ok r \<longleftrightarrow>
          (\<exists>content. file_serves reads (Suc i) content \<and> r = (bytes @ c) @ content
             \<and> length r \<le> maximum)"
        using 1(1) [OF Inr] False 1(3) by simp
      ultimately show ?thesis
        using Inr False by (auto simp: file_serves_chunk)
    qed
  qed
qed

lemma read_bounded_Ok_iff:
  assumes "maximum < 2 ^ 64"
  shows "read_bounded open_file path maximum = Ok r \<longleftrightarrow>
    (\<exists>reads. open_file path = Opened reads \<and> file_serves reads 0 r \<and> length r \<le> maximum)"
  using assms
  by (auto simp: read_bounded_def read_chunks_Ok_iff split: opened_file.splits)

section \<open>What a configuration guarantees\<close>

lemma validate_credential_Ok:
  "validate_credential name len maximum = Ok u \<longleftrightarrow> 0 < len \<and> len \<le> maximum"
  by (auto simp: validate_credential_def)

definition tls_config_ok :: "tls_config \<Rightarrow> bool" where
  "tls_config_ok t \<longleftrightarrow>
     tls_certificate t \<noteq> [] \<and> length (tls_certificate t) \<le> MAX_TLS_CERTIFICATE_BYTES
     \<and> \<not> is_zero (tls_timeout t)
     \<and> url_scheme (tls_endpoint_url t) = ''https''
     \<and> url_host_str (tls_endpoint_url t) \<noteq> None
     \<and> url_query (tls_endpoint_url t) = None \<and> url_fragment (tls_endpoint_url t) = None"

definition lnd_config_ok :: "lnd_config \<Rightarrow> bool" where
  "lnd_config_ok c \<longleftrightarrow>
     tls_config_ok (lc_tls c)
     \<and> lc_macaroon c \<noteq> [] \<and> length (lc_macaroon c) \<le> MAX_MACAROON_BYTES"

text \<open>The authority of an accepted endpoint names a port between 1 and 65535.\<close>

definition authority_ok :: "string \<Rightarrow> bool" where
  "authority_ok authority \<longleftrightarrow>
     CHR ''@'' \<notin> set authority
     \<and> (\<exists>port_text port. authority_port authority = Some port_text
          \<and> list_all is_ascii_digit port_text \<and> parse_u16 port_text = Some port \<and> port \<noteq> 0)"

lemma parse_u16_Nil [simp]: "parse_u16 [] = None"
  by (simp add: parse_u16_def parse_unsigned_def)

lemma validate_authority_Ok: "validate_authority authority = Ok u \<longleftrightarrow> authority_ok authority"
  by (auto simp: validate_authority_def authority_ok_def result_simps split: option.splits)

lemma validate_endpoint_Ok:
  "validate_endpoint url_parse endpoint = Ok u \<longleftrightarrow>
     (\<exists>authority. original_authority endpoint = Ok authority \<and> authority_ok authority)
     \<and> url_parse endpoint = Some u \<and> url_scheme u = ''https'' \<and> url_host_str u \<noteq> None
     \<and> url_query u = None \<and> url_fragment u = None"
  by (auto simp: validate_endpoint_def result_simps validate_authority_Ok)

lemma TlsConfig_new_Ok:
  assumes "TlsConfig_new url_parse endpoint certificate timeout = Ok t"
  shows "tls_config_ok t \<and> tls_certificate t = certificate \<and> tls_timeout t = timeout
    \<and> validate_endpoint url_parse endpoint = Ok (tls_endpoint_url t)"
  using assms
  by (auto simp: TlsConfig_new_def tls_config_ok_def result_simps validate_endpoint_Ok
      validate_credential_Ok)

lemma LndConfig_new_Ok:
  assumes "LndConfig_new url_parse endpoint certificate macaroon timeout = Ok c"
  shows "lnd_config_ok c \<and> tls_certificate (lc_tls c) = certificate \<and> lc_macaroon c = macaroon"
  using assms TlsConfig_new_Ok
  by (fastforce simp: LndConfig_new_def LndConfig_authenticated_def lnd_config_ok_def result_simps
      validate_credential_Ok)

section \<open>The restored default port\<close>

lemma find_scheme: "find_sub ''://'' (''https://'' @ s) = Some 5"
  by simp

lemma split_scheme: "split_once ''://'' (''https://'' @ s) = Some (''https'', s)"
  unfolding split_once_def find_scheme by simp

lemmas port_text_simps =
  parse_u16_def parse_unsigned_def digits_value_def to_digit_def is_digit_def is_ascii_digit_def
  Let_def

lemma port_443_ok:
  assumes "\<forall>c \<in> set host. c \<notin> set ''/?#:@[''"
  shows "authority_ok (host @ '':443'')"
proof -
  have "\<not> prefix ''['' (host @ '':443'')"
    using assms by (cases host) auto
  moreover have "rsplit_once CHR '':'' (host @ CHR '':'' # ''443'') = Some (host, ''443'')"
    by (rule rsplit_once_append) simp
  ultimately have "authority_port (host @ '':443'') = Some ''443''"
    by (simp add: authority_port_def)
  moreover have "parse_u16 ''443'' = Some 443" and "list_all is_ascii_digit ''443''"
    by (simp_all add: port_text_simps)
  ultimately show ?thesis
    using assms by (auto simp: authority_ok_def)
qed

text \<open>
  A configuration read from files holds exactly the content of the two files, each within
  its bound and not empty, and its endpoint is an HTTPS URL without query or fragment.
\<close>

theorem from_files_within_bounds:
  assumes "LndConfig_from_files url_parse open_text open_binary endpoint cert_path mac_path timeout
      = Ok c"
  shows "lnd_config_ok c
    \<and> (\<exists>reads. open_text cert_path = Opened reads
         \<and> file_serves reads 0 (tls_certificate (lc_tls c)))
    \<and> (\<exists>reads. open_binary mac_path = Opened reads \<and> file_serves reads 0 (lc_macaroon c))"
proof -
  obtain certificate macaroon where
    "read_bounded open_text cert_path MAX_TLS_CERTIFICATE_BYTES = Ok certificate"
    "read_bounded open_binary mac_path MAX_MACAROON_BYTES = Ok macaroon"
    "LndConfig_new url_parse endpoint certificate macaroon timeout = Ok c"
    using assms by (auto simp: LndConfig_from_files_def result_simps)
  then show ?thesis
    using LndConfig_new_Ok [of url_parse endpoint certificate macaroon timeout c]
    by (auto simp: read_bounded_Ok_iff MAX_TLS_CERTIFICATE_BYTES_def MAX_MACAROON_BYTES_def)
qed

text \<open>
  C14: the reader of a credential file succeeds exactly when the file has an end and its whole
  content is within the bound, and then returns that content; a file that never ends is refused
  after at most the bound.
\<close>

theorem read_bounded_exact:
  assumes "maximum < 2 ^ 64"
  shows "read_bounded open_file path maximum = Ok r \<longleftrightarrow>
    (\<exists>reads. open_file path = Opened reads \<and> file_serves reads 0 r \<and> length r \<le> maximum)"
  using assms by (rule read_bounded_Ok_iff)

text \<open>
  The endpoint text rebuilt from a parsed HTTPS URL whose default port was erased is the
  original authority with port 443, so that the authority check accepts it.
\<close>

theorem restored_port_accepted:
  assumes "url_as_str u = ''https://'' @ host @ tail" and "url_scheme u = ''https''"
    and "url_port u = None" and "\<forall>c \<in> set host. c \<notin> set ''/?#:@[''"
    and "tail = [] \<or> hd tail \<in> set ''/?#''"
  shows "restore_default_port u = ''https://'' @ host @ '':443'' @ tail
    \<and> original_authority (restore_default_port u) = Ok (host @ '':443'')
    \<and> validate_authority (host @ '':443'') = Ok ()"
proof -
  have clean: "\<forall>c \<in> set (host @ '':443''). c \<notin> set ''/?#''"
    using assms(4) by auto
  have "find_any ''/?#'' (host @ tail) = length host"
    using assms(4,5) by (intro find_any_split) auto
  then have restored: "restore_default_port u = ''https://'' @ host @ '':443'' @ tail"
    using assms(1-3) find_scheme [of "host @ tail"]
    by (simp add: restore_default_port_def Let_def take_Cons' drop_Cons' del: find_sub.simps)
  have "find_any ''/?#'' ((host @ '':443'') @ tail) = length (host @ '':443'')"
    using clean assms(5) by (rule find_any_split)
  then have "original_authority (''https://'' @ (host @ '':443'') @ tail) = Ok (host @ '':443'')"
    unfolding original_authority_def split_scheme by simp
  then show ?thesis
    using restored port_443_ok [OF assms(4)] by (simp add: validate_authority_Ok)
qed

section \<open>A concrete configuration\<close>

definition example_url :: url where
  "example_url = \<lparr>url_as_str = ''https://localhost/'', url_scheme = ''https'',
     url_host_of = Some (HostDomain ''localhost''), url_host_str = Some ''localhost'',
     url_port = None, url_query = None, url_fragment = None\<rparr>"

definition example_reads :: "'b list \<Rightarrow> 'b reads" where
  "example_reads content i = (if i = 0 then Ok content else Ok [])"

lemma example_reads_serves:
  assumes "content \<noteq> []"
  shows "file_serves (example_reads content) 0 content"
proof -
  have "file_serves (example_reads content) 0 (content @ [])"
    using assms by (intro at_chunk at_end) (auto simp: example_reads_def)
  then show ?thesis by simp
qed

lemma example_read_bounded:
  assumes "content \<noteq> []" and "length content \<le> maximum" and "maximum < 2 ^ 64"
  shows "read_bounded (\<lambda>_. Opened (example_reads content)) path maximum = Ok content"
  using assms by (simp add: read_bounded_Ok_iff example_reads_serves)

lemma restored_port_accepted_witness:
  "restore_default_port example_url = ''https://localhost:443/''
   \<and> validate_authority ''localhost:443'' = Ok ()"
  using restored_port_accepted [of example_url "''localhost''" "''/''"]
  by (simp add: example_url_def)

lemma read_bounded_exact_witness:
  "read_bounded (\<lambda>_. Opened (example_reads [7 :: u8, 9])) ''admin.macaroon'' MAX_MACAROON_BYTES
     = Ok [7, 9]"
  using read_bounded_exact [of MAX_MACAROON_BYTES
      "\<lambda>_. Opened (example_reads [7 :: u8, 9])" "''admin.macaroon''" "[7, 9]"]
  by (simp add: MAX_MACAROON_BYTES_def example_reads_serves)

lemma example_authority:
  "authority_port ''localhost:10009'' = Some ''10009''"
  by (simp add: authority_port_def rsplit_once_def)

lemma example_LndConfig_new:
  "is_ok (LndConfig_new (\<lambda>_. Some example_url) ''https://localhost:10009'' ''PEM'' [1]
     (from_secs 5))"
  by (simp add: LndConfig_new_def TlsConfig_new_def validate_endpoint_def original_authority_def
      split_once_def find_any_def validate_authority_def example_authority port_text_simps
      example_url_def validate_credential_def MAX_TLS_CERTIFICATE_BYTES_def is_zero_def
      from_secs_def LndConfig_authenticated_def MAX_MACAROON_BYTES_def)

lemma from_files_within_bounds_witness:
  "\<exists>c. LndConfig_from_files (\<lambda>_. Some example_url)
      (\<lambda>_. Opened (example_reads ''PEM'')) (\<lambda>_. Opened (example_reads [1]))
      ''https://localhost:10009'' ''tls.cert'' ''admin.macaroon'' (from_secs 5) = Ok c
    \<and> lnd_config_ok c"
proof -
  obtain c where "LndConfig_from_files (\<lambda>_. Some example_url)
      (\<lambda>_. Opened (example_reads ''PEM'')) (\<lambda>_. Opened (example_reads [1]))
      ''https://localhost:10009'' ''tls.cert'' ''admin.macaroon'' (from_secs 5) = Ok c"
    using example_LndConfig_new
    by (auto simp: LndConfig_from_files_def example_read_bounded MAX_TLS_CERTIFICATE_BYTES_def
        MAX_MACAROON_BYTES_def is_ok_iff)
  then show ?thesis
    using from_files_within_bounds by blast
qed

end
