(* ===== verification/Lnd_Transport.thy ===== *)
theory Lnd_Transport
  imports Lnd_Config
begin

text \<open>
  \<open>transport.rs\<close>: the lazily connected channel, the deadline every request is awaited
  under, the classification of gRPC statuses (with the separate one for requests that may have
  committed), the macaroon metadata, and the pinned server certificate.
\<close>

section \<open>Clock, client and the lazily opened channel\<close>

text \<open>
  Instants are nanoseconds of the monotonic clock; \<open>checked_add\<close> fails beyond the last
  representable one.
\<close>

record clock =
  clock_now :: nat
  clock_last :: nat

definition operation_deadline :: "clock \<Rightarrow> duration \<Rightarrow> lnd_error + nat" where
  "operation_deadline c d =
     (let instant = clock_now c + as_nanos d
      in ok_or (if instant \<le> clock_last c then Some instant else None)
           (InvalidRequest ''request timeout exceeds the supported instant range''))"

lemma operation_deadline_Ok:
  "operation_deadline c d = Ok t \<longleftrightarrow> t = clock_now c + as_nanos d \<and> t \<le> clock_last c"
  by (auto simp: operation_deadline_def Let_def)

lemma operation_deadline_Err:
  "operation_deadline c d = Err e \<Longrightarrow> is_InvalidRequest e"
  by (auto simp: operation_deadline_def Let_def split: if_splits)

text \<open>
  \<open>LazyChannel\<close>: a \<open>OnceCell\<close> that the first caller fills with
  \<open>endpoint.connect_lazy()\<close>; later callers clone its content.
\<close>

record ('e, 'c) lazy_channel =
  lc_endpoint :: 'e
  lc_channel :: "'c option"

definition LazyChannel_new :: "'e \<Rightarrow> ('e, 'c) lazy_channel" where
  "LazyChannel_new endpoint = \<lparr>lc_endpoint = endpoint, lc_channel = None\<rparr>"

definition LazyChannel_channel ::
  "('e \<Rightarrow> 'c) \<Rightarrow> ('e, 'c) lazy_channel \<Rightarrow> 'c \<times> ('e, 'c) lazy_channel"
where
  "LazyChannel_channel connect_lazy l =
     (case lc_channel l of
        Some c \<Rightarrow> (c, l)
      | None \<Rightarrow> (let c = connect_lazy (lc_endpoint l) in (c, l\<lparr>lc_channel := Some c\<rparr>)))"

lemma LazyChannel_channel_stable:
  "LazyChannel_channel f l = (c, l') \<Longrightarrow> LazyChannel_channel g l' = (c, l')"
  by (auto simp: LazyChannel_channel_def Let_def split: option.splits)

record client_inner =
  ci_macaroon :: string
  ci_timeout :: duration

section \<open>Classification of statuses\<close>

fun status_code :: "grpc_code \<Rightarrow> lnd_status_code" where
  "status_code Code_Ok = LndOk"
| "status_code Code_Cancelled = LndCancelled"
| "status_code Code_Unknown = LndUnknown"
| "status_code Code_InvalidArgument = LndInvalidArgument"
| "status_code Code_DeadlineExceeded = LndDeadlineExceeded"
| "status_code Code_NotFound = LndNotFound"
| "status_code Code_AlreadyExists = LndAlreadyExists"
| "status_code Code_PermissionDenied = LndPermissionDenied"
| "status_code Code_ResourceExhausted = LndResourceExhausted"
| "status_code Code_FailedPrecondition = LndFailedPrecondition"
| "status_code Code_Aborted = LndAborted"
| "status_code Code_OutOfRange = LndOutOfRange"
| "status_code Code_Unimplemented = LndUnimplemented"
| "status_code Code_Internal = LndInternal"
| "status_code Code_Unavailable = LndUnavailable"
| "status_code Code_DataLoss = LndDataLoss"
| "status_code Code_Unauthenticated = LndUnauthenticated"

text \<open>\<open>while let Some(error) = source\<close>: is one of the causes a transport error?\<close>

fun chain_has_transport :: "error_cause list \<Rightarrow> bool" where
  "chain_has_transport [] = False"
| "chain_has_transport (TransportCause # rest) = True"
| "chain_has_transport (OtherCause # rest) = chain_has_transport rest"

definition has_transport_source :: "status \<Rightarrow> bool" where
  "has_transport_source st = chain_has_transport (status_sources st)"

lemma chain_has_transport_iff: "chain_has_transport cs \<longleftrightarrow> TransportCause \<in> set cs"
  by (induction cs rule: chain_has_transport.induct) auto

definition map_status :: "ext \<Rightarrow> string \<Rightarrow> status \<Rightarrow> lnd_error" where
  "map_status x operation st =
     (if has_transport_source st
      then Transport operation ''gRPC transport failed'' (StatusSource st)
      else case status_code_of st of
          Code_Unauthenticated \<Rightarrow> Authentication operation ''credentials were rejected''
        | Code_PermissionDenied \<Rightarrow> Authentication operation ''credentials were rejected''
        | code \<Rightarrow> Status (status_code code) operation
                    (bounded (''gRPC status '' @ code_to_string x code)))"

definition unknown_mutation_outcome :: "string \<Rightarrow> string option \<Rightarrow> lnd_error" where
  "unknown_mutation_outcome operation identifier = OutcomeUnknown operation identifier"

definition mutating_status_is_ambiguous :: "status \<Rightarrow> bool" where
  "mutating_status_is_ambiguous st \<longleftrightarrow>
     has_transport_source st
     \<or> status_code_of st \<in> {Code_Cancelled, Code_Unknown, Code_DeadlineExceeded,
          Code_ResourceExhausted, Code_Internal, Code_Unavailable}"

section \<open>Requests under a deadline\<close>

text \<open>
  What awaiting a call until a deadline yields: a response, a status, or nothing before the
  deadline. A call receives the request with its metadata and the deadline it is awaited under.
\<close>

datatype 'r reply = Reply 'r | Refused status | Elapsed

record 'm request =
  rq_metadata :: "(string \<times> string) list"
  rq_message :: 'm

type_synonym ('m, 'r) call = "'m request \<Rightarrow> nat \<Rightarrow> 'r reply"

definition Request_new :: "'m \<Rightarrow> 'm request" where
  "Request_new message = \<lparr>rq_metadata = [], rq_message = message\<rparr>"

definition with_macaroon :: "client_inner \<Rightarrow> 'm \<Rightarrow> 'm request" where
  "with_macaroon client message =
     (let request = Request_new message
      in request\<lparr>rq_metadata := (''macaroon'', ci_macaroon client) # rq_metadata request\<rparr>)"

definition bounded_request_until ::
  "ext \<Rightarrow> duration \<Rightarrow> string \<Rightarrow> 'r reply \<Rightarrow> lnd_error + 'r"
where
  "bounded_request_until x configured_duration operation outcome =
     (case outcome of
        Reply response \<Rightarrow> Ok response
      | Refused st \<Rightarrow> Err (map_status x operation st)
      | Elapsed \<Rightarrow> Err (Timeout operation configured_duration))"

definition bounded_mutating_request_until ::
  "ext \<Rightarrow> string \<Rightarrow> string option \<Rightarrow> 'r reply \<Rightarrow> lnd_error + 'r"
where
  "bounded_mutating_request_until x operation identifier outcome =
     (case outcome of
        Reply response \<Rightarrow> Ok response
      | Refused st \<Rightarrow>
          (if mutating_status_is_ambiguous st
           then Err (unknown_mutation_outcome operation identifier)
           else Err (map_status x operation st))
      | Elapsed \<Rightarrow> Err (unknown_mutation_outcome operation identifier))"

definition authenticated_request_until ::
  "ext \<Rightarrow> client_inner \<Rightarrow> nat \<Rightarrow> duration \<Rightarrow> string \<Rightarrow> 'm \<Rightarrow> ('m, 'r) call \<Rightarrow> lnd_error + 'r"
where
  "authenticated_request_until x client deadline configured_duration operation message call =
     bounded_request_until x configured_duration operation
       (call (with_macaroon client message) deadline)"

definition authenticated_mutating_request_until ::
  "ext \<Rightarrow> client_inner \<Rightarrow> nat \<Rightarrow> string \<Rightarrow> string option \<Rightarrow> 'm \<Rightarrow> ('m, 'r) call
     \<Rightarrow> lnd_error + 'r"
where
  "authenticated_mutating_request_until x client deadline operation identifier message call =
     bounded_mutating_request_until x operation identifier
       (call (with_macaroon client message) deadline)"

definition authenticated_request ::
  "ext \<Rightarrow> clock \<Rightarrow> client_inner \<Rightarrow> string \<Rightarrow> 'm \<Rightarrow> ('m, 'r) call \<Rightarrow> lnd_error + 'r"
where
  "authenticated_request x clk client operation message call =
     and_then (operation_deadline clk (ci_timeout client))
       (\<lambda>deadline. authenticated_request_until x client deadline (ci_timeout client)
                     operation message call)"

definition authenticated_mutating_request ::
  "ext \<Rightarrow> clock \<Rightarrow> client_inner \<Rightarrow> string \<Rightarrow> string option \<Rightarrow> 'm \<Rightarrow> ('m, 'r) call
     \<Rightarrow> lnd_error + 'r"
where
  "authenticated_mutating_request x clk client operation identifier message call =
     and_then (operation_deadline clk (ci_timeout client))
       (\<lambda>deadline. authenticated_mutating_request_until x client deadline operation identifier
                     message call)"

section \<open>The pinned certificate\<close>

text \<open>
  Certificate decoding and signature checks are rustls'; the record names the functions the
  verifier calls. The pin itself is the code's own.
\<close>

datatype rustls_error = UnknownIssuer | OtherRustls string

record ('p, 's) rustls =
  parsed_certificate :: "string \<Rightarrow> rustls_error + 'p"
  rustls_verify_server_name :: "'p \<Rightarrow> string \<Rightarrow> rustls_error + unit"
  rustls_verify_signature :: "string \<Rightarrow> string \<Rightarrow> 's \<Rightarrow> rustls_error + unit"
  certificate_from_pem :: "string \<Rightarrow> string option"

definition BEGIN_CERTIFICATE :: string where
  "BEGIN_CERTIFICATE = ''-----BEGIN CERTIFICATE-----''"

definition END_CERTIFICATE :: string where
  "END_CERTIFICATE = ''-----END CERTIFICATE-----''"

definition invalid_certificate_pin :: io_error where
  "invalid_certificate_pin = InvalidDataIo"

definition parse_single_certificate ::
  "('p, 's) rustls \<Rightarrow> string \<Rightarrow> io_error + string"
where
  "parse_single_certificate r pem_bytes =
     (let pem = trim_ascii pem_bytes in
      case strip_prefix_of BEGIN_CERTIFICATE pem of
        None \<Rightarrow> Err invalid_certificate_pin
      | Some body \<Rightarrow>
          (case find_sub END_CERTIFICATE body of
             None \<Rightarrow> Err invalid_certificate_pin
           | Some end_offset \<Rightarrow>
               (let trailing = drop (end_offset + length END_CERTIFICATE) body in
                if trim_ascii trailing \<noteq> [] then Err invalid_certificate_pin
                else ok_or (certificate_from_pem r pem) invalid_certificate_pin)))"

definition invalid_transport_configuration :: "string \<Rightarrow> lnd_error" where
  "invalid_transport_configuration source =
     Transport ''configure transport'' ''invalid HTTPS transport configuration''
       (ConfigurationSource source)"

record pinned_server_certificate =
  pin_identity :: string

definition PinnedServerCertificate_new ::
  "('p, 's) rustls \<Rightarrow> string \<Rightarrow> lnd_error + pinned_server_certificate"
where
  "PinnedServerCertificate_new r pem =
     and_then (map_err (\<lambda>_. invalid_transport_configuration ''certificate'')
                 (parse_single_certificate r pem)) (\<lambda>identity.
     and_then (map_err (\<lambda>_. invalid_transport_configuration ''certificate'')
                 (parsed_certificate r identity)) (\<lambda>_.
       Ok \<lparr>pin_identity = identity\<rparr>))"

definition verify_identity ::
  "pinned_server_certificate \<Rightarrow> string \<Rightarrow> string list \<Rightarrow> rustls_error + unit"
where
  "verify_identity pin end_entity intermediates =
     (if intermediates = [] \<and> end_entity = pin_identity pin then Ok () else Err UnknownIssuer)"

definition verify_server_cert ::
  "('p, 's) rustls \<Rightarrow> pinned_server_certificate \<Rightarrow> string \<Rightarrow> string list \<Rightarrow> string
     \<Rightarrow> rustls_error + unit"
where
  "verify_server_cert r pin end_entity intermediates server_name =
     and_then (verify_identity pin end_entity intermediates) (\<lambda>_.
     and_then (parsed_certificate r end_entity) (\<lambda>parsed.
     and_then (rustls_verify_server_name r parsed server_name) (\<lambda>_. Ok ())))"

definition verify_tls_signature ::
  "('p, 's) rustls \<Rightarrow> pinned_server_certificate \<Rightarrow> string \<Rightarrow> string \<Rightarrow> 's \<Rightarrow> rustls_error + unit"
where
  "verify_tls_signature r pin message certificate signature =
     and_then (verify_identity pin certificate []) (\<lambda>_.
       rustls_verify_signature r message certificate signature)"

section \<open>The endpoint and the authenticated client\<close>

text \<open>
  \<open>Endpoint::from_shared\<close>, \<open>tls_config_with_verifier\<close> and the parser of
  \<open>AsciiMetadataValue\<close> belong to tonic.
\<close>

record 'e tonic =
  endpoint_from_shared :: "string \<Rightarrow> 'e option"
  tls_config_with_verifier :: "'e \<Rightarrow> string \<Rightarrow> pinned_server_certificate \<Rightarrow> 'e option"
  ascii_metadata_from_str :: "string \<Rightarrow> string option"

fun host_domain :: "url_host \<Rightarrow> string" where
  "host_domain (HostDomain domain) = domain"
| "host_domain (HostIpv4 address) = show_ipv4 address"
| "host_domain (HostIpv6 address) = show_ipv6 address"

definition tls_endpoint ::
  "('p, 's) rustls \<Rightarrow> 'e tonic \<Rightarrow> tls_config \<Rightarrow> lnd_error + 'e"
where
  "tls_endpoint r t config =
     and_then (ok_or (url_host_of (tls_endpoint_url config))
                 (invalid_transport_configuration ''validated endpoint has no host'')) (\<lambda>host.
     let domain = host_domain host in
     and_then (ok_or (endpoint_from_shared t (url_as_str (tls_endpoint_url config)))
                 (invalid_transport_configuration ''endpoint'')) (\<lambda>endpoint.
     and_then (PinnedServerCertificate_new r (tls_certificate config)) (\<lambda>verifier.
       ok_or (tls_config_with_verifier t endpoint domain verifier)
         (invalid_transport_configuration ''tls''))))"

definition DIGITS :: string where
  "DIGITS = ''0123456789abcdef''"

definition lowercase_hex :: "u8 list \<Rightarrow> string" where
  "lowercase_hex bytes =
     concat (map (\<lambda>b. [DIGITS ! unat (drop_bit 4 b), DIGITS ! unat (b AND 0x0f)]) bytes)"

record ('e, 'c) authenticated_client =
  ac_transport :: "('e, 'c) lazy_channel"
  ac_inner :: client_inner

definition ClientInner_authenticated ::
  "('p, 's) rustls \<Rightarrow> 'e tonic \<Rightarrow> lnd_config \<Rightarrow> lnd_error + ('e, 'c) authenticated_client"
where
  "ClientInner_authenticated r t config =
     and_then (tls_endpoint r t (lc_tls config)) (\<lambda>endpoint.
     and_then (ok_or (ascii_metadata_from_str t (lowercase_hex (lc_macaroon config)))
                 (invalid_transport_configuration ''macaroon'')) (\<lambda>macaroon.
       Ok \<lparr>ac_transport = LazyChannel_new endpoint,
           ac_inner = \<lparr>ci_macaroon = macaroon, ci_timeout = tls_timeout (lc_tls config)\<rparr>\<rparr>))"

section \<open>What the classification guarantees\<close>

text \<open>The errors that report a refusal by the node itself, with the code it sent.\<close>

fun is_refusal :: "grpc_code \<Rightarrow> lnd_error \<Rightarrow> bool" where
  "is_refusal code (Authentication operation detail) =
     (code = Code_Unauthenticated \<or> code = Code_PermissionDenied)"
| "is_refusal code (Status c operation detail) = (c = status_code code)"
| "is_refusal code _ = False"

lemma map_status_refusal:
  "\<not> has_transport_source st \<Longrightarrow> is_refusal (status_code_of st) (map_status x operation st)"
  by (cases "status_code_of st") (simp_all add: map_status_def)

lemma map_status_transport:
  "is_Transport (map_status x operation st) \<longleftrightarrow> has_transport_source st"
  by (cases "status_code_of st") (simp_all add: map_status_def)

lemma map_status_classes [simp]:
  "\<not> is_Timeout (map_status x operation st)" "\<not> is_OutcomeUnknown (map_status x operation st)"
  "\<not> is_InvalidRequest (map_status x operation st)"
  by (cases "status_code_of st"; simp add: map_status_def)+

lemma is_refusal_classes:
  assumes "is_refusal code e"
  shows "\<not> is_Timeout e" "\<not> is_Transport e" "\<not> is_OutcomeUnknown e" "\<not> is_InvalidRequest e"
  using assms by (cases e; simp)+

lemma bounded_mutating_Err:
  assumes "bounded_mutating_request_until x operation identifier outcome = Err e"
  shows "e = OutcomeUnknown operation identifier
    \<or> (\<exists>st. outcome = Refused st \<and> \<not> mutating_status_is_ambiguous st
          \<and> is_refusal (status_code_of st) e)"
  using assms
  by (auto simp: bounded_mutating_request_until_def unknown_mutation_outcome_def
      mutating_status_is_ambiguous_def intro!: map_status_refusal
      split: reply.splits if_splits)

lemma bounded_mutating_Ok [result_simps]:
  "bounded_mutating_request_until x operation identifier outcome = Ok r \<longleftrightarrow> outcome = Reply r"
  by (auto simp: bounded_mutating_request_until_def split: reply.splits)

lemma bounded_request_Ok [result_simps]:
  "bounded_request_until x d operation outcome = Ok r \<longleftrightarrow> outcome = Reply r"
  by (auto simp: bounded_request_until_def split: reply.splits)

text \<open>
  C4: a mutating request reports a definitive failure only when nothing was sent (the deadline is
  not representable) or when the node itself refused it with an unambiguous code; every other
  failure, timeouts and lost connections included, is an unknown outcome under the identifier
  the caller can look up.
\<close>

theorem mutating_failure_is_definitive_only_on_refusal:
  assumes "authenticated_mutating_request x clk client operation identifier message call = Err e"
  shows "e = OutcomeUnknown operation identifier
    \<or> (is_InvalidRequest e \<and> clock_now clk + as_nanos (ci_timeout client) > clock_last clk)
    \<or> (\<exists>st. call \<lparr>rq_metadata = [(''macaroon'', ci_macaroon client)], rq_message = message\<rparr>
              (clock_now clk + as_nanos (ci_timeout client)) = Refused st
          \<and> TransportCause \<notin> set (status_sources st)
          \<and> status_code_of st \<notin> {Code_Cancelled, Code_Unknown, Code_DeadlineExceeded,
                Code_ResourceExhausted, Code_Internal, Code_Unavailable}
          \<and> is_refusal (status_code_of st) e)"
proof (cases "operation_deadline clk (ci_timeout client)")
  case (Inl d)
  then have "e = d" and "clock_now clk + as_nanos (ci_timeout client) > clock_last clk"
    using assms
    by (auto simp: authenticated_mutating_request_def operation_deadline_def Let_def
        split: if_splits)
  then show ?thesis
    using operation_deadline_Err [OF Inl] by blast
next
  case (Inr deadline)
  let ?request = "\<lparr>rq_metadata = [(''macaroon'', ci_macaroon client)], rq_message = message\<rparr>"
  have "bounded_mutating_request_until x operation identifier
      (call ?request (clock_now clk + as_nanos (ci_timeout client))) = Err e"
    using assms Inr
    by (simp add: authenticated_mutating_request_def authenticated_mutating_request_until_def
        with_macaroon_def Request_new_def operation_deadline_Ok)
  from bounded_mutating_Err [OF this] show ?thesis
    by (auto simp: mutating_status_is_ambiguous_def has_transport_source_def
        chain_has_transport_iff)
qed

lemma trailing_space_of_trimmed:
  assumes "trim_ascii s = a @ b" and "a \<noteq> []" and "trim_ascii b = []"
    and "\<not> is_ascii_whitespace (last a)"
  shows "b = []"
proof (rule ccontr)
  assume "b \<noteq> []"
  then have "is_ascii_whitespace (last (trim_ascii s))"
    using assms(1,3) by (simp add: trim_ascii_Nil list_all_iff)
  moreover have "\<not> is_ascii_whitespace (last (trim_ascii s))"
    unfolding trim_ascii_def
    by (rule trim_ascii_end_no_trailing) (use assms(1,2) in \<open>auto simp: trim_ascii_def\<close>)
  ultimately show False by simp
qed

lemma parse_single_certificate_Ok:
  assumes "parse_single_certificate r pem = Ok c"
  obtains body where "trim_ascii pem = BEGIN_CERTIFICATE @ body @ END_CERTIFICATE"
    and "\<forall>j < length body. \<not> prefix END_CERTIFICATE (drop j (body @ END_CERTIFICATE))"
    and "certificate_from_pem r (trim_ascii pem) = Some c"
proof -
  obtain b i where b: "trim_ascii pem = BEGIN_CERTIFICATE @ b"
    and i: "find_sub END_CERTIFICATE b = Some i"
    and rest: "trim_ascii (drop (i + length END_CERTIFICATE) b) = []"
    and c: "certificate_from_pem r (trim_ascii pem) = Some c"
    using assms
    by (auto simp: parse_single_certificate_def Let_def result_simps strip_prefix_of_eq_Some
        split: option.splits if_splits)
  let ?body = "take i b" and ?tail = "drop (i + length END_CERTIFICATE) b"
  have split: "b = ?body @ END_CERTIFICATE @ ?tail"
    by (rule find_sub_split [OF i])
  have "trim_ascii pem = (BEGIN_CERTIFICATE @ ?body @ END_CERTIFICATE) @ ?tail"
    unfolding b append_assoc using split by (rule arg_cong)
  then have "?tail = []"
    by (rule trailing_space_of_trimmed)
      (use rest in \<open>simp_all add: END_CERTIFICATE_def is_ascii_whitespace_def\<close>)
  then have b': "b = ?body @ END_CERTIFICATE"
    using split by simp
  moreover have "length ?body = i"
    using find_sub_Some [OF i] by simp
  ultimately show thesis
    using that [of ?body] b c find_sub_Some [OF i] by simp
qed

text \<open>
  C11: a server is accepted only when it presents exactly the certificate the caller supplied,
  alone; and that certificate was the only one of its PEM text, apart from surrounding space.
\<close>

theorem accepted_server_is_the_pinned_one:
  assumes "PinnedServerCertificate_new r pem = Ok pin"
    and "verify_server_cert r pin end_entity intermediates server_name = Ok ()"
  shows "intermediates = [] \<and> certificate_from_pem r (trim_ascii pem) = Some end_entity
    \<and> (\<exists>body. trim_ascii pem = BEGIN_CERTIFICATE @ body @ END_CERTIFICATE
         \<and> (\<forall>j < length body. \<not> prefix END_CERTIFICATE (drop j (body @ END_CERTIFICATE))))"
proof -
  obtain identity where identity: "parse_single_certificate r pem = Ok identity"
    and pin: "pin = \<lparr>pin_identity = identity\<rparr>"
    using assms(1) by (auto simp: PinnedServerCertificate_new_def result_simps)
  have "end_entity = identity \<and> intermediates = []"
    using assms(2) pin
    by (auto simp: verify_server_cert_def verify_identity_def result_simps split: if_splits)
  then show ?thesis
    using parse_single_certificate_Ok [OF identity] by metis
qed

section \<open>A concrete run\<close>

definition example_status :: "grpc_code \<Rightarrow> status" where
  "example_status code = \<lparr>status_code_of = code, status_sources = []\<rparr>"

definition example_clock :: clock where
  "example_clock = \<lparr>clock_now = 100, clock_last = 10 ^ 18\<rparr>"

definition example_client :: client_inner where
  "example_client = \<lparr>ci_macaroon = ''abcd0123'', ci_timeout = from_secs 5\<rparr>"

lemma example_deadline:
  "operation_deadline example_clock (ci_timeout example_client) = Ok 5000000100"
  by (simp add: operation_deadline_Ok example_clock_def example_client_def as_nanos_def
      from_secs_def)

lemma mutating_failure_witness:
  "\<forall>x. authenticated_mutating_request x example_clock example_client ''connect peer'' (Some ''02aa'')
     () (\<lambda>_ _. Refused (example_status Code_Unavailable) :: unit reply)
   = Err (OutcomeUnknown ''connect peer'' (Some ''02aa''))"
proof
  fix x
  let ?call = "\<lambda>_ _. Refused (example_status Code_Unavailable) :: unit reply"
  let ?run = "authenticated_mutating_request x example_clock example_client ''connect peer''
    (Some ''02aa'') () ?call"
  have "\<exists>e. ?run = Err e"
    by (simp add: authenticated_mutating_request_def example_deadline
        authenticated_mutating_request_until_def bounded_mutating_request_until_def
        mutating_status_is_ambiguous_def example_status_def)
  then obtain e where e: "?run = Err e" ..
  from mutating_failure_is_definitive_only_on_refusal [OF e]
  show "?run = Err (OutcomeUnknown ''connect peer'' (Some ''02aa''))"
    using e by (auto simp: example_status_def example_clock_def example_client_def as_nanos_def
        from_secs_def)
qed

definition example_rustls :: "(string, unit) rustls" where
  "example_rustls = \<lparr>parsed_certificate = \<lambda>c. Ok c,
     rustls_verify_server_name = \<lambda>p n. if n = ''localhost'' then Ok () else Err (OtherRustls n),
     rustls_verify_signature = \<lambda>m c s. Ok (), certificate_from_pem = \<lambda>pem. Some ''DER''\<rparr>"

lemma accepted_server_witness:
  "certificate_from_pem example_rustls
     (trim_ascii (BEGIN_CERTIFICATE @ ''AAAA'' @ END_CERTIFICATE)) = Some ''DER''"
proof -
  let ?pem = "BEGIN_CERTIFICATE @ ''AAAA'' @ END_CERTIFICATE"
  have "PinnedServerCertificate_new example_rustls ?pem = Ok \<lparr>pin_identity = ''DER''\<rparr>"
    by code_simp
  moreover have "verify_server_cert example_rustls \<lparr>pin_identity = ''DER''\<rparr> ''DER'' []
      ''localhost'' = Ok ()"
    by (simp add: verify_server_cert_def verify_identity_def example_rustls_def)
  ultimately show ?thesis
    using accepted_server_is_the_pinned_one by blast
qed

end
