(* ===== verification/Lnd_Convert.thy ===== *)
theory Lnd_Convert
  imports Lnd_Endpoint Lnd_Transport
begin

text \<open>
  \<open>convert.rs\<close>: every message the node sends is checked before it becomes a value of the
  public model. The messages are records of the fields the converters read; signed fields are
  \<open>i64\<close> bit patterns. The lemmas show which values get through, and that they meet the
  invariants of the public constructors.
\<close>

section \<open>Messages\<close>

record pb_chain =
  pb_chain :: string
  pb_network :: string

record pb_get_info =
  pb_identity_pubkey :: string
  pb_alias :: string
  pb_version :: string
  pb_block_height :: u32
  pb_chains :: "pb_chain list"
  pb_synced_to_chain :: bool
  pb_synced_to_graph :: bool

record pb_wallet_balance =
  pb_total_balance :: i64
  pb_confirmed_balance :: i64
  pb_unconfirmed_balance :: i64

record pb_peer =
  pb_pub_key :: string
  pb_address :: string

record pb_channel =
  pb_remote_pubkey :: string
  pb_channel_point :: string
  pb_active :: bool
  pb_capacity :: i64
  pb_local_balance :: i64
  pb_remote_balance :: i64

datatype funding_txid = FundingTxidBytes "u8 list" | FundingTxidStr string

record pb_channel_point_msg =
  pb_funding_txid :: "funding_txid option"
  pb_output_index :: u32

record pb_add_invoice =
  pb_add_r_hash :: "u8 list"
  pb_add_payment_request :: string

record pb_invoice =
  pb_r_hash :: "u8 list"
  pb_value_msat :: i64
  pb_creation_date :: i64
  pb_expiry :: i64
  pb_payment_request :: string
  pb_state :: i32

record pb_payment =
  pb_payment_hash :: string
  pb_payment_value_msat :: i64
  pb_fee_msat :: i64
  pb_status :: i32
  pb_payment_preimage :: string
  pb_failure_reason :: i32
  pb_payment_other_fields :: "u8 list"

section \<open>Fields\<close>

definition invalid_response_with_identifier ::
  "string \<Rightarrow> string \<Rightarrow> string option \<Rightarrow> lnd_error"
where
  "invalid_response_with_identifier operation detail identifier =
     InvalidResponse operation detail identifier"

definition invalid_response :: "string \<Rightarrow> string \<Rightarrow> lnd_error" where
  "invalid_response operation detail = invalid_response_with_identifier operation detail None"

definition invalid_get_info :: "string \<Rightarrow> lnd_error" where
  "invalid_get_info detail = invalid_response ''get info'' detail"

definition response_hash :: "ext \<Rightarrow> string \<Rightarrow> u8 list \<Rightarrow> lnd_error + hash256" where
  "response_hash x operation bytes =
     ok_or (sha256_from_slice x bytes) (invalid_response operation ''payment hash is malformed'')"

definition response_millisats :: "string \<Rightarrow> i64 \<Rightarrow> string option \<Rightarrow> lnd_error + millisats" where
  "response_millisats operation amount identifier =
     map_ok Millisats
       (ok_or (u64_of_i64 amount)
         (invalid_response_with_identifier operation ''amount is negative'' identifier))"

definition response_time :: "ext \<Rightarrow> string \<Rightarrow> i64 \<Rightarrow> string \<Rightarrow> hash256 \<Rightarrow> lnd_error + u64" where
  "response_time x operation seconds negative_detail payment_hash =
     ok_or (u64_of_i64 seconds)
       (invalid_response_with_identifier operation negative_detail
          (Some (sha256_to_string x payment_hash)))"

definition response_amount :: "string \<Rightarrow> i64 \<Rightarrow> lnd_error + sats" where
  "response_amount operation amount =
     map_ok Sats
       (ok_or (u64_of_i64 amount) (invalid_response operation ''amount is negative''))"

definition hex_nibble :: "char \<Rightarrow> u8 option" where
  "hex_nibble c =
     (let b = (of_char c :: nat) in
      if 48 \<le> b \<and> b \<le> 57 then Some (byte c - 48)
      else if 97 \<le> b \<and> b \<le> 102 then Some (byte c - 97 + 10)
      else if 65 \<le> b \<and> b \<le> 70 then Some (byte c - 65 + 10)
      else None)"

definition parse_preimage :: "string \<Rightarrow> unit + u8 list" where
  "parse_preimage s =
     (if length s \<noteq> 64 \<or> \<not> list_all is_ascii s then Err ()
      else try_map (\<lambda>index. let offset = index * 2 in
             and_then (ok_or (hex_nibble (s ! offset)) ()) (\<lambda>high.
             and_then (ok_or (hex_nibble (s ! (offset + 1))) ()) (\<lambda>low.
               Ok (push_bit 4 high OR low)))) [0..<32])"

definition convert_invoice_state :: "i32 \<Rightarrow> invoice_state" where
  "convert_invoice_state v =
     (if v = 0 then InvoiceOpen else if v = 1 then InvoiceSettled
      else if v = 2 then InvoiceCanceled else if v = 3 then InvoiceAccepted
      else InvoiceUnknown v)"

definition convert_payment_state :: "i32 \<Rightarrow> payment_state" where
  "convert_payment_state v =
     (if v = 1 \<or> v = 4 then PaymentInFlight else if v = 2 then PaymentSucceeded
      else if v = 3 then PaymentStateFailed else PaymentUnknown v)"

section \<open>Converters\<close>

definition convert_node_info :: "ext \<Rightarrow> pb_get_info \<Rightarrow> lnd_error + node_info" where
  "convert_node_info x response =
     and_then (ok_or (public_key_from_str x (pb_identity_pubkey response))
                 (invalid_get_info ''identity public key is malformed'')) (\<lambda>public_key.
     case pb_chains response of
       [chain] \<Rightarrow>
         (if pb_chain chain \<noteq> ''bitcoin'' \<or> pb_network chain = []
          then Err (invalid_response ''get info'' ''active chain must name a bitcoin network'')
          else Ok \<lparr>ni_public_key = public_key, ni_alias = pb_alias response,
                   ni_version = pb_version response,
                   ni_block_height = pb_block_height response, ni_network = pb_network chain,
                   ni_synced_to_chain = pb_synced_to_chain response,
                   ni_synced_to_graph = pb_synced_to_graph response\<rparr>)
     | _ \<Rightarrow> Err (invalid_response ''get info'' ''exactly one active chain is required''))"

definition convert_wallet_balance :: "pb_wallet_balance \<Rightarrow> lnd_error + wallet_balance" where
  "convert_wallet_balance response =
     and_then (response_amount ''wallet balance'' (pb_total_balance response)) (\<lambda>whole.
     and_then (response_amount ''wallet balance'' (pb_confirmed_balance response)) (\<lambda>confirmed.
     and_then (response_amount ''wallet balance'' (pb_unconfirmed_balance response)) (\<lambda>unconfirmed.
     and_then (ok_or (checked_add_u64 (sats_as_u64 confirmed) (sats_as_u64 unconfirmed))
                 (invalid_response ''wallet balance'' ''wallet amount sum overflows'')) (\<lambda>parts.
       if parts \<noteq> sats_as_u64 whole
       then Err (invalid_response ''wallet balance''
                   ''total does not equal confirmed plus unconfirmed balance'')
       else Ok \<lparr>wb_total = whole, wb_confirmed = confirmed, wb_unconfirmed = unconfirmed\<rparr>))))"

definition convert_peer :: "ext \<Rightarrow> pb_peer \<Rightarrow> lnd_error + peer" where
  "convert_peer x response =
     and_then (ok_or (public_key_from_str x (pb_pub_key response))
                 (invalid_response ''list peers'' ''peer public key is malformed'')) (\<lambda>public_key.
     and_then (map_err (\<lambda>_. invalid_response ''list peers'' ''peer address is malformed'')
                 (parse_peer_endpoint (pb_address response))) (\<lambda>address.
       Ok \<lparr>peer_public_key = public_key, peer_endpoint = address, peer_connected = True\<rparr>))"

definition convert_channel :: "ext \<Rightarrow> pb_channel \<Rightarrow> lnd_error + channel" where
  "convert_channel x response =
     and_then (ok_or (public_key_from_str x (pb_remote_pubkey response))
         (invalid_response ''list channels'' ''remote public key is malformed'')) (\<lambda>remote_key.
     and_then (ok_or (out_point_from_str x (pb_channel_point response))
         (invalid_response ''list channels'' ''channel point is malformed'')) (\<lambda>channel_point.
     and_then (response_amount ''list channels'' (pb_capacity response)) (\<lambda>capacity.
     and_then (response_amount ''list channels'' (pb_local_balance response)) (\<lambda>local_sats.
     and_then (response_amount ''list channels'' (pb_remote_balance response)) (\<lambda>remote_sats.
     and_then (ok_or (checked_add_u64 (sats_as_u64 local_sats) (sats_as_u64 remote_sats))
         (invalid_response ''list channels'' ''channel balance sum overflows'')) (\<lambda>accounted.
       if accounted > sats_as_u64 capacity
       then Err (invalid_response ''list channels'' ''channel balances exceed capacity'')
       else
     and_then (map_err (\<lambda>_. invalid_response ''list channels''
                              ''local balance overflows millisatoshis'')
         (millisats_try_from local_sats)) (\<lambda>local_balance.
     and_then (map_err (\<lambda>_. invalid_response ''list channels''
                              ''remote balance overflows millisatoshis'')
         (millisats_try_from remote_sats)) (\<lambda>remote_balance.
       Ok \<lparr>ch_channel_point = channel_point, ch_remote_public_key = remote_key,
           ch_active = pb_active response, ch_capacity = capacity,
           ch_local_balance = local_balance, ch_remote_balance = remote_balance\<rparr>))))))))"

definition convert_channel_point :: "ext \<Rightarrow> pb_channel_point_msg \<Rightarrow> lnd_error + out_point" where
  "convert_channel_point x response =
     and_then
       (case pb_funding_txid response of
          Some (FundingTxidBytes bytes) \<Rightarrow>
            ok_or (txid_from_slice x bytes)
              (invalid_response ''open channel'' ''funding transaction id is malformed'')
        | Some (FundingTxidStr txt) \<Rightarrow>
            ok_or (txid_from_str x txt)
              (invalid_response ''open channel'' ''funding transaction id is malformed'')
        | None \<Rightarrow> Err (invalid_response ''open channel'' ''funding transaction id is missing''))
       (\<lambda>txid. Ok \<lparr>op_txid = txid, op_vout = pb_output_index response\<rparr>)"

text \<open>\<open>invoice_record\<close>: the node's hash and amount must be those the BOLT11 text encodes.\<close>

definition checked_invoice_record ::
  "ext \<Rightarrow> string \<Rightarrow> string \<Rightarrow> hash256 \<Rightarrow> millisats option \<Rightarrow> invoice_state
     \<Rightarrow> lnd_error + invoice_record"
where
  "checked_invoice_record x operation payment_request payment_hash reported_amount state =
     (let identifier = Some (sha256_to_string x payment_hash) in
      and_then (ok_or (bolt11_from_str x payment_request)
        (invalid_response_with_identifier operation ''BOLT11 invoice is malformed'' identifier))
      (\<lambda>invoice.
        if b11_payment_hash invoice \<noteq> payment_hash
        then Err (invalid_response_with_identifier operation
                    ''BOLT11 payment hash does not match the response hash'' identifier)
        else and_then (ok_or (b11_amount_milli_satoshis invoice)
          (invalid_response_with_identifier operation ''BOLT11 invoice has no amount'' identifier))
        (\<lambda>encoded_amount.
          let amount = (case reported_amount of Some a \<Rightarrow> a | None \<Rightarrow> Millisats encoded_amount) in
          if msat_as_u64 amount \<noteq> encoded_amount
          then Err (invalid_response_with_identifier operation
                      ''BOLT11 amount does not match the response amount'' identifier)
          else Ok \<lparr>inv_invoice = invoice, inv_payment_hash = payment_hash,
                   inv_amount = amount, inv_state = state\<rparr>)))"

definition created_invoice :: "ext \<Rightarrow> pb_add_invoice \<Rightarrow> lnd_error + invoice_record" where
  "created_invoice x response =
     and_then (response_hash x ''create invoice'' (pb_add_r_hash response)) (\<lambda>payment_hash.
       checked_invoice_record x ''create invoice'' (pb_add_payment_request response) payment_hash
         None InvoiceOpen)"

definition convert_invoice :: "ext \<Rightarrow> pb_invoice \<Rightarrow> lnd_error + invoice_record" where
  "convert_invoice x response =
     and_then (response_hash x ''lookup invoice'' (pb_r_hash response)) (\<lambda>payment_hash.
     let identifier = Some (sha256_to_string x payment_hash) in
     and_then (response_millisats ''lookup invoice'' (pb_value_msat response) identifier)
       (\<lambda>amount.
     and_then (response_time x ''lookup invoice'' (pb_creation_date response)
                 ''invoice creation date is negative'' payment_hash) (\<lambda>creation_date.
     and_then (response_time x ''lookup invoice'' (pb_expiry response)
                 ''invoice expiry is negative'' payment_hash) (\<lambda>expiry.
     and_then (checked_invoice_record x ''lookup invoice'' (pb_payment_request response)
                 payment_hash (Some amount) (convert_invoice_state (pb_state response)))
       (\<lambda>record.
         if as_secs (b11_duration_since_epoch (inv_invoice record)) \<noteq> creation_date
         then Err (invalid_response_with_identifier ''lookup invoice''
                     ''invoice creation date does not match the BOLT11 timestamp'' identifier)
         else if as_secs (b11_expiry_time (inv_invoice record)) \<noteq> expiry
         then Err (invalid_response_with_identifier ''lookup invoice''
                     ''invoice expiry does not match the BOLT11 expiry'' identifier)
         else Ok record)))))"

definition convert_payment :: "ext \<Rightarrow> pb_payment \<Rightarrow> lnd_error + payment_record" where
  "convert_payment x response =
     and_then (ok_or (sha256_from_str x (pb_payment_hash response))
                 (invalid_response ''payment'' ''payment hash is malformed'')) (\<lambda>payment_hash.
     let identifier = Some (sha256_to_string x payment_hash) in
     and_then (response_millisats ''payment'' (pb_payment_value_msat response) identifier) (\<lambda>amount.
     and_then (response_millisats ''payment'' (pb_fee_msat response) identifier) (\<lambda>fee.
     let state = convert_payment_state (pb_status response) in
     and_then
       (if pb_payment_preimage response = [] then Ok None
        else map_ok Some
          (map_err (\<lambda>_. invalid_response_with_identifier ''payment''
                          ''payment preimage is malformed'' identifier)
            (parse_preimage (pb_payment_preimage response)))) (\<lambda>preimage.
     and_then
       (if state = PaymentSucceeded
        then and_then (ok_or preimage
               (invalid_response_with_identifier ''payment''
                  ''succeeded payment has no preimage'' identifier)) (\<lambda>proof.
          if sha256_hash x proof \<noteq> payment_hash
          then Err (invalid_response_with_identifier ''payment''
                      ''payment preimage does not prove the payment hash'' identifier)
          else Ok ())
        else Ok ()) (\<lambda>_.
       Ok \<lparr>pr_payment_hash = payment_hash, pr_preimage = preimage, pr_value = amount,
           pr_fee = fee, pr_state = state\<rparr>)))))"

section \<open>Which messages are accepted\<close>

lemma response_amount_Ok [result_simps]:
  "response_amount operation v = Ok a \<longleftrightarrow> a = Sats v \<and> unat v < 2 ^ 63"
  by (auto simp: response_amount_def result_simps int_simps)

lemma response_millisats_Ok [result_simps]:
  "response_millisats operation v i = Ok a \<longleftrightarrow> a = Millisats v \<and> unat v < 2 ^ 63"
  by (auto simp: response_millisats_def result_simps int_simps)

lemma response_time_Ok [result_simps]:
  "response_time x operation v d h = Ok a \<longleftrightarrow> a = v \<and> unat v < 2 ^ 63"
  by (auto simp: response_time_def result_simps int_simps)

lemma response_hash_Ok [result_simps]:
  "response_hash x operation v = Ok h \<longleftrightarrow> sha256_from_slice x v = Some h"
  by (simp add: response_hash_def result_simps)

lemma checked_invoice_record_Ok:
  assumes "checked_invoice_record x operation request h reported st = Ok r"
  shows "invoice_record_ok r \<and> inv_payment_hash r = h \<and> inv_state r = st
    \<and> bolt11_from_str x request = Some (inv_invoice r)
    \<and> (\<forall>a. reported = Some a \<longrightarrow> inv_amount r = a)"
proof -
  obtain invoice encoded where invoice: "bolt11_from_str x request = Some invoice"
    and hash: "b11_payment_hash invoice = h"
    and encoded: "b11_amount_milli_satoshis invoice = Some encoded"
    and r: "(let amount = (case reported of Some a \<Rightarrow> a | None \<Rightarrow> Millisats encoded) in
          if msat_as_u64 amount \<noteq> encoded
          then Err (invalid_response_with_identifier operation
                      ''BOLT11 amount does not match the response amount''
                      (Some (sha256_to_string x h)))
          else Ok \<lparr>inv_invoice = invoice, inv_payment_hash = h, inv_amount = amount,
                   inv_state = st\<rparr>) = Ok r"
    using assms unfolding checked_invoice_record_def Let_def
    by (auto simp only: and_then_eq_Ok ok_or_eq_Ok if_Err_eq_Ok not_not)
  then show ?thesis
    by (auto simp: invoice_record_ok_def Let_def split: option.splits if_splits)
qed

lemma convert_wallet_balance_Ok:
  "convert_wallet_balance m = Ok b \<longleftrightarrow>
     b = \<lparr>wb_total = Sats (pb_total_balance m), wb_confirmed = Sats (pb_confirmed_balance m),
          wb_unconfirmed = Sats (pb_unconfirmed_balance m)\<rparr>
     \<and> 0 \<le> sint (pb_total_balance m) \<and> 0 \<le> sint (pb_confirmed_balance m)
     \<and> 0 \<le> sint (pb_unconfirmed_balance m) \<and> wallet_balance_ok b"
  by (auto simp: convert_wallet_balance_def result_simps int_simps wallet_balance_ok_def)

lemma convert_channel_Ok:
  assumes "convert_channel x m = Ok c"
  shows "channel_ok c \<and> ch_capacity c = Sats (pb_capacity m) \<and> 0 \<le> sint (pb_capacity m)
    \<and> 0 \<le> sint (pb_local_balance m) \<and> 0 \<le> sint (pb_remote_balance m)
    \<and> unat (msat_as_u64 (ch_local_balance c)) = unat (pb_local_balance m) * 1000
    \<and> unat (msat_as_u64 (ch_remote_balance c)) = unat (pb_remote_balance m) * 1000
    \<and> out_point_from_str x (pb_channel_point m) = Some (ch_channel_point c)
    \<and> public_key_from_str x (pb_remote_pubkey m) = Some (ch_remote_public_key c)
    \<and> ch_active c = pb_active m"
  using assms
  by (auto simp: convert_channel_def result_simps int_simps channel_ok_def
      millisats_try_from_eq_Ok word_less_nat_alt)

lemma convert_payment_Ok:
  assumes "convert_payment x m = Ok r"
  shows "sha256_from_str x (pb_payment_hash m) = Some (pr_payment_hash r)
    \<and> pr_value r = Millisats (pb_payment_value_msat m) \<and> pr_fee r = Millisats (pb_fee_msat m)
    \<and> pr_state r = convert_payment_state (pb_status m)
    \<and> (pr_state r = PaymentSucceeded \<longrightarrow> payment_proven x r)"
  using assms
  by (auto simp: convert_payment_def Let_def result_simps payment_proven_def split: if_splits)

lemma convert_invoice_Ok:
  assumes "convert_invoice x m = Ok r"
  shows "invoice_record_ok r \<and> sha256_from_slice x (pb_r_hash m) = Some (inv_payment_hash r)
    \<and> inv_amount r = Millisats (pb_value_msat m)
    \<and> as_secs (b11_duration_since_epoch (inv_invoice r)) = pb_creation_date m
    \<and> as_secs (b11_expiry_time (inv_invoice r)) = pb_expiry m
    \<and> inv_state r = convert_invoice_state (pb_state m)"
  using assms
  by (auto simp: convert_invoice_def Let_def result_simps dest!: checked_invoice_record_Ok)

lemma created_invoice_Ok:
  assumes "created_invoice x m = Ok r"
  shows "invoice_record_ok r \<and> sha256_from_slice x (pb_add_r_hash m) = Some (inv_payment_hash r)
    \<and> bolt11_from_str x (pb_add_payment_request m) = Some (inv_invoice r)
    \<and> inv_state r = InvoiceOpen"
  using assms
  by (auto simp: created_invoice_def result_simps dest!: checked_invoice_record_Ok)

section \<open>Hexadecimal text\<close>

lemma below_16:
  assumes "list_all P [0, 1, 2, 3, 4, 5, 6, 7, 8, 9, 10, 11, 12, 13, 14, 15 :: nat]" and "n < 16"
  shows "P n"
proof -
  have "[0..<16] = [0, 1, 2, 3, 4, 5, 6, 7, 8, 9, 10, 11, 12, 13, 14, 15 :: nat]"
    by (simp add: upt_rec)
  then have "list_all P [0..<16]"
    using assms(1) by (simp only:)
  moreover have "n \<in> set [0..<16]"
    using assms(2) by simp
  ultimately show ?thesis
    unfolding list_all_iff by (rule bspec)
qed

lemma hex_nibble_DIGITS: "n < 16 \<Longrightarrow> hex_nibble (DIGITS ! n) = Some (of_nat n)"
  by (rule below_16 [of "\<lambda>n. hex_nibble (DIGITS ! n) = Some (of_nat n)"])
    (simp_all add: DIGITS_def hex_nibble_def byte_def)

lemma DIGITS_ascii: "n < 16 \<Longrightarrow> is_ascii (DIGITS ! n)"
  by (rule below_16 [of "\<lambda>n. is_ascii (DIGITS ! n)"]) (simp_all add: DIGITS_def is_ascii_def)

lemma nibble_bounds: "unat (drop_bit 4 (b :: u8)) < 16" "unat (b AND 0x0f) < 16"
proof -
  have "unat b < 256"
    using unsigned_less [of b, where 'a = nat] by simp
  then show "unat (drop_bit 4 b) < 16"
    by (simp add: drop_bit_eq_div unat_div less_mult_imp_div_less)
  have "b AND 0x0f \<le> 0x0f"
    by (rule word_and_le1)
  then show "unat (b AND 0x0f) < 16"
    by (simp add: word_le_nat_alt)
qed

lemma nibbles_join: "push_bit 4 (drop_bit 4 b) OR (b AND 0x0f) = (b :: u8)"
proof -
  have "b AND 0x0f = take_bit 4 b"
    by (simp add: take_bit_eq_mask mask_eq_exp_minus_1)
  moreover have "push_bit 4 (drop_bit 4 b) OR take_bit 4 b = b"
    by (rule bit_eqI) (auto simp: bit_simps)
  ultimately show ?thesis by simp
qed

lemma lowercase_hex_Nil [simp]: "lowercase_hex [] = []"
  by (simp add: lowercase_hex_def)

lemma lowercase_hex_Cons [simp]:
  "lowercase_hex (b # bs) =
     DIGITS ! unat (drop_bit 4 b) # DIGITS ! unat (b AND 0x0f) # lowercase_hex bs"
  by (simp add: lowercase_hex_def)

lemma lowercase_hex_length: "length (lowercase_hex bs) = 2 * length bs"
  by (induction bs) auto

lemma lowercase_hex_ascii: "list_all is_ascii (lowercase_hex bs)"
  by (induction bs) (auto simp: DIGITS_ascii nibble_bounds)

lemma lowercase_hex_nth:
  assumes "i < length bs"
  shows "lowercase_hex bs ! (i * 2) = DIGITS ! unat (drop_bit 4 (bs ! i))"
    and "lowercase_hex bs ! Suc (i * 2) = DIGITS ! unat (bs ! i AND 0x0f)"
  using assms by (induction bs arbitrary: i) (auto simp: nth_Cons' less_Suc_eq_0_disj)

lemma parse_preimage_lowercase_hex:
  assumes "length proof_bytes = 32"
  shows "parse_preimage (lowercase_hex proof_bytes) = Ok proof_bytes"
proof -
  let ?hex = "lowercase_hex proof_bytes"
  have "list_all2 (\<lambda>i b. and_then (ok_or (hex_nibble (?hex ! (i * 2))) ()) (\<lambda>high.
      and_then (ok_or (hex_nibble (?hex ! (i * 2 + 1))) ()) (\<lambda>low.
        Ok (push_bit 4 high OR low))) = Ok b) [0..<32] proof_bytes"
    unfolding list_all2_conv_all_nth
    using assms
    by (auto simp: lowercase_hex_nth hex_nibble_DIGITS nibble_bounds nibbles_join)
  then show ?thesis
    using assms
    by (simp add: parse_preimage_def Let_def try_map_eq_Ok lowercase_hex_length
        lowercase_hex_ascii)
qed

text \<open>
  C13: a 32-byte preimage survives being printed in lowercase hexadecimal and parsed again.
\<close>

theorem preimage_hex_round_trip:
  assumes "length proof_bytes = 32"
  shows "parse_preimage (lowercase_hex proof_bytes) = Ok proof_bytes"
  using assms by (rule parse_preimage_lowercase_hex)

text \<open>
  Every channel the node lists that is accepted has balances that fit in its capacity, so the
  public constructor accepts it unchanged; the amounts are exactly the satoshi amounts of the
  message.
\<close>

theorem listed_channel_meets_constructor:
  assumes "convert_channel x m = Ok c"
  shows "Channel_try_new (ch_channel_point c) (ch_remote_public_key c) (ch_active c)
      (ch_capacity c) (ch_local_balance c) (ch_remote_balance c) = Ok c
    \<and> int (unat (msat_as_u64 (ch_local_balance c))) = sint (pb_local_balance m) * 1000
    \<and> int (unat (msat_as_u64 (ch_remote_balance c))) = sint (pb_remote_balance m) * 1000
    \<and> int (unat (sats_as_u64 (ch_capacity c))) = sint (pb_capacity m)"
  using convert_channel_Ok [OF assms]
  by (simp add: Channel_try_new_ok sint_nonneg_eq)

text \<open>
  A wallet balance is accepted exactly when its three amounts are not negative and the total
  is the sum of the other two, computed without wrap-around.
\<close>

theorem wallet_balance_accepted_iff:
  "is_ok (convert_wallet_balance m) \<longleftrightarrow>
     0 \<le> sint (pb_confirmed_balance m) \<and> 0 \<le> sint (pb_unconfirmed_balance m)
     \<and> sint (pb_total_balance m) = sint (pb_confirmed_balance m) + sint (pb_unconfirmed_balance m)"
  (is "?ok \<longleftrightarrow> ?sum")
proof
  assume ?ok
  then show ?sum
    by (auto simp: is_ok_iff convert_wallet_balance_Ok wallet_balance_ok_def sint_nonneg_eq)
next
  assume sum: ?sum
  then have nonneg: "0 \<le> sint (pb_total_balance m)" by simp
  have "int (unat (pb_total_balance m))
      = int (unat (pb_confirmed_balance m)) + int (unat (pb_unconfirmed_balance m))"
    using sum nonneg by (metis sint_nonneg_eq)
  then have "unat (pb_total_balance m)
      = unat (pb_confirmed_balance m) + unat (pb_unconfirmed_balance m)"
    unfolding of_nat_add [symmetric] of_nat_eq_iff .
  then show ?ok
    using sum nonneg
    by (simp add: is_ok_iff convert_wallet_balance_Ok wallet_balance_ok_def)
qed

text \<open>
  C12: an invoice found by lookup carries the hash of the response, its amount is the one its BOLT11
  text encodes, and the timestamps of the response are those of the text.
\<close>

theorem looked_up_invoice_is_consistent:
  assumes "convert_invoice x m = Ok r"
  shows "invoice_record_ok r
    \<and> sha256_from_slice x (pb_r_hash m) = Some (b11_payment_hash (inv_invoice r))
    \<and> b11_amount_milli_satoshis (inv_invoice r) = Some (pb_value_msat m)
    \<and> as_secs (b11_duration_since_epoch (inv_invoice r)) = pb_creation_date m
    \<and> as_secs (b11_expiry_time (inv_invoice r)) = pb_expiry m"
  using convert_invoice_Ok [OF assms] by (auto simp: invoice_record_ok_def)

section \<open>Concrete third-party functions\<close>

definition example_bolt11 :: "hash256 \<Rightarrow> bolt11_invoice" where
  "example_bolt11 h = \<lparr>b11_payment_hash = h, b11_amount_milli_satoshis = Some 2500,
     b11_duration_since_epoch = from_secs 1700000000, b11_expiry_time = from_secs 3600,
     b11_to_string = ''lnbcrt25n1''\<rparr>"

definition example_hash :: hash256 where
  "example_hash = replicate 32 8"

definition example_preimage :: "u8 list" where
  "example_preimage = replicate 32 7"

definition example_ext :: ext where
  "example_ext = \<lparr>sha256_hash = map (\<lambda>b. b + 1),
     sha256_from_slice = \<lambda>b. if length b = 32 then Some b else None,
     sha256_from_str = \<lambda>s. (case parse_preimage s of Ok b \<Rightarrow> Some b | Err _ \<Rightarrow> None),
     sha256_to_string = lowercase_hex,
     public_key_from_str = \<lambda>s. if s = [] then None else Some (map byte s),
     public_key_to_string = lowercase_hex, public_key_serialize = id,
     out_point_from_str = \<lambda>s. Some \<lparr>op_txid = map byte s, op_vout = 0\<rparr>,
     out_point_to_string = \<lambda>p. lowercase_hex (op_txid p),
     txid_from_slice = \<lambda>b. if length b = 32 then Some b else None,
     txid_from_str = \<lambda>s. if length s = 64 then Some (map byte s) else None,
     bolt11_from_str = \<lambda>s. if s = ''lnbcrt25n1'' then Some (example_bolt11 example_hash) else None,
     code_to_string = \<lambda>c. ''code''\<rparr>"

lemma example_hash_length [simp]: "length example_hash = 32"
  by (simp add: example_hash_def)

lemma example_preimage_length [simp]: "length example_preimage = 32"
  by (simp add: example_preimage_def)

lemma example_hash_proof: "sha256_hash example_ext example_preimage = example_hash"
  by (simp add: example_ext_def example_preimage_def example_hash_def)

lemma preimage_hex_round_trip_witness:
  "parse_preimage (lowercase_hex example_preimage) = Ok example_preimage"
  by (rule preimage_hex_round_trip) simp

definition example_pb_channel :: pb_channel where
  "example_pb_channel = \<lparr>pb_remote_pubkey = ''02aa'', pb_channel_point = ''cc:0'',
     pb_active = True, pb_capacity = 1000, pb_local_balance = 600, pb_remote_balance = 390\<rparr>"

lemma example_channel_converted:
  "is_ok (convert_channel example_ext example_pb_channel)"
  by (simp add: convert_channel_def example_pb_channel_def example_ext_def response_amount_def
      u64_of_i64_def checked_add_u64_def millisats_try_from_def checked_mul_u64_def
      sint_neg_iff)

lemma listed_channel_meets_constructor_witness:
  "\<exists>c. convert_channel example_ext example_pb_channel = Ok c
     \<and> int (unat (msat_as_u64 (ch_local_balance c))) = 600000"
proof -
  obtain c where c: "convert_channel example_ext example_pb_channel = Ok c"
    using example_channel_converted by (auto simp: is_ok_iff)
  moreover have "sint (600 :: i64) = 600" by simp
  ultimately show ?thesis
    using listed_channel_meets_constructor [OF c] by (simp add: example_pb_channel_def)
qed

definition example_pb_invoice :: pb_invoice where
  "example_pb_invoice = \<lparr>pb_r_hash = example_hash, pb_value_msat = 2500,
     pb_creation_date = 1700000000, pb_expiry = 3600, pb_payment_request = ''lnbcrt25n1'',
     pb_state = 1\<rparr>"

lemma example_convert_invoice:
  "convert_invoice example_ext example_pb_invoice =
     Ok \<lparr>inv_invoice = example_bolt11 example_hash, inv_payment_hash = example_hash,
        inv_amount = Millisats 2500, inv_state = InvoiceSettled\<rparr>"
  by (simp add: convert_invoice_def Let_def example_pb_invoice_def example_ext_def
      response_hash_def response_millisats_def response_time_def u64_of_i64_def sint_neg_iff
      checked_invoice_record_def example_bolt11_def from_secs_def convert_invoice_state_def)

lemma looked_up_invoice_is_consistent_witness:
  "b11_amount_milli_satoshis (example_bolt11 example_hash) = Some 2500"
  using looked_up_invoice_is_consistent [OF example_convert_invoice]
  by (simp add: example_pb_invoice_def)

section \<open>A gap between the converter and the public constructor\<close>

text \<open>
  The converter of payments checks a preimage only on success: a failed payment that carries
  a preimage which does not prove its hash is accepted, although the public constructor rejects
  the record it becomes.
\<close>

theorem unproven_failed_payment_is_converted:
  "\<exists>x m r. convert_payment x m = Ok r \<and> \<not> payment_record_ok x r
     \<and> PaymentRecord_try_new x (pr_payment_hash r) (pr_preimage r) (pr_value r) (pr_fee r)
         (pr_state r) = Err (invalid ''payment preimage must prove the payment hash'')"
proof -
  let ?m = "\<lparr>pb_payment_hash = lowercase_hex example_hash, pb_payment_value_msat = 2500,
    pb_fee_msat = 0, pb_status = 3, pb_payment_preimage = lowercase_hex example_hash,
    pb_failure_reason = 0, pb_payment_other_fields = []\<rparr>"
  let ?r = "\<lparr>pr_payment_hash = example_hash, pr_preimage = Some example_hash,
    pr_value = Millisats 2500, pr_fee = Millisats 0, pr_state = PaymentStateFailed\<rparr>"
  have hex: "parse_preimage (lowercase_hex example_hash) = Ok example_hash"
    by (simp add: parse_preimage_lowercase_hex)
  moreover have "lowercase_hex example_hash \<noteq> []"
    using lowercase_hex_length [of example_hash] by auto
  ultimately have "convert_payment example_ext ?m = Ok ?r"
    by (simp add: convert_payment_def Let_def example_ext_def response_millisats_def
        u64_of_i64_def convert_payment_state_def sint_neg_iff)
  moreover have "\<not> payment_record_ok example_ext ?r"
    by (simp add: payment_record_ok_def payment_proven_def example_ext_def example_hash_def)
  moreover have "PaymentRecord_try_new example_ext example_hash (Some example_hash)
      (Millisats 2500) (Millisats 0) PaymentStateFailed
      = Err (invalid ''payment preimage must prove the payment hash'')"
    by (simp add: PaymentRecord_try_new_def example_ext_def example_hash_def)
  ultimately show ?thesis
    by (intro exI [of _ example_ext] exI [of _ ?m] exI [of _ ?r]) simp
qed

end
