(* ===== verification/Lnd_Payment.thy ===== *)
theory Lnd_Payment
  imports Lnd_Convert
begin

text \<open>
  \<open>payment.rs\<close>: creating and looking up invoices, paying them, and the consumption of the
  node's stream of payment updates. A stream is the list of what each awaited message yields
  (nothing arrives before the deadline once the list is exhausted); the encoder of the protobuf
  library is the parameter \<open>encode\<close>.
\<close>

type_synonym payment_items = "pb_payment option reply list"

section \<open>Requests\<close>

definition invalid_request :: "string \<Rightarrow> lnd_error" where
  "invalid_request detail = InvalidRequest detail"

definition signed_i64 :: "u64 \<Rightarrow> string \<Rightarrow> lnd_error + i64" where
  "signed_i64 v field =
     ok_or (i64_of_u64 v)
       (invalid_request
         (if field = ''invoice amount''
          then ''invoice amount exceeds LND's signed integer range''
          else if field = ''invoice expiry''
          then ''invoice expiry exceeds LND's signed integer range''
          else if field = ''payment fee limit''
          then ''payment fee limit exceeds LND's signed integer range''
          else ''request value exceeds LND's signed integer range''))"

definition nonzero_whole_seconds :: "duration \<Rightarrow> string \<Rightarrow> lnd_error + u64" where
  "nonzero_whole_seconds d field =
     (if subsec_nanos d \<noteq> 0
      then Err (invalid_request
        (if field = ''invoice expiry'' then ''invoice expiry must use whole seconds''
         else if field = ''payment timeout'' then ''payment timeout must use whole seconds''
         else ''duration must use whole seconds''))
      else if as_secs d = 0
      then Err (invalid_request
        (if field = ''invoice expiry''
         then ''invoice expiry must include at least one whole second''
         else if field = ''payment timeout''
         then ''payment timeout must include at least one whole second''
         else ''duration must include at least one whole second''))
      else Ok (as_secs d))"

record proto_invoice =
  pi_memo :: string
  pi_value_msat :: i64
  pi_expiry :: i64

definition proto_invoice_request :: "create_invoice_request \<Rightarrow> lnd_error + proto_invoice" where
  "proto_invoice_request request =
     and_then (signed_i64 (msat_as_u64 (cir_amount request)) ''invoice amount'') (\<lambda>value_msat.
     and_then (and_then (nonzero_whole_seconds (cir_expiry request) ''invoice expiry'')
                 (\<lambda>seconds. signed_i64 seconds ''invoice expiry'')) (\<lambda>expiry.
       Ok \<lparr>pi_memo = cir_memo request, pi_value_msat = value_msat, pi_expiry = expiry\<rparr>))"

record send_payment_request =
  sp_payment_request :: string
  sp_fee_limit_msat :: i64
  sp_timeout_seconds :: i32
  sp_no_inflight_updates :: bool

definition proto_send_payment_request ::
  "bolt11_invoice \<Rightarrow> payment_options \<Rightarrow> lnd_error + send_payment_request"
where
  "proto_send_payment_request invoice options =
     (if b11_amount_milli_satoshis invoice = None
      then Err (invalid_request
        ''BOLT11 invoice must include an amount because no amount override is available'')
      else
     and_then (signed_i64 (msat_as_u64 (po_fee_limit options)) ''payment fee limit'') (\<lambda>fee_limit.
     and_then (nonzero_whole_seconds (po_timeout options) ''payment timeout'') (\<lambda>seconds.
     and_then (ok_or (i32_of_u64 seconds)
                 (invalid_request ''payment timeout exceeds LND's integer range'')) (\<lambda>timeout.
       Ok \<lparr>sp_payment_request = b11_to_string invoice, sp_fee_limit_msat = fee_limit,
           sp_timeout_seconds = timeout, sp_no_inflight_updates = False\<rparr>))))"

record track_payment_request =
  tp_payment_hash :: "u8 list"
  tp_no_inflight_updates :: bool

record payment_hash_msg =
  ph_r_hash_str :: string
  ph_r_hash :: "u8 list"

section \<open>Invoices\<close>

definition create_invoice_with ::
  "ext \<Rightarrow> clock \<Rightarrow> client_inner \<Rightarrow> (proto_invoice, pb_add_invoice) call \<Rightarrow> create_invoice_request
     \<Rightarrow> lnd_error + invoice_record"
where
  "create_invoice_with x clk inner add_invoice create_request =
     (let expected_amount = cir_amount create_request in
      and_then (proto_invoice_request create_request) (\<lambda>request.
      and_then (ok_or (u64_of_i64 (pi_expiry request))
        (invalid_request ''validated invoice expiry unexpectedly became negative''))
        (\<lambda>expected_expiry.
      and_then (authenticated_mutating_request x clk inner ''create invoice'' None request
                  add_invoice) (\<lambda>response.
      and_then (created_invoice x response) (\<lambda>record.
        if inv_amount record \<noteq> expected_amount
        then Err (invalid_response_with_identifier ''create invoice''
                    ''created invoice amount does not match the requested amount''
                    (Some (sha256_to_string x (inv_payment_hash record))))
        else if as_secs (b11_expiry_time (inv_invoice record)) \<noteq> expected_expiry
        then Err (invalid_response_with_identifier ''create invoice''
                    ''created BOLT11 expiry does not match the requested expiry''
                    (Some (sha256_to_string x (inv_payment_hash record))))
        else Ok record)))))"

definition lookup_invoice_with ::
  "ext \<Rightarrow> clock \<Rightarrow> client_inner \<Rightarrow> (payment_hash_msg, pb_invoice) call \<Rightarrow> hash256
     \<Rightarrow> lnd_error + invoice_record"
where
  "lookup_invoice_with x clk inner lookup_invoice payment_hash =
     and_then (authenticated_request x clk inner ''lookup invoice''
                 \<lparr>ph_r_hash_str = [], ph_r_hash = payment_hash\<rparr> lookup_invoice) (\<lambda>response.
     and_then (convert_invoice x response) (\<lambda>record.
       if inv_payment_hash record \<noteq> payment_hash
       then Err (invalid_response_with_identifier ''lookup invoice''
                   ''response payment hash does not match the requested hash''
                   (Some (sha256_to_string x payment_hash)))
       else Ok record))"

section \<open>The payment stream\<close>

text \<open>The enumeration of \<open>lightning.proto\<close>; other values are reported by number.\<close>

definition payment_failure_reason :: "i32 \<Rightarrow> string" where
  "payment_failure_reason v =
     bounded
       (if v = 0 then ''failure reason not reported''
        else if v = 1 then ''payment timeout''
        else if v = 2 then ''no route''
        else if v = 3 then ''payment error''
        else if v = 4 then ''incorrect payment details''
        else if v = 5 then ''insufficient balance''
        else if v = 6 then ''payment canceled''
        else ''unknown failure reason '' @ show_i32 v)"

definition unknown_payment_outcome :: "ext \<Rightarrow> string \<Rightarrow> hash256 \<Rightarrow> lnd_error" where
  "unknown_payment_outcome x operation payment_hash =
     OutcomeUnknown operation (Some (sha256_to_string x payment_hash))"

datatype terminal_payment = TerminalSucceeded payment_record | TerminalFailed hash256 string

fun into_result :: "terminal_payment \<Rightarrow> lnd_error + payment_record" where
  "into_result (TerminalSucceeded record) = Ok record"
| "into_result (TerminalFailed payment_hash reason) = Err (PaymentFailed payment_hash reason)"

text \<open>The error of a converter gets the expected hash when it names no payment itself.\<close>

fun identify_with :: "string \<Rightarrow> lnd_error \<Rightarrow> lnd_error" where
  "identify_with hash_text (InvalidResponse operation detail None) =
     InvalidResponse operation detail (Some hash_text)"
| "identify_with hash_text e = e"

text \<open>The checks of one update, up to the record it stands for.\<close>

definition checked_update ::
  "ext \<Rightarrow> string \<Rightarrow> hash256 \<Rightarrow> u64 option \<Rightarrow> pb_payment \<Rightarrow> lnd_error + payment_record"
where
  "checked_update x operation expected_hash expected_amount update =
     (let identifier = sha256_to_string x expected_hash in
      and_then (map_err (identify_with identifier) (convert_payment x update)) (\<lambda>record.
        if pr_payment_hash record \<noteq> expected_hash
        then Err (invalid_response_with_identifier operation
                    ''payment update hash does not match the requested hash'' (Some identifier))
        else if (case expected_amount of None \<Rightarrow> False
                 | Some amount \<Rightarrow> msat_as_u64 (pr_value record) \<noteq> amount)
        then Err (invalid_response_with_identifier operation
                    ''payment value does not match the BOLT11 invoice amount'' (Some identifier))
        else Ok record))"

definition next_terminal :: "pb_payment \<Rightarrow> payment_record \<Rightarrow> terminal_payment option" where
  "next_terminal update record =
     (case pr_state record of
        PaymentSucceeded \<Rightarrow> Some (TerminalSucceeded record)
      | PaymentStateFailed \<Rightarrow>
          Some (TerminalFailed (pr_payment_hash record)
                  (payment_failure_reason (pb_failure_reason update)))
      | PaymentInFlight \<Rightarrow> None
      | PaymentUnknown v \<Rightarrow> None)"

text \<open>The match on the recorded and the new terminal update.\<close>

definition merge_terminal ::
  "ext \<Rightarrow> string \<Rightarrow> hash256 \<Rightarrow> u8 list \<Rightarrow> (u8 list \<times> terminal_payment) option
     \<Rightarrow> terminal_payment option \<Rightarrow> lnd_error + (u8 list \<times> terminal_payment) option"
where
  "merge_terminal x operation expected_hash wire terminal next =
     (case (terminal, next) of
        (None, Some t) \<Rightarrow> Ok (Some (wire, t))
      | (Some (first_wire, _), Some t) \<Rightarrow>
          (if first_wire = wire then Ok terminal
           else Err (invalid_response_with_identifier operation
                  ''payment stream contained contradictory terminal updates''
                  (Some (sha256_to_string x expected_hash))))
      | (Some _, None) \<Rightarrow>
          Err (invalid_response_with_identifier operation
                 ''payment stream returned to a nonterminal state''
                 (Some (sha256_to_string x expected_hash)))
      | (None, None) \<Rightarrow> Ok None)"

definition on_stream_error ::
  "ext \<Rightarrow> string \<Rightarrow> hash256 \<Rightarrow> bool \<Rightarrow> hash256 option \<Rightarrow> (u8 list \<times> terminal_payment) option
     \<Rightarrow> lnd_error \<Rightarrow> lnd_error + payment_record"
where
  "on_stream_error x operation expected_hash uncertain_from_start observed_hash terminal e =
     (case terminal of
        Some (_, t) \<Rightarrow> into_result t
      | None \<Rightarrow>
          (case (case observed_hash of Some h \<Rightarrow> Some h
                 | None \<Rightarrow> if uncertain_from_start then Some expected_hash else None) of
             Some hash \<Rightarrow> Err (unknown_payment_outcome x operation hash)
           | None \<Rightarrow> Err e))"

definition on_stream_end ::
  "ext \<Rightarrow> string \<Rightarrow> hash256 \<Rightarrow> (u8 list \<times> terminal_payment) option \<Rightarrow> lnd_error + payment_record"
where
  "on_stream_end x operation expected_hash terminal =
     (case terminal of
        Some (_, t) \<Rightarrow> into_result t
      | None \<Rightarrow> Err (invalid_response_with_identifier operation
                 ''payment stream ended before a terminal state''
                 (Some (sha256_to_string x expected_hash))))"

fun consume_updates ::
  "ext \<Rightarrow> (pb_payment \<Rightarrow> u8 list) \<Rightarrow> duration \<Rightarrow> string \<Rightarrow> hash256 \<Rightarrow> u64 option \<Rightarrow> bool
     \<Rightarrow> hash256 option \<Rightarrow> (u8 list \<times> terminal_payment) option \<Rightarrow> payment_items
     \<Rightarrow> lnd_error + payment_record"
where
  "consume_updates x encode configured operation expected_hash expected_amount uncertain
       observed_hash terminal [] =
     on_stream_error x operation expected_hash uncertain observed_hash terminal
       (Timeout operation configured)"
| "consume_updates x encode configured operation expected_hash expected_amount uncertain
       observed_hash terminal (item # items) =
     (case bounded_request_until x configured operation item of
        Err e \<Rightarrow> on_stream_error x operation expected_hash uncertain observed_hash terminal e
      | Ok None \<Rightarrow> on_stream_end x operation expected_hash terminal
      | Ok (Some update) \<Rightarrow>
          and_then (checked_update x operation expected_hash expected_amount update) (\<lambda>record.
          and_then (merge_terminal x operation expected_hash (encode update) terminal
                      (next_terminal update record)) (\<lambda>terminal'.
            consume_updates x encode configured operation expected_hash expected_amount uncertain
              (Some (pr_payment_hash record)) terminal' items)))"

definition consume_payment_stream ::
  "ext \<Rightarrow> (pb_payment \<Rightarrow> u8 list) \<Rightarrow> duration \<Rightarrow> string \<Rightarrow> hash256 \<Rightarrow> u64 option \<Rightarrow> bool
     \<Rightarrow> payment_items \<Rightarrow> lnd_error + payment_record"
where
  "consume_payment_stream x encode configured operation expected_hash expected_amount uncertain
       items =
     consume_updates x encode configured operation expected_hash expected_amount uncertain
       None None items"

section \<open>Paying and tracking\<close>

definition pay_invoice_with ::
  "ext \<Rightarrow> (pb_payment \<Rightarrow> u8 list) \<Rightarrow> clock \<Rightarrow> client_inner
     \<Rightarrow> (send_payment_request, payment_items) call \<Rightarrow> bolt11_invoice \<Rightarrow> payment_options
     \<Rightarrow> lnd_error + payment_record"
where
  "pay_invoice_with x encode clk inner send_payment_v2 invoice options =
     (let expected_hash = b11_payment_hash invoice in
      and_then (proto_send_payment_request invoice options) (\<lambda>request.
      and_then (operation_deadline clk (ci_timeout inner)) (\<lambda>deadline.
      and_then (authenticated_mutating_request_until x inner deadline ''pay invoice''
                  (Some (sha256_to_string x expected_hash)) request send_payment_v2) (\<lambda>stream.
        consume_payment_stream x encode (ci_timeout inner) ''pay invoice'' expected_hash
          (b11_amount_milli_satoshis invoice) True stream))))"

fun timeout_is_unknown :: "ext \<Rightarrow> hash256 \<Rightarrow> lnd_error \<Rightarrow> lnd_error" where
  "timeout_is_unknown x payment_hash (Timeout operation d) =
     unknown_payment_outcome x ''lookup payment'' payment_hash"
| "timeout_is_unknown x payment_hash other = other"

definition lookup_payment_with ::
  "ext \<Rightarrow> (pb_payment \<Rightarrow> u8 list) \<Rightarrow> clock \<Rightarrow> client_inner
     \<Rightarrow> (track_payment_request, payment_items) call \<Rightarrow> hash256 \<Rightarrow> lnd_error + payment_record"
where
  "lookup_payment_with x encode clk inner track_payment_v2 payment_hash =
     and_then (operation_deadline clk (ci_timeout inner)) (\<lambda>deadline.
     and_then (map_err (timeout_is_unknown x payment_hash)
        (authenticated_request_until x inner deadline (ci_timeout inner) ''lookup payment''
           \<lparr>tp_payment_hash = payment_hash, tp_no_inflight_updates = True\<rparr> track_payment_v2))
        (\<lambda>stream.
       consume_payment_stream x encode (ci_timeout inner) ''lookup payment'' payment_hash None
         True stream))"

section \<open>Requests that reach the wire\<close>

lemma signed_i64_Ok [result_simps]: "signed_i64 v field = Ok w \<longleftrightarrow> w = v \<and> unat v < 2 ^ 63"
  by (auto simp: signed_i64_def result_simps int_simps)

lemma nonzero_whole_seconds_Ok [result_simps]:
  "nonzero_whole_seconds d field = Ok s \<longleftrightarrow> subsec_nanos d = 0 \<and> as_secs d \<noteq> 0 \<and> s = as_secs d"
  by (auto simp: nonzero_whole_seconds_def)

lemma proto_invoice_request_Ok:
  "proto_invoice_request request = Ok p \<longleftrightarrow>
     p = \<lparr>pi_memo = cir_memo request, pi_value_msat = msat_as_u64 (cir_amount request),
          pi_expiry = as_secs (cir_expiry request)\<rparr>
     \<and> unat (msat_as_u64 (cir_amount request)) < 2 ^ 63
     \<and> subsec_nanos (cir_expiry request) = 0 \<and> as_secs (cir_expiry request) \<noteq> 0
     \<and> unat (as_secs (cir_expiry request)) < 2 ^ 63"
  by (auto simp: proto_invoice_request_def result_simps)

lemma request_errors:
  "signed_i64 v field = Err e \<Longrightarrow> is_InvalidRequest e"
  "nonzero_whole_seconds d field = Err e \<Longrightarrow> is_InvalidRequest e"
  by (auto simp: signed_i64_def nonzero_whole_seconds_def invalid_request_def result_simps
      split: if_splits)

lemma proto_invoice_request_Err:
  "proto_invoice_request request = Err e \<Longrightarrow> is_InvalidRequest e"
  by (auto simp: proto_invoice_request_def result_simps dest: request_errors)

lemma proto_send_payment_request_Err:
  "proto_send_payment_request invoice options = Err e \<Longrightarrow> is_InvalidRequest e"
  by (auto simp: proto_send_payment_request_def result_simps invalid_request_def
      dest: request_errors split: if_splits)

section \<open>One update\<close>

lemma convert_payment_Err:
  assumes "convert_payment x m = Err e"
  shows "is_InvalidResponse e"
  using assms
  by (auto simp: convert_payment_def Let_def result_simps response_millisats_def
      invalid_response_def invalid_response_with_identifier_def split: if_splits)

lemma identify_with_InvalidResponse:
  "is_InvalidResponse e \<Longrightarrow>
     is_InvalidResponse (identify_with h e) \<and> err_identifier (identify_with h e) \<noteq> None"
  by (cases "(h, e)" rule: identify_with.cases) auto

lemma checked_update_Ok:
  assumes "checked_update x operation h amount update = Ok r"
  shows "convert_payment x update = Ok r \<and> pr_payment_hash r = h
    \<and> (\<forall>a. amount = Some a \<longrightarrow> pr_value r = Millisats a)
    \<and> (pr_state r = PaymentSucceeded \<longrightarrow> payment_proven x r)"
proof -
  have "convert_payment x update = Ok r" and "pr_payment_hash r = h"
    and "\<forall>a. amount = Some a \<longrightarrow> pr_value r = Millisats a"
    using assms
    by (auto simp: checked_update_def Let_def result_simps millisats.expand split: option.splits)
  then show ?thesis
    using convert_payment_Ok by blast
qed

lemma checked_update_Err:
  assumes "checked_update x operation h amount update = Err e"
  shows "is_InvalidResponse e \<and> err_identifier e \<noteq> None"
  using assms convert_payment_Err identify_with_InvalidResponse
  by (auto simp: checked_update_def Let_def result_simps invalid_response_with_identifier_def
      split: if_splits option.splits)

text \<open>What a recorded terminal update guarantees.\<close>

definition record_of_request :: "ext \<Rightarrow> hash256 \<Rightarrow> u64 option \<Rightarrow> payment_record \<Rightarrow> bool" where
  "record_of_request x h amount r \<longleftrightarrow>
     pr_state r = PaymentSucceeded \<and> payment_proven x r \<and> pr_payment_hash r = h
     \<and> (\<forall>a. amount = Some a \<longrightarrow> pr_value r = Millisats a)"

fun terminal_ok :: "ext \<Rightarrow> hash256 \<Rightarrow> u64 option \<Rightarrow> terminal_payment \<Rightarrow> bool" where
  "terminal_ok x h amount (TerminalSucceeded r) = record_of_request x h amount r"
| "terminal_ok x h amount (TerminalFailed h' reason) = (h' = h)"

definition terminal_inv ::
  "ext \<Rightarrow> hash256 \<Rightarrow> u64 option \<Rightarrow> (u8 list \<times> terminal_payment) option \<Rightarrow> bool"
where
  "terminal_inv x h amount terminal \<longleftrightarrow> (\<forall>w t. terminal = Some (w, t) \<longrightarrow> terminal_ok x h amount t)"

lemma next_terminal_ok:
  assumes "checked_update x operation h amount update = Ok r"
    and "next_terminal update r = Some t"
  shows "terminal_ok x h amount t"
  using checked_update_Ok [OF assms(1)] assms(2)
  by (auto simp: next_terminal_def record_of_request_def split: payment_state.splits)

lemma merge_terminal_inv:
  assumes "merge_terminal x operation h wire terminal (next_terminal update r) = Ok terminal'"
    and "checked_update x operation h amount update = Ok r" and "terminal_inv x h amount terminal"
  shows "terminal_inv x h amount terminal'"
  using assms(1,3) next_terminal_ok [OF assms(2)]
  by (auto simp: merge_terminal_def terminal_inv_def split: option.splits if_splits)

lemma merge_terminal_Err:
  "merge_terminal x operation h wire terminal next = Err e \<Longrightarrow>
     is_InvalidResponse e \<and> err_identifier e \<noteq> None"
  by (auto simp: merge_terminal_def invalid_response_with_identifier_def
      split: option.splits if_splits)

section \<open>The whole stream\<close>

text \<open>The errors that may end a stream whose payment may already be on its way.\<close>

definition stream_error_ok :: "ext \<Rightarrow> string \<Rightarrow> hash256 \<Rightarrow> lnd_error \<Rightarrow> bool" where
  "stream_error_ok x operation h e \<longleftrightarrow>
     e = OutcomeUnknown operation (Some (sha256_to_string x h))
     \<or> (\<exists>reason. e = PaymentFailed h reason)
     \<or> (is_InvalidResponse e \<and> err_identifier e \<noteq> None)"

definition stream_result_ok ::
  "ext \<Rightarrow> string \<Rightarrow> hash256 \<Rightarrow> u64 option \<Rightarrow> lnd_error + payment_record \<Rightarrow> bool"
where
  "stream_result_ok x operation h amount res \<longleftrightarrow>
     (case res of Ok r \<Rightarrow> record_of_request x h amount r | Err e \<Rightarrow> stream_error_ok x operation h e)"

lemma into_result_ok:
  "terminal_ok x h amount t \<Longrightarrow> stream_result_ok x operation h amount (into_result t)"
  by (cases t) (auto simp: stream_result_ok_def stream_error_ok_def)

lemma on_stream_error_ok:
  assumes "terminal_inv x h amount terminal" and "observed = None \<or> observed = Some h"
  shows "stream_result_ok x operation h amount
    (on_stream_error x operation h True observed terminal e)"
  using assms
  by (auto simp: on_stream_error_def terminal_inv_def into_result_ok unknown_payment_outcome_def
      stream_result_ok_def [where res = "Inl _"] stream_error_ok_def split: option.splits)

lemma on_stream_end_ok:
  assumes "terminal_inv x h amount terminal"
  shows "stream_result_ok x operation h amount (on_stream_end x operation h terminal)"
  using assms
  by (auto simp: on_stream_end_def terminal_inv_def into_result_ok
      invalid_response_with_identifier_def stream_result_ok_def [where res = "Inl _"]
      stream_error_ok_def split: option.splits)

lemma consume_updates_ok:
  assumes "terminal_inv x h amount terminal" and "observed = None \<or> observed = Some h"
  shows "stream_result_ok x operation h amount
    (consume_updates x encode d operation h amount True observed terminal items)"
  using assms
proof (induction items arbitrary: observed terminal)
  case Nil
  then show ?case by (simp add: on_stream_error_ok)
next
  case (Cons item items)
  let ?rest = "\<lambda>r. consume_updates x encode d operation h amount True (Some (pr_payment_hash r))"
  show ?case
  proof (cases "bounded_request_until x d operation item")
    case (Inl e)
    then show ?thesis
      using Cons.prems by (simp add: on_stream_error_ok)
  next
    case (Inr msg)
    show ?thesis
    proof (cases msg)
      case None
      then show ?thesis
        using Inr Cons.prems by (simp add: on_stream_end_ok)
    next
      case (Some update)
      show ?thesis
      proof (cases "checked_update x operation h amount update")
        case (Inl e)
        then show ?thesis
          using \<open>msg = Some update\<close> Inr checked_update_Err [OF Inl]
          by (simp add: stream_result_ok_def stream_error_ok_def)
      next
        case r: (Inr r)
        show ?thesis
        proof (cases "merge_terminal x operation h (encode update) terminal
            (next_terminal update r)")
          case (Inl e)
          then show ?thesis
            using \<open>msg = Some update\<close> Inr r merge_terminal_Err [OF Inl]
            by (simp add: stream_result_ok_def stream_error_ok_def)
        next
          case m: (Inr terminal')
          then have "terminal_inv x h amount terminal'"
            using merge_terminal_inv [OF m r Cons.prems(1)] by simp
          moreover have "Some (pr_payment_hash r) = Some h"
            using checked_update_Ok [OF r] by simp
          ultimately show ?thesis
            using \<open>msg = Some update\<close> Inr r m Cons.IH by simp
        qed
      qed
    qed
  qed
qed

lemma consume_payment_stream_ok:
  "stream_result_ok x operation h amount
     (consume_payment_stream x encode d operation h amount True items)"
  unfolding consume_payment_stream_def
  by (rule consume_updates_ok) (simp_all add: terminal_inv_def)

section \<open>Successful streams, item by item\<close>

abbreviation updates :: "pb_payment list \<Rightarrow> payment_items" where
  "updates us \<equiv> map (\<lambda>u. Reply (Some u)) us"

text \<open>The stream stops: its end, a status, or nothing before the deadline.\<close>

fun stops :: "payment_items \<Rightarrow> bool" where
  "stops [] = True"
| "stops (Reply (Some u) # items) = False"
| "stops (item # items) = True"

definition pending_update ::
  "ext \<Rightarrow> string \<Rightarrow> hash256 \<Rightarrow> u64 option \<Rightarrow> pb_payment \<Rightarrow> bool"
where
  "pending_update x operation h amount u \<longleftrightarrow>
     (\<exists>r. checked_update x operation h amount u = Ok r \<and> next_terminal u r = None)"

definition terminal_update ::
  "ext \<Rightarrow> string \<Rightarrow> hash256 \<Rightarrow> u64 option \<Rightarrow> pb_payment \<Rightarrow> terminal_payment \<Rightarrow> bool"
where
  "terminal_update x operation h amount u t \<longleftrightarrow>
     (\<exists>r. checked_update x operation h amount u = Ok r \<and> next_terminal u r = Some t)"

text \<open>A repetition of the terminal update with wire encoding \<open>w\<close>.\<close>

definition repeated_update ::
  "ext \<Rightarrow> (pb_payment \<Rightarrow> u8 list) \<Rightarrow> string \<Rightarrow> hash256 \<Rightarrow> u64 option \<Rightarrow> u8 list \<Rightarrow> pb_payment
     \<Rightarrow> bool"
where
  "repeated_update x encode operation h amount w u \<longleftrightarrow>
     encode u = w \<and> (\<exists>t. terminal_update x operation h amount u t)"

lemma bounded_request_simps [simp]:
  "bounded_request_until x d operation (Reply r) = Ok r"
  "bounded_request_until x d operation Elapsed = Err (Timeout operation d)"
  "bounded_request_until x d operation (Refused st) = Err (map_status x operation st)"
  by (simp_all add: bounded_request_until_def)

lemma consume_terminal_stops:
  "stops items \<Longrightarrow>
     consume_updates x encode d operation h amount u observed (Some (w, t)) items = into_result t"
  by (cases items rule: stops.cases) (auto simp: on_stream_error_def on_stream_end_def)

lemma consume_pending:
  assumes "pending_update x operation h amount u"
  shows "consume_updates x encode d operation h amount un observed None (Reply (Some u) # items)
    = consume_updates x encode d operation h amount un (Some h) None items"
proof -
  obtain r where r: "checked_update x operation h amount u = Ok r" "next_terminal u r = None"
    using assms by (auto simp: pending_update_def)
  then have "pr_payment_hash r = h"
    using checked_update_Ok by blast
  then show ?thesis
    using r by (simp add: merge_terminal_def)
qed

lemma consume_terminal:
  assumes "terminal_update x operation h amount u t"
  shows "consume_updates x encode d operation h amount un observed None (Reply (Some u) # items)
    = consume_updates x encode d operation h amount un (Some h) (Some (encode u, t)) items"
proof -
  obtain r where r: "checked_update x operation h amount u = Ok r" "next_terminal u r = Some t"
    using assms by (auto simp: terminal_update_def)
  then have "pr_payment_hash r = h"
    using checked_update_Ok by blast
  then show ?thesis
    using r by (simp add: merge_terminal_def)
qed

lemma consume_repeated:
  assumes "repeated_update x encode operation h amount w u"
  shows "consume_updates x encode d operation h amount un observed (Some (w, t))
      (Reply (Some u) # items)
    = consume_updates x encode d operation h amount un (Some h) (Some (w, t)) items"
proof -
  obtain r t' where r: "checked_update x operation h amount u = Ok r"
    "next_terminal u r = Some t'" "encode u = w"
    using assms by (auto simp: repeated_update_def terminal_update_def)
  then have "pr_payment_hash r = h"
    using checked_update_Ok by blast
  then show ?thesis
    using r by (simp add: merge_terminal_def)
qed

lemma consume_all_pending:
  assumes "\<forall>u \<in> set us. pending_update x operation h amount u"
  shows "\<exists>observed'. consume_updates x encode d operation h amount un observed None
      (updates us @ items)
    = consume_updates x encode d operation h amount un observed' None items"
  using assms
proof (induction us arbitrary: observed)
  case Nil
  then show ?case by auto
next
  case (Cons u us)
  then show ?case by (simp add: consume_pending del: consume_updates.simps)
qed

lemma consume_all_repeated:
  assumes "\<forall>u \<in> set us. repeated_update x encode operation h amount w u"
  shows "\<exists>observed'. consume_updates x encode d operation h amount un observed (Some (w, t))
      (updates us @ items)
    = consume_updates x encode d operation h amount un observed' (Some (w, t)) items"
  using assms
proof (induction us arbitrary: observed)
  case Nil
  then show ?case by auto
next
  case (Cons u us)
  then show ?case by (simp add: consume_repeated del: consume_updates.simps)
qed

lemma consume_decided:
  assumes "\<forall>u \<in> set before. pending_update x operation h amount u"
    and "terminal_update x operation h amount u t"
    and "\<forall>v \<in> set after. repeated_update x encode operation h amount (encode u) v"
    and "stops rest"
  shows "consume_updates x encode d operation h amount un observed None
      (updates before @ updates (u # after) @ rest) = into_result t"
proof -
  obtain o1 where "consume_updates x encode d operation h amount un observed None
      (updates before @ updates (u # after) @ rest)
    = consume_updates x encode d operation h amount un o1 None (updates (u # after) @ rest)"
    using consume_all_pending [OF assms(1)] by blast
  also have "\<dots> = consume_updates x encode d operation h amount un (Some h) (Some (encode u, t))
      (updates after @ rest)"
    using consume_terminal [OF assms(2)] by (simp del: consume_updates.simps)
  also obtain o2 where "\<dots> = consume_updates x encode d operation h amount un o2
      (Some (encode u, t)) rest"
    using consume_all_repeated [OF assms(3)] by blast
  finally show ?thesis
    using consume_terminal_stops [OF assms(4)] by simp
qed

text \<open>Conversely, what a successful run went through.\<close>

lemma next_message_cases:
  assumes "bounded_request_until x d operation item = Ok (Some update)"
  shows "item = Reply (Some update)"
  using assms by (simp add: bounded_request_Ok)

lemma consume_after_terminal_Ok:
  assumes "consume_updates x encode d operation h amount un observed (Some (w, t)) items = Ok r"
  shows "into_result t = Ok r \<and> (\<exists>after rest. items = updates after @ rest \<and> stops rest
    \<and> (\<forall>u \<in> set after. repeated_update x encode operation h amount w u))"
  using assms
proof (induction items arbitrary: observed)
  case Nil
  then show ?case
    by (auto simp: on_stream_error_def intro!: exI [of _ "[]"])
next
  case (Cons item items)
  show ?case
  proof (cases "stops (item # items)")
    case True
    then have "into_result t = Ok r"
      using Cons.prems consume_terminal_stops [OF True] by simp
    then show ?thesis
      using True by (intro conjI exI [of _ "[]"] exI [of _ "item # items"]) simp_all
  next
    case False
    then obtain u where u: "item = Reply (Some u)"
      by (cases "item # items" rule: stops.cases) auto
    then obtain r' t' where r': "checked_update x operation h amount u = Ok r'"
      and t': "next_terminal u r' = Some t'" and w: "encode u = w"
      and tail: "consume_updates x encode d operation h amount un (Some (pr_payment_hash r'))
        (Some (w, t)) items = Ok r"
      using Cons.prems
      by (auto simp: result_simps merge_terminal_def split: option.splits if_splits)
    obtain after rest where "items = updates after @ rest" "stops rest"
      "\<forall>u \<in> set after. repeated_update x encode operation h amount w u" "into_result t = Ok r"
      using Cons.IH [OF tail] by blast
    then show ?thesis
      using u r' t' w
      by (intro conjI exI [of _ "u # after"] exI [of _ rest])
        (auto simp: repeated_update_def terminal_update_def)
  qed
qed

lemma consume_before_terminal_Ok:
  assumes "consume_updates x encode d operation h amount True observed None items = Ok r"
  shows "\<exists>before u after rest. items = updates before @ updates (u # after) @ rest \<and> stops rest
    \<and> (\<forall>v \<in> set before. pending_update x operation h amount v)
    \<and> terminal_update x operation h amount u (TerminalSucceeded r)
    \<and> (\<forall>v \<in> set after. repeated_update x encode operation h amount (encode u) v)"
  using assms
proof (induction items arbitrary: observed)
  case Nil
  then show ?case by (auto simp: on_stream_error_def split: option.splits)
next
  case (Cons item items)
  then obtain u where u: "item = Reply (Some u)"
    by (cases "item # items" rule: stops.cases)
      (auto simp: on_stream_error_def on_stream_end_def split: option.splits)
  then obtain r' terminal' where r': "checked_update x operation h amount u = Ok r'"
    and merged: "merge_terminal x operation h (encode u) None (next_terminal u r') = Ok terminal'"
    and tail: "consume_updates x encode d operation h amount True (Some (pr_payment_hash r'))
      terminal' items = Ok r"
    using Cons.prems by (auto simp: result_simps)
  show ?case
  proof (cases "next_terminal u r'")
    case None
    then have "terminal' = None"
      using merged by (simp add: merge_terminal_def)
    then obtain before v after rest where IH: "items = updates before @ updates (v # after) @ rest"
      "stops rest" "\<forall>v \<in> set before. pending_update x operation h amount v"
      "terminal_update x operation h amount v (TerminalSucceeded r)"
      "\<forall>a \<in> set after. repeated_update x encode operation h amount (encode v) a"
      using Cons.IH tail by blast
    have "pending_update x operation h amount u"
      using r' None by (auto simp: pending_update_def)
    then show ?thesis
      using IH(2-) u unfolding IH(1)
      by (intro exI [of _ "u # before"] exI [of _ v] exI [of _ after] exI [of _ rest]) simp
  next
    case (Some t)
    then have "terminal' = Some (encode u, t)"
      using merged by (simp add: merge_terminal_def)
    then have "consume_updates x encode d operation h amount True (Some (pr_payment_hash r'))
        (Some (encode u, t)) items = Ok r"
      using tail by simp
    from consume_after_terminal_Ok [OF this] obtain after rest
      where decided: "into_result t = Ok r" and rest: "items = updates after @ rest" "stops rest"
      "\<forall>v \<in> set after. repeated_update x encode operation h amount (encode u) v"
      by blast
    have "t = TerminalSucceeded r"
      using decided by (cases t) auto
    then have "terminal_update x operation h amount u (TerminalSucceeded r)"
      using r' Some by (auto simp: terminal_update_def)
    then show ?thesis
      using u rest(2-) unfolding rest(1)
      by (intro exI [of _ "[]"] exI [of _ u] exI [of _ after] exI [of _ rest]) simp
  qed
qed

section \<open>The operations\<close>

lemma pay_invoice_with_cases:
  assumes "pay_invoice_with x encode clk inner send invoice options = res"
  obtains (rejected) e where "res = Err e" and "is_InvalidRequest e"
  | (refused) request deadline e where "res = Err e"
      and "authenticated_mutating_request_until x inner deadline ''pay invoice''
        (Some (sha256_to_string x (b11_payment_hash invoice))) request send = Err e"
  | (streamed) items where "res = consume_payment_stream x encode (ci_timeout inner)
        ''pay invoice'' (b11_payment_hash invoice) (b11_amount_milli_satoshis invoice) True items"
      and "b11_amount_milli_satoshis invoice \<noteq> None"
proof (cases "proto_send_payment_request invoice options")
  case (Inl e)
  then show thesis
    using assms rejected [of e] proto_send_payment_request_Err [OF Inl]
    by (simp add: pay_invoice_with_def)
next
  case request: (Inr request)
  then have amount: "b11_amount_milli_satoshis invoice \<noteq> None"
    by (auto simp: proto_send_payment_request_def split: if_splits)
  show thesis
  proof (cases "operation_deadline clk (ci_timeout inner)")
    case (Inl e)
    then show thesis
      using assms request rejected [of e] operation_deadline_Err [OF Inl]
      by (simp add: pay_invoice_with_def)
  next
    case deadline: (Inr deadline)
    show thesis
    proof (cases "authenticated_mutating_request_until x inner deadline ''pay invoice''
        (Some (sha256_to_string x (b11_payment_hash invoice))) request send")
      case (Inl e)
      then show thesis
        using assms request deadline refused [of e deadline request]
        by (simp add: pay_invoice_with_def)
    next
      case (Inr items)
      then show thesis
        using assms request deadline amount streamed [of items]
        by (simp add: pay_invoice_with_def)
    qed
  qed
qed

lemma payment_request_refused:
  assumes "authenticated_mutating_request_until x inner deadline operation identifier request send
    = Err e"
  shows "e = OutcomeUnknown operation identifier \<or> (\<exists>code. is_refusal code e)"
  using bounded_mutating_Err assms unfolding authenticated_mutating_request_until_def by blast

text \<open>
  C1: paying an invoice succeeds only with a record of that invoice's payment: its state is
  succeeded, its hash is the invoice's, its preimage proves the hash, and its value is the
  amount of the invoice.
\<close>

theorem pay_invoice_success:
  assumes "pay_invoice_with x encode clk inner send invoice options = Ok r"
  shows "pr_state r = PaymentSucceeded \<and> pr_payment_hash r = b11_payment_hash invoice
    \<and> (\<exists>preimage. pr_preimage r = Some preimage
         \<and> sha256_hash x preimage = b11_payment_hash invoice)
    \<and> b11_amount_milli_satoshis invoice = Some (msat_as_u64 (pr_value r))"
  using assms
proof (cases rule: pay_invoice_with_cases)
  case (streamed items)
  then have "record_of_request x (b11_payment_hash invoice) (b11_amount_milli_satoshis invoice) r"
    using consume_payment_stream_ok [of x "''pay invoice''" "b11_payment_hash invoice"
        "b11_amount_milli_satoshis invoice" encode "ci_timeout inner" items]
    by (simp add: stream_result_ok_def flip: streamed(1))
  then show ?thesis
    using streamed(2) by (auto simp: record_of_request_def payment_proven_def)
qed simp_all

text \<open>
  C2: a failed attempt to pay is reported as an invalid request (nothing was sent), a refusal by
  the node, a terminal failure of this payment, a response that names a payment, or an unknown
  outcome that names the invoice's hash; never as a bare timeout or transport error, which would
  invite a second payment.
\<close>

theorem pay_invoice_failure_is_classified:
  assumes "pay_invoice_with x encode clk inner send invoice options = Err e"
  shows "(is_InvalidRequest e \<or> (\<exists>code. is_refusal code e)
      \<or> (\<exists>reason. e = PaymentFailed (b11_payment_hash invoice) reason)
      \<or> (is_InvalidResponse e \<and> err_identifier e \<noteq> None)
      \<or> e = OutcomeUnknown ''pay invoice'' (Some (sha256_to_string x (b11_payment_hash invoice))))
    \<and> \<not> is_Timeout e \<and> \<not> is_Transport e"
  using assms
proof (cases rule: pay_invoice_with_cases)
  case (rejected d)
  then show ?thesis by (cases e) auto
next
  case (refused request deadline d)
  then show ?thesis
    using payment_request_refused [OF refused(2)] is_refusal_classes by auto
next
  case (streamed items)
  then have "stream_error_ok x ''pay invoice'' (b11_payment_hash invoice) e"
    using consume_payment_stream_ok [of x "''pay invoice''" "b11_payment_hash invoice"
        "b11_amount_milli_satoshis invoice" encode "ci_timeout inner" items]
    by (simp add: stream_result_ok_def flip: streamed(1))
  then show ?thesis
    by (auto simp: stream_error_ok_def is_InvalidResponse_def)
qed

text \<open>
  C3: the stream of a payment yields success exactly when it delivers updates of this payment that
  are not terminal, then a succeeded one, then only repetitions of that very update (byte for
  byte) until it stops, whether by its end, a lost connection or the deadline.
\<close>

theorem payment_stream_succeeds_iff:
  "consume_payment_stream x encode d operation h amount True items = Ok r \<longleftrightarrow>
     (\<exists>before u after rest. items = updates before @ updates (u # after) @ rest \<and> stops rest
        \<and> (\<forall>v \<in> set before. pending_update x operation h amount v)
        \<and> terminal_update x operation h amount u (TerminalSucceeded r)
        \<and> (\<forall>v \<in> set after. repeated_update x encode operation h amount (encode u) v))"
  (is "?run \<longleftrightarrow> ?shape")
proof
  assume ?run
  then show ?shape
    unfolding consume_payment_stream_def by (rule consume_before_terminal_Ok)
next
  assume ?shape
  then obtain before u after rest where items: "items = updates before @ updates (u # after) @ rest"
    and shape: "\<forall>v \<in> set before. pending_update x operation h amount v"
    "terminal_update x operation h amount u (TerminalSucceeded r)"
    "\<forall>v \<in> set after. repeated_update x encode operation h amount (encode u) v" "stops rest"
    by blast
  show ?run
    unfolding consume_payment_stream_def items
    using consume_decided [OF shape] by simp
qed

text \<open>
  C5: once the node has reported a terminal state, losing the connection cannot turn the known
  outcome into an unknown one.
\<close>

theorem terminal_outcome_survives_loss:
  assumes "\<forall>v \<in> set before. pending_update x operation h amount v"
    and "terminal_update x operation h amount u t"
    and "\<forall>v \<in> set after. repeated_update x encode operation h amount (encode u) v"
  shows "consume_payment_stream x encode d operation h amount uncertain
      (updates before @ updates (u # after) @ Refused st # rest) = into_result t
    \<and> consume_payment_stream x encode d operation h amount uncertain
      (updates before @ updates (u # after)) = into_result t"
  unfolding consume_payment_stream_def
  using consume_decided [OF assms, where rest = "Refused st # rest" and observed = None]
    consume_decided [OF assms, where rest = "[]" and observed = None]
  by (simp del: consume_updates.simps)

text \<open>
  C6: after a terminal update, an update that differs from it, be it terminal or not, ends the
  operation with an invalid response naming the payment, whatever follows.
\<close>

theorem contradictory_update_is_rejected:
  assumes "\<forall>v \<in> set before. pending_update x operation h amount v"
    and "terminal_update x operation h amount u t"
    and "\<forall>v \<in> set after. repeated_update x encode operation h amount (encode u) v"
    and "pending_update x operation h amount w
      \<or> (\<exists>t'. terminal_update x operation h amount w t') \<and> encode w \<noteq> encode u"
  shows "\<exists>detail. consume_payment_stream x encode d operation h amount uncertain
      (updates before @ updates (u # after) @ Reply (Some w) # rest)
    = Err (InvalidResponse operation detail (Some (sha256_to_string x h)))"
proof -
  obtain o1 where "consume_payment_stream x encode d operation h amount uncertain
      (updates before @ updates (u # after) @ Reply (Some w) # rest)
    = consume_updates x encode d operation h amount uncertain o1 None
        (updates (u # after) @ Reply (Some w) # rest)"
    unfolding consume_payment_stream_def using consume_all_pending [OF assms(1)] by blast
  also have "\<dots> = consume_updates x encode d operation h amount uncertain (Some h)
      (Some (encode u, t)) (updates after @ Reply (Some w) # rest)"
    using consume_terminal [OF assms(2)] by (simp del: consume_updates.simps)
  also obtain o2 where "\<dots> = consume_updates x encode d operation h amount uncertain o2
      (Some (encode u, t)) (Reply (Some w) # rest)"
    using consume_all_repeated [OF assms(3)] by blast
  finally show ?thesis
    using assms(4)
    by (auto simp: pending_update_def terminal_update_def merge_terminal_def
        invalid_response_with_identifier_def)
qed

text \<open>
  C9: a created invoice has the requested amount and expiry, is open, and its hash, amount and
  text agree; the request that was sent carries the memo.
\<close>

theorem create_invoice_success:
  assumes "create_invoice_with x clk inner add_invoice request = Ok r"
  shows "invoice_record_ok r \<and> inv_state r = InvoiceOpen \<and> inv_amount r = cir_amount request
    \<and> b11_amount_milli_satoshis (inv_invoice r) = Some (msat_as_u64 (cir_amount request))
    \<and> as_nanos (cir_expiry request) = unat (as_secs (b11_expiry_time (inv_invoice r))) * 10 ^ 9
    \<and> (\<exists>response. add_invoice (with_macaroon inner
           \<lparr>pi_memo = cir_memo request, pi_value_msat = msat_as_u64 (cir_amount request),
            pi_expiry = as_secs (cir_expiry request)\<rparr>)
           (clock_now clk + as_nanos (ci_timeout inner)) = Reply response
         \<and> sha256_from_slice x (pb_add_r_hash response) = Some (inv_payment_hash r))"
proof -
  let ?request = "\<lparr>pi_memo = cir_memo request, pi_value_msat = msat_as_u64 (cir_amount request),
    pi_expiry = as_secs (cir_expiry request)\<rparr>"
  obtain response where sent: "authenticated_mutating_request x clk inner ''create invoice'' None
      ?request add_invoice = Ok response"
    and r: "created_invoice x response = Ok r" "inv_amount r = cir_amount request"
    "as_secs (b11_expiry_time (inv_invoice r)) = as_secs (cir_expiry request)"
    and whole: "subsec_nanos (cir_expiry request) = 0"
    using assms
    by (auto simp: create_invoice_with_def Let_def result_simps proto_invoice_request_Ok int_simps)
  have "add_invoice (with_macaroon inner ?request) (clock_now clk + as_nanos (ci_timeout inner))
      = Reply response"
    using sent
    by (auto simp: authenticated_mutating_request_def authenticated_mutating_request_until_def
        result_simps operation_deadline_Ok)
  then show ?thesis
    using created_invoice_Ok [OF r(1)] r(2,3) whole
    by (auto simp: invoice_record_ok_def as_nanos_def)
qed

text \<open>
  A payment request is built exactly for an invoice with an amount, a fee limit and a timeout
  the wire's signed fields can hold, and a timeout of at least one whole second; the request then
  carries these values unchanged.
\<close>

theorem send_payment_request_iff:
  "proto_send_payment_request invoice options = Ok request \<longleftrightarrow>
     b11_amount_milli_satoshis invoice \<noteq> None
     \<and> unat (msat_as_u64 (po_fee_limit options)) < 2 ^ 63
     \<and> subsec_nanos (po_timeout options) = 0 \<and> as_secs (po_timeout options) \<noteq> 0
     \<and> unat (as_secs (po_timeout options)) < 2 ^ 31
     \<and> request = \<lparr>sp_payment_request = b11_to_string invoice,
          sp_fee_limit_msat = msat_as_u64 (po_fee_limit options),
          sp_timeout_seconds = ucast (as_secs (po_timeout options)),
          sp_no_inflight_updates = False\<rparr>"
  by (auto simp: proto_send_payment_request_def result_simps i32_of_u64_def split: if_splits)


section \<open>A concrete payment\<close>

definition example_update :: "i32 \<Rightarrow> pb_payment" where
  "example_update st = \<lparr>pb_payment_hash = lowercase_hex example_hash,
     pb_payment_value_msat = 2500, pb_fee_msat = 1, pb_status = st,
     pb_payment_preimage = (if st = 2 then lowercase_hex example_preimage else []),
     pb_failure_reason = (if st = 3 then 2 else 0), pb_payment_other_fields = []\<rparr>"

definition example_encode :: "pb_payment \<Rightarrow> u8 list" where
  "example_encode u = [ucast (pb_status u)]"

definition example_record :: payment_record where
  "example_record = \<lparr>pr_payment_hash = example_hash, pr_preimage = Some example_preimage,
     pr_value = Millisats 2500, pr_fee = Millisats 1, pr_state = PaymentSucceeded\<rparr>"

lemma example_ext_hash [simp]:
  "sha256_from_str example_ext (lowercase_hex example_hash) = Some example_hash"
  by (simp add: example_ext_def parse_preimage_lowercase_hex)

lemma lowercase_hex_eq_Nil [simp]: "lowercase_hex bs = [] \<longleftrightarrow> bs = []"
  by (cases bs) auto

lemma example_preimage_nonempty [simp]: "example_preimage \<noteq> []"
  by (simp add: example_preimage_def)

lemma example_convert_payment:
  "convert_payment example_ext (example_update 2) = Ok example_record"
  "\<exists>r. convert_payment example_ext (example_update 1) = Ok r \<and> pr_state r = PaymentInFlight
     \<and> pr_payment_hash r = example_hash \<and> pr_value r = Millisats 2500"
  "\<exists>r. convert_payment example_ext (example_update 3) = Ok r \<and> pr_state r = PaymentStateFailed
     \<and> pr_payment_hash r = example_hash \<and> pr_value r = Millisats 2500"
  by (simp_all add: convert_payment_def Let_def example_update_def response_millisats_def
      u64_of_i64_def sint_neg_iff parse_preimage_lowercase_hex convert_payment_state_def
      example_hash_proof example_record_def)

lemma example_terminal:
  "terminal_update example_ext operation example_hash (Some 2500) (example_update 2)
     (TerminalSucceeded example_record)"
  by (simp add: terminal_update_def checked_update_def Let_def example_convert_payment
      example_record_def next_terminal_def)

lemma example_failed:
  "terminal_update example_ext operation example_hash (Some 2500) (example_update 3)
     (TerminalFailed example_hash ''no route'')"
  using example_convert_payment(3)
  by (auto simp: terminal_update_def checked_update_def Let_def next_terminal_def
      payment_failure_reason_def bounded_def MAX_ERROR_TEXT_BYTES_def example_update_def)

lemma example_pending:
  "pending_update example_ext operation example_hash (Some 2500) (example_update 1)"
  using example_convert_payment(2)
  by (auto simp: pending_update_def checked_update_def Let_def next_terminal_def)

lemma example_repeated:
  "repeated_update example_ext example_encode operation example_hash (Some 2500)
     (example_encode (example_update 2)) (example_update 2)"
  using example_terminal by (auto simp: repeated_update_def)

definition example_options :: payment_options where
  "example_options = \<lparr>po_fee_limit = Millisats 10, po_timeout = from_secs 30\<rparr>"

definition example_items :: payment_items where
  "example_items = updates [example_update 1] @ updates [example_update 2, example_update 2]
     @ [Elapsed]"

lemma example_run:
  "consume_payment_stream example_ext example_encode d operation example_hash (Some 2500) un
     example_items = Ok example_record"
  unfolding consume_payment_stream_def example_items_def
  using consume_decided [of "[example_update 1]" example_ext operation example_hash "Some 2500"
      "example_update 2" "TerminalSucceeded example_record" "[example_update 2]" example_encode
      "[Elapsed]" d un None]
  by (simp add: example_pending example_terminal example_repeated del: consume_updates.simps)

lemma example_fields [simp]:
  "b11_amount_milli_satoshis (example_bolt11 h) = Some 2500"
  "b11_payment_hash (example_bolt11 h) = h"
  "ci_timeout example_client = from_secs 5"
  "sha256_to_string example_ext = lowercase_hex"
  by (simp_all add: example_bolt11_def example_client_def example_ext_def)

lemma example_pay:
  "pay_invoice_with example_ext example_encode example_clock example_client send
     (example_bolt11 example_hash) example_options =
   (case send (with_macaroon example_client
        \<lparr>sp_payment_request = ''lnbcrt25n1'', sp_fee_limit_msat = 10, sp_timeout_seconds = 30,
         sp_no_inflight_updates = False\<rparr>) 5000000100 of
      Reply items \<Rightarrow> consume_payment_stream example_ext example_encode (from_secs 5)
        ''pay invoice'' example_hash (Some 2500) True items
    | outcome \<Rightarrow> and_then (bounded_mutating_request_until example_ext ''pay invoice''
        (Some (lowercase_hex example_hash)) outcome) (\<lambda>_. Ok example_record))"
proof -
  have "proto_send_payment_request (example_bolt11 example_hash) example_options
    = Ok \<lparr>sp_payment_request = ''lnbcrt25n1'', sp_fee_limit_msat = 10, sp_timeout_seconds = 30,
         sp_no_inflight_updates = False\<rparr>"
    by (simp add: proto_send_payment_request_def example_bolt11_def example_options_def
        signed_i64_def i64_of_u64_def nonzero_whole_seconds_def from_secs_def i32_of_u64_def)
  then show ?thesis
    using example_deadline
    by (simp add: pay_invoice_with_def Let_def authenticated_mutating_request_until_def
        bounded_mutating_request_until_def split: reply.splits)
qed

lemma pay_invoice_success_witness:
  "\<exists>r. pay_invoice_with example_ext example_encode example_clock example_client
      (\<lambda>_ _. Reply example_items) (example_bolt11 example_hash) example_options = Ok r
    \<and> b11_amount_milli_satoshis (example_bolt11 example_hash) = Some (msat_as_u64 (pr_value r))"
proof -
  have run: "pay_invoice_with example_ext example_encode example_clock example_client
      (\<lambda>_ _. Reply example_items) (example_bolt11 example_hash) example_options
      = Ok example_record"
    by (simp add: example_pay example_run)
  then show ?thesis
    using pay_invoice_success [OF run] by blast
qed

lemma pay_invoice_failure_witness:
  "\<exists>e. pay_invoice_with example_ext example_encode example_clock example_client
      (\<lambda>_ _. Elapsed) (example_bolt11 example_hash) example_options = Err e
    \<and> \<not> is_Timeout e \<and> \<not> is_Transport e"
proof -
  have "\<exists>e. pay_invoice_with example_ext example_encode example_clock example_client
      (\<lambda>_ _. Elapsed) (example_bolt11 example_hash) example_options = Err e"
    by (simp add: example_pay bounded_mutating_request_until_def)
  then obtain e where run: "pay_invoice_with example_ext example_encode example_clock
      example_client (\<lambda>_ _. Elapsed) (example_bolt11 example_hash) example_options = Err e" ..
  then show ?thesis
    using pay_invoice_failure_is_classified [OF run] by blast
qed

lemma terminal_outcome_survives_loss_witness:
  "consume_payment_stream example_ext example_encode (from_secs 5) ''pay invoice'' example_hash (Some 2500) True
     (updates [example_update 1] @ updates [example_update 3]
       @ [Refused (example_status Code_Unavailable)])
   = Err (PaymentFailed example_hash ''no route'')"
  using terminal_outcome_survives_loss [of "[example_update 1]" example_ext "''pay invoice''"
      example_hash "Some 2500" "example_update 3" "TerminalFailed example_hash ''no route''"
      "[]" example_encode "from_secs 5" True "example_status Code_Unavailable" "[]"]
  by (simp add: example_pending example_failed del: consume_updates.simps)

lemma contradictory_update_witness:
  "\<exists>detail. consume_payment_stream example_ext example_encode (from_secs 5) ''pay invoice'' example_hash
      (Some 2500) True
      (updates [example_update 1] @ updates [example_update 2]
        @ Reply (Some (example_update 3)) # [])
    = Err (InvalidResponse ''pay invoice'' detail
        (Some (sha256_to_string example_ext example_hash)))"
proof (rule contradictory_update_is_rejected [where t = "TerminalSucceeded example_record"])
  show "pending_update example_ext ''pay invoice'' example_hash (Some 2500) (example_update 3)
    \<or> (\<exists>t'. terminal_update example_ext ''pay invoice'' example_hash (Some 2500)
          (example_update 3) t')
      \<and> example_encode (example_update 3) \<noteq> example_encode (example_update 2)"
    using example_failed [of "''pay invoice''"] by (auto simp: example_encode_def example_update_def)
qed (simp_all add: example_pending example_terminal)


definition example_invoice_request :: create_invoice_request where
  "example_invoice_request = \<lparr>cir_amount = Millisats 2500, cir_memo = ''coffee'',
     cir_expiry = from_secs 3600\<rparr>"

definition example_invoice_record :: invoice_record where
  "example_invoice_record = \<lparr>inv_invoice = example_bolt11 example_hash,
     inv_payment_hash = example_hash, inv_amount = Millisats 2500, inv_state = InvoiceOpen\<rparr>"

lemma example_create_invoice:
  "create_invoice_with example_ext example_clock example_client
     (\<lambda>_ _. Reply \<lparr>pb_add_r_hash = example_hash, pb_add_payment_request = ''lnbcrt25n1''\<rparr>)
     example_invoice_request = Ok example_invoice_record"
  by (simp add: create_invoice_with_def Let_def example_invoice_request_def
      proto_invoice_request_def signed_i64_def i64_of_u64_def nonzero_whole_seconds_def
      u64_of_i64_def sint_neg_iff authenticated_mutating_request_def
      example_deadline [simplified] authenticated_mutating_request_until_def
      bounded_mutating_request_until_def created_invoice_def response_hash_def example_ext_def
      checked_invoice_record_def example_bolt11_def example_invoice_record_def)

lemma create_invoice_success_witness:
  "\<exists>r. create_invoice_with example_ext example_clock example_client
      (\<lambda>_ _. Reply \<lparr>pb_add_r_hash = example_hash, pb_add_payment_request = ''lnbcrt25n1''\<rparr>)
      example_invoice_request = Ok r \<and> inv_state r = InvoiceOpen"
  using create_invoice_success [OF example_create_invoice] example_create_invoice by blast

lemma payment_stream_succeeds_witness:
  "consume_payment_stream example_ext example_encode (from_secs 5) ''pay invoice'' example_hash (Some 2500) True
     example_items = Ok example_record"
proof (rule payment_stream_succeeds_iff [THEN iffD2], intro exI conjI)
  show "example_items = updates [example_update 1]
    @ updates (example_update 2 # [example_update 2]) @ [Elapsed]"
    by (simp add: example_items_def)
qed (simp_all add: example_pending example_terminal example_repeated)

end
