(* ===== verification/Lnd_Channel.thy ===== *)
theory Lnd_Channel
  imports Lnd_Payment
begin

text \<open>
  \<open>channel.rs\<close>: opening a channel, which commits funds as soon as the node reports the
  funding transaction as pending, and listing channels. The update stream is modelled as for
  payments.
\<close>

section \<open>Messages\<close>

record pending_update_msg =
  pu_txid :: "u8 list"
  pu_output_index :: u32

datatype open_update =
    ChanPending pending_update_msg
  | ChanOpen "pb_channel_point_msg option"
  | PsbtFund

text \<open>An \<open>OpenStatusUpdate\<close> carries at most one of the three.\<close>

type_synonym open_items = "open_update option option reply list"

record proto_open_channel =
  oc_node_pubkey :: "u8 list"
  oc_local_funding_amount :: i64
  oc_push_sat :: i64
  oc_private :: bool

definition proto_open_channel_request ::
  "ext \<Rightarrow> open_channel_request \<Rightarrow> lnd_error + proto_open_channel"
where
  "proto_open_channel_request x request =
     and_then (ok_or (i64_of_u64 (sats_as_u64 (ocr_capacity request)))
       (InvalidRequest ''channel capacity exceeds LND's signed amount range'')) (\<lambda>funding.
     and_then (ok_or (i64_of_u64 (sats_as_u64 (ocr_push_amount request)))
       (InvalidRequest ''channel push amount exceeds LND's signed amount range'')) (\<lambda>push.
       Ok \<lparr>oc_node_pubkey = public_key_serialize x (ocr_peer_public_key request),
           oc_local_funding_amount = funding, oc_push_sat = push, oc_private = False\<rparr>))"

definition invalid_open_response :: "ext \<Rightarrow> string \<Rightarrow> out_point option \<Rightarrow> lnd_error" where
  "invalid_open_response x detail point =
     (case invalid_response ''open channel'' detail of
        InvalidResponse operation d identifier \<Rightarrow>
          InvalidResponse operation d (map_option (out_point_to_string x) point)
      | e \<Rightarrow> e)"

definition unknown_open_outcome :: "ext \<Rightarrow> out_point \<Rightarrow> lnd_error" where
  "unknown_open_outcome x point =
     OutcomeUnknown ''open channel'' (Some (out_point_to_string x point))"

section \<open>The loop\<close>

text \<open>What one update does: the new pending point to go on with, or the opened one.\<close>

definition open_step ::
  "ext \<Rightarrow> out_point option \<Rightarrow> open_update option \<Rightarrow> lnd_error + (out_point + out_point)"
where
  "open_step x pending_point update =
     (case update of
        Some (ChanPending pending) \<Rightarrow>
          and_then (convert_channel_point x
              \<lparr>pb_funding_txid = Some (FundingTxidBytes (pu_txid pending)),
               pb_output_index = pu_output_index pending\<rparr>) (\<lambda>point.
            if (case pending_point of None \<Rightarrow> False | Some existing \<Rightarrow> existing \<noteq> point)
            then Err (invalid_open_response x
                   ''pending channel point changed during channel opening'' pending_point)
            else Ok (Inl point))
      | Some (ChanOpen opened) \<Rightarrow>
          and_then (and_then (ok_or opened
                (invalid_open_response x ''opened channel point is missing'' pending_point))
              (convert_channel_point x)) (\<lambda>point.
            if (case pending_point of None \<Rightarrow> False | Some pending \<Rightarrow> pending \<noteq> point)
            then Err (invalid_open_response x
                   ''pending and opened channel points do not match'' pending_point)
            else Ok (Inr point))
      | Some PsbtFund \<Rightarrow>
          Err (invalid_open_response x
            ''unexpected PSBT funding state for a wallet-funded channel'' pending_point)
      | None \<Rightarrow> Err (invalid_open_response x ''channel update has no state'' pending_point))"

text \<open>The next message, awaited as a mutation until a pending point is known.\<close>

definition next_open_message ::
  "ext \<Rightarrow> duration \<Rightarrow> out_point option \<Rightarrow> 'r reply \<Rightarrow> lnd_error + 'r"
where
  "next_open_message x configured pending_point item =
     (case pending_point of
        Some _ \<Rightarrow> bounded_request_until x configured ''open channel'' item
      | None \<Rightarrow> bounded_mutating_request_until x ''open channel'' None item)"

definition open_stream_error ::
  "ext \<Rightarrow> out_point option \<Rightarrow> lnd_error \<Rightarrow> lnd_error + out_point"
where
  "open_stream_error x pending_point e =
     (case pending_point of Some point \<Rightarrow> Err (unknown_open_outcome x point) | None \<Rightarrow> Err e)"

fun consume_open_updates ::
  "ext \<Rightarrow> duration \<Rightarrow> out_point option \<Rightarrow> open_items \<Rightarrow> lnd_error + out_point"
where
  "consume_open_updates x configured pending_point [] =
     (case next_open_message x configured pending_point (Elapsed :: unit reply) of
        Err e \<Rightarrow> open_stream_error x pending_point e
      | Ok u \<Rightarrow> Err (invalid_open_response x
                 ''channel stream ended before the channel opened'' pending_point))"
| "consume_open_updates x configured pending_point (item # items) =
     (case next_open_message x configured pending_point item of
        Err e \<Rightarrow> open_stream_error x pending_point e
      | Ok None \<Rightarrow> Err (invalid_open_response x
                      ''channel stream ended before the channel opened'' pending_point)
      | Ok (Some update) \<Rightarrow>
          (case open_step x pending_point update of
             Err e \<Rightarrow> Err e
           | Ok (Inl point) \<Rightarrow> consume_open_updates x configured (Some point) items
           | Ok (Inr point) \<Rightarrow> Ok point))"

definition open_channel_with ::
  "ext \<Rightarrow> clock \<Rightarrow> client_inner \<Rightarrow> (proto_open_channel, open_items) call \<Rightarrow> open_channel_request
     \<Rightarrow> lnd_error + out_point"
where
  "open_channel_with x clk inner open_channel open_request =
     and_then (proto_open_channel_request x open_request) (\<lambda>request.
     and_then (operation_deadline clk (ci_timeout inner)) (\<lambda>deadline.
     and_then (authenticated_mutating_request_until x inner deadline ''open channel'' None request
                 open_channel) (\<lambda>stream.
       consume_open_updates x (ci_timeout inner) None stream)))"

definition list_channels_with ::
  "ext \<Rightarrow> clock \<Rightarrow> client_inner \<Rightarrow> (unit, pb_channel list) call \<Rightarrow> lnd_error + channel list"
where
  "list_channels_with x clk inner list_channels =
     and_then (authenticated_request x clk inner ''list channels'' () list_channels) (\<lambda>channels.
       try_map (convert_channel x) channels)"

section \<open>One update\<close>

lemma invalid_open_response_eq:
  "invalid_open_response x detail point =
     InvalidResponse ''open channel'' detail (map_option (out_point_to_string x) point)"
  by (simp add: invalid_open_response_def invalid_response_def
      invalid_response_with_identifier_def)

definition reports_pending :: "ext \<Rightarrow> out_point \<Rightarrow> open_update \<Rightarrow> bool" where
  "reports_pending x point u \<longleftrightarrow>
     (\<exists>p. u = ChanPending p
        \<and> convert_channel_point x \<lparr>pb_funding_txid = Some (FundingTxidBytes (pu_txid p)),
             pb_output_index = pu_output_index p\<rparr> = Ok point)"

definition reports_open :: "ext \<Rightarrow> out_point \<Rightarrow> open_update \<Rightarrow> bool" where
  "reports_open x point u \<longleftrightarrow>
     (\<exists>m. u = ChanOpen (Some m) \<and> convert_channel_point x m = Ok point)"

lemma open_step_Inl:
  "open_step x pending u = Ok (Inl point) \<longleftrightarrow>
     (\<exists>v. u = Some v \<and> reports_pending x point v) \<and> (pending = None \<or> pending = Some point)"
  by (auto simp: open_step_def reports_pending_def result_simps
      split: option.splits open_update.splits)

lemma open_step_Inr:
  "open_step x pending u = Ok (Inr point) \<longleftrightarrow>
     (\<exists>v. u = Some v \<and> reports_open x point v) \<and> (pending = None \<or> pending = Some point)"
  by (auto simp: open_step_def reports_open_def result_simps
      split: option.splits open_update.splits)

lemma convert_channel_point_Err:
  "convert_channel_point x m = Err e \<Longrightarrow>
     \<exists>detail. e = InvalidResponse ''open channel'' detail None"
  by (auto simp: convert_channel_point_def result_simps invalid_response_def
      invalid_response_with_identifier_def split: option.splits funding_txid.splits)

lemma open_step_Err:
  assumes "open_step x pending u = Err e"
  shows "\<exists>detail identifier. e = InvalidResponse ''open channel'' detail identifier
    \<and> (identifier = map_option (out_point_to_string x) pending \<or> identifier = None)"
  using assms
  by (auto simp: open_step_def result_simps invalid_open_response_eq
      split: option.splits open_update.splits if_splits dest!: convert_channel_point_Err)

lemma next_open_message_Reply [simp]: "next_open_message x d pending (Reply m) = Ok m"
  by (auto simp: next_open_message_def bounded_mutating_request_until_def split: option.splits)

lemma next_open_message_Ok: "next_open_message x d pending item = Ok m \<longleftrightarrow> item = Reply m"
  by (auto simp: next_open_message_def result_simps split: option.splits)

section \<open>The whole stream\<close>

abbreviation open_updates :: "open_update list \<Rightarrow> open_items" where
  "open_updates us \<equiv> map (\<lambda>u. Reply (Some (Some u))) us"

lemma consume_open_updates_Ok:
  "consume_open_updates x d pending items = Ok point \<longleftrightarrow>
     (pending = None \<or> pending = Some point)
     \<and> (\<exists>before u rest. items = open_updates before @ Reply (Some (Some u)) # rest
          \<and> (\<forall>v \<in> set before. reports_pending x point v) \<and> reports_open x point u)"
proof (induction items arbitrary: pending)
  case Nil
  show ?case
    by (auto simp: next_open_message_def open_stream_error_def bounded_mutating_request_until_def
        split: option.splits)
next
  case (Cons item items)
  show ?case (is "?run \<longleftrightarrow> ?pending \<and> ?shape (item # items)")
  proof
    assume ?run
    then obtain u where item: "item = Reply (Some u)"
      by (auto simp: open_stream_error_def next_open_message_Ok split: sum.splits option.splits)
    show "?pending \<and> ?shape (item # items)"
    proof (cases "open_step x pending u")
      case (Inl e)
      then show ?thesis using \<open>?run\<close> item by simp
    next
      case (Inr outcome)
      show ?thesis
      proof (cases outcome)
        case (Inl p)
        then obtain v where v: "u = Some v" "reports_pending x p v"
          and pending: "pending = None \<or> pending = Some p"
          using Inr open_step_Inl by blast
        have "consume_open_updates x d (Some p) items = Ok point"
          using \<open>?run\<close> item Inr Inl by simp
        then have "p = point" and "?shape items"
          using Cons.IH by blast+
        then obtain before w rest where "items = open_updates before @ Reply (Some (Some w)) # rest"
          "\<forall>v \<in> set before. reports_pending x point v" "reports_open x point w"
          by blast
        then have "?shape (item # items)"
          using item v \<open>p = point\<close>
          by (intro exI [of _ "v # before"] exI [of _ w] exI [of _ rest]) simp
        then show ?thesis using pending \<open>p = point\<close> by blast
      next
        case (Inr p)
        then have "open_step x pending u = Ok (Inr point)"
          using \<open>?run\<close> item \<open>open_step x pending u = Inr outcome\<close> by simp
        then obtain v where "u = Some v" "reports_open x point v"
          "pending = None \<or> pending = Some point"
          using open_step_Inr by blast
        moreover from this have "?shape (item # items)"
          using item by (intro exI [of _ "[]"] exI [of _ v] exI [of _ items]) simp
        ultimately show ?thesis by blast
      qed
    qed
  next
    assume shape: "?pending \<and> ?shape (item # items)"
    then obtain before u rest
      where items: "item # items = open_updates before @ Reply (Some (Some u)) # rest"
      and before: "\<forall>v \<in> set before. reports_pending x point v" and u: "reports_open x point u"
      by blast
    show ?run
    proof (cases before)
      case Nil
      then have "open_step x pending (Some u) = Ok (Inr point)"
        using shape u open_step_Inr by blast
      then show ?thesis using items Nil by simp
    next
      case (Cons v vs)
      then have "open_step x pending (Some v) = Ok (Inl point)"
        using shape before open_step_Inl by (metis list.set_intros(1))
      moreover have "consume_open_updates x d (Some point) items = Ok point"
        unfolding Cons.IH using items before u Cons by auto
      ultimately show ?thesis using items Cons by simp
    qed
  qed
qed

text \<open>Which errors can follow once the funding transaction is known.\<close>

definition open_error_ok :: "ext \<Rightarrow> out_point \<Rightarrow> lnd_error \<Rightarrow> bool" where
  "open_error_ok x point e \<longleftrightarrow>
     e = OutcomeUnknown ''open channel'' (Some (out_point_to_string x point))
     \<or> (\<exists>detail. e = InvalidResponse ''open channel'' detail (Some (out_point_to_string x point)))
     \<or> (\<exists>detail. e = InvalidResponse ''open channel'' detail None)"

lemma consume_open_updates_Err:
  assumes "consume_open_updates x d (Some point) items = Err e"
  shows "open_error_ok x point e"
  using assms
proof (induction items)
  case Nil
  then show ?case
    by (auto simp: next_open_message_def open_stream_error_def unknown_open_outcome_def
        open_error_ok_def)
next
  case (Cons item items)
  show ?case
  proof (cases "next_open_message x d (Some point) item")
    case (Inl err)
    then show ?thesis
      using Cons.prems by (simp add: open_stream_error_def unknown_open_outcome_def open_error_ok_def)
  next
    case (Inr message)
    show ?thesis
    proof (cases message)
      case None
      then show ?thesis
        using Cons.prems Inr by (auto simp: invalid_open_response_eq open_error_ok_def)
    next
      case (Some update)
      show ?thesis
      proof (cases "open_step x (Some point) update")
        case (Inl err)
        then show ?thesis
          using Cons.prems Inr Some open_step_Err [OF Inl] by (auto simp: open_error_ok_def)
      next
        case step: (Inr outcome)
        then obtain p where "outcome = Inl p"
          using Cons.prems Inr Some by (cases outcome) auto
        moreover from this have "p = point"
          using step open_step_Inl by fastforce
        ultimately show ?thesis
          using Cons.IH Cons.prems Inr Some step by simp
      qed
    qed
  qed
qed

section \<open>The operations\<close>

lemma proto_open_channel_request_Ok:
  "proto_open_channel_request x request = Ok p \<longleftrightarrow>
     unat (sats_as_u64 (ocr_capacity request)) < 2 ^ 63
     \<and> unat (sats_as_u64 (ocr_push_amount request)) < 2 ^ 63
     \<and> p = \<lparr>oc_node_pubkey = public_key_serialize x (ocr_peer_public_key request),
           oc_local_funding_amount = sats_as_u64 (ocr_capacity request),
           oc_push_sat = sats_as_u64 (ocr_push_amount request), oc_private = False\<rparr>"
  by (auto simp: proto_open_channel_request_def result_simps int_simps)

lemma open_channel_with_dispatched:
  assumes "proto_open_channel_request x request = Ok message"
    and "operation_deadline clk (ci_timeout inner) = Ok deadline"
    and "open_channel (with_macaroon inner message) deadline = Reply items"
  shows "open_channel_with x clk inner open_channel request
    = consume_open_updates x (ci_timeout inner) None items"
  using assms
  by (simp add: open_channel_with_def authenticated_mutating_request_until_def
      bounded_mutating_request_until_def)

text \<open>
  C7: opening a channel returns an outpoint exactly when the request fits the wire and the
  stream's first updates all report this same outpoint as pending and the next one reports it as
  open; nothing else the node may send ends in success.
\<close>

theorem open_channel_succeeds_iff:
  "open_channel_with x clk inner open_channel request = Ok point \<longleftrightarrow>
     (\<exists>message items before u rest.
        proto_open_channel_request x request = Ok message
        \<and> clock_now clk + as_nanos (ci_timeout inner) \<le> clock_last clk
        \<and> open_channel (with_macaroon inner message)
             (clock_now clk + as_nanos (ci_timeout inner)) = Reply items
        \<and> items = open_updates before @ Reply (Some (Some u)) # rest
        \<and> (\<forall>v \<in> set before. reports_pending x point v) \<and> reports_open x point u)"
  by (auto simp: open_channel_with_def result_simps operation_deadline_Ok
      authenticated_mutating_request_until_def consume_open_updates_Ok)

text \<open>
  C8: once the node has reported the funding transaction as pending, no failure of the operation is
  a timeout, a transport error or a status: it is an unknown outcome that names the channel point,
  or an invalid response; and losing the stream right there is the unknown outcome.
\<close>

theorem pending_channel_is_never_lost:
  assumes "proto_open_channel_request x request = Ok message"
    and "clock_now clk + as_nanos (ci_timeout inner) \<le> clock_last clk"
    and "open_channel (with_macaroon inner message)
        (clock_now clk + as_nanos (ci_timeout inner)) = Reply (Reply (Some (Some v)) # items)"
    and "reports_pending x point v"
  shows "(\<forall>e. open_channel_with x clk inner open_channel request = Err e \<longrightarrow>
      e = OutcomeUnknown ''open channel'' (Some (out_point_to_string x point))
      \<or> (\<exists>detail identifier. e = InvalidResponse ''open channel'' detail identifier
           \<and> (identifier = Some (out_point_to_string x point) \<or> identifier = None)))
    \<and> (items = [] \<or> (\<exists>st rest. items = Refused st # rest) \<longrightarrow>
         open_channel_with x clk inner open_channel request
           = Err (OutcomeUnknown ''open channel'' (Some (out_point_to_string x point))))"
proof -
  have deadline: "operation_deadline clk (ci_timeout inner)
      = Ok (clock_now clk + as_nanos (ci_timeout inner))"
    using assms(2) by (simp add: operation_deadline_Ok)
  have "open_step x None (Some v) = Ok (Inl point)"
    using assms(4) open_step_Inl by blast
  then have "open_channel_with x clk inner open_channel request
      = consume_open_updates x (ci_timeout inner) (Some point) items"
    using open_channel_with_dispatched [OF assms(1) deadline, where open_channel = open_channel,
        OF assms(3)] by simp
  moreover have "consume_open_updates x (ci_timeout inner) (Some point) items
      = Err (OutcomeUnknown ''open channel'' (Some (out_point_to_string x point)))"
    if "items = [] \<or> (\<exists>st rest. items = Refused st # rest)"
    using that
    by (auto simp: next_open_message_def open_stream_error_def unknown_open_outcome_def)
  ultimately show ?thesis
    using consume_open_updates_Err unfolding open_error_ok_def by metis
qed

text \<open>
  The wire amounts of an accepted channel request are the requested ones, both not negative
  when read as signed, and the push amount is below the capacity there too; the second range check
  can never fail.
\<close>

theorem open_request_wire_amounts:
  assumes "OpenChannelRequest_new key capacity push = Ok request"
    and "unat (sats_as_u64 capacity) < 2 ^ 63"
  shows "\<exists>p. proto_open_channel_request x request = Ok p
    \<and> 0 \<le> sint (oc_push_sat p) \<and> sint (oc_push_sat p) < sint (oc_local_funding_amount p)
    \<and> sint (oc_local_funding_amount p) = int (unat (sats_as_u64 capacity))
    \<and> sint (oc_push_sat p) = int (unat (sats_as_u64 push))"
proof -
  have r: "request = \<lparr>ocr_peer_public_key = key, ocr_capacity = capacity, ocr_push_amount = push\<rparr>"
    and less: "unat (sats_as_u64 push) < unat (sats_as_u64 capacity)"
    using assms(1)
    by (auto simp: OpenChannelRequest_new_ok open_channel_request_ok_def less_sats_def
        word_less_nat_alt)
  have "0 \<le> sint (sats_as_u64 push)" and "0 \<le> sint (sats_as_u64 capacity)"
    using less assms(2) by (simp_all add: sint_nonneg_iff)
  moreover have "uint (sats_as_u64 push) < uint (sats_as_u64 capacity)"
    using less unfolding word_less_nat_alt [symmetric] word_less_def .
  ultimately show ?thesis
    using r less assms(2) by (simp add: proto_open_channel_request_Ok sint_nonneg_eq)
qed

text \<open>
  Every listed channel was accepted by the converter: listing succeeds only when each entry is
  well formed, in the order of the response, with balances within capacity.
\<close>

theorem list_channels_all_valid:
  assumes "list_channels_with x clk inner list_channels = Ok channels"
  shows "\<exists>messages. list_channels (with_macaroon inner ())
        (clock_now clk + as_nanos (ci_timeout inner)) = Reply messages
    \<and> list_all2 (\<lambda>m c. convert_channel x m = Ok c \<and> channel_ok c) messages channels"
proof -
  obtain messages where "list_channels (with_macaroon inner ())
        (clock_now clk + as_nanos (ci_timeout inner)) = Reply messages"
    and "list_all2 (\<lambda>m c. convert_channel x m = Ok c) messages channels"
    using assms
    by (auto simp: list_channels_with_def result_simps authenticated_request_def
        authenticated_request_until_def operation_deadline_Ok try_map_eq_Ok)
  then show ?thesis
    using convert_channel_Ok by (auto elim: list_all2_mono)
qed


section \<open>A concrete channel\<close>

definition example_point :: out_point where
  "example_point = \<lparr>op_txid = replicate 32 1, op_vout = 0\<rparr>"

definition example_pending_update :: open_update where
  "example_pending_update = ChanPending \<lparr>pu_txid = replicate 32 1, pu_output_index = 0\<rparr>"

definition example_open_request :: open_channel_request where
  "example_open_request = \<lparr>ocr_peer_public_key = [2], ocr_capacity = Sats 100000,
     ocr_push_amount = Sats 1000\<rparr>"

lemma example_reports_pending:
  "reports_pending example_ext example_point example_pending_update"
  by (simp add: reports_pending_def convert_channel_point_def example_ext_def example_point_def
      example_pending_update_def)

lemma pending_channel_witness:
  "open_channel_with example_ext example_clock example_client
     (\<lambda>_ _. Reply [Reply (Some (Some example_pending_update))]) example_open_request
   = Err (OutcomeUnknown ''open channel'' (Some (out_point_to_string example_ext example_point)))"
proof -
  have "\<exists>message. proto_open_channel_request example_ext example_open_request = Ok message"
    by (simp add: proto_open_channel_request_Ok example_open_request_def)
  then obtain message where
    "proto_open_channel_request example_ext example_open_request = Ok message" ..
  then show ?thesis
    using pending_channel_is_never_lost [of example_ext example_open_request message example_clock
        example_client "\<lambda>_ _. Reply [Reply (Some (Some example_pending_update))]"
        example_pending_update "[]" example_point]
    by (simp add: example_reports_pending example_clock_def as_nanos_def)
qed

lemma open_request_wire_amounts_witness:
  "\<exists>p. proto_open_channel_request example_ext example_open_request = Ok p
     \<and> sint (oc_push_sat p) < sint (oc_local_funding_amount p)"
proof -
  have "OpenChannelRequest_new [2] (Sats 100000) (Sats 1000) = Ok example_open_request"
    by (simp add: OpenChannelRequest_new_ok open_channel_request_ok_def less_sats_def
        example_open_request_def)
  from open_request_wire_amounts [OF this, of example_ext] show ?thesis
    by auto
qed

lemma list_channels_witness:
  "\<exists>channels. list_channels_with example_ext example_clock example_client
      (\<lambda>_ _. Reply [example_pb_channel]) = Ok channels \<and> length channels = 1"
proof -
  obtain c where "convert_channel example_ext example_pb_channel = Ok c"
    using example_channel_converted by (auto simp: is_ok_iff)
  then have run: "list_channels_with example_ext example_clock example_client
      (\<lambda>_ _. Reply [example_pb_channel]) = Ok [c]"
    using example_deadline
    by (simp add: list_channels_with_def authenticated_request_def authenticated_request_until_def)
  from list_channels_all_valid [OF run] show ?thesis
    using run by (auto dest: list_all2_lengthD)
qed

definition example_open_update :: open_update where
  "example_open_update = ChanOpen (Some
     \<lparr>pb_funding_txid = Some (FundingTxidBytes (replicate 32 1)), pb_output_index = 0\<rparr>)"

lemma example_reports_open: "reports_open example_ext example_point example_open_update"
  by (simp add: reports_open_def convert_channel_point_def example_ext_def example_point_def
      example_open_update_def)

lemma open_channel_succeeds_witness:
  "open_channel_with example_ext example_clock example_client
     (\<lambda>_ _. Reply [Reply (Some (Some example_pending_update)),
        Reply (Some (Some example_open_update))]) example_open_request = Ok example_point"
proof -
  obtain message where message:
    "proto_open_channel_request example_ext example_open_request = Ok message"
    by (simp add: proto_open_channel_request_Ok example_open_request_def)
  show ?thesis
    by (rule open_channel_succeeds_iff [THEN iffD2], rule exI [of _ message],
        rule exI [of _ "[Reply (Some (Some example_pending_update)),
          Reply (Some (Some example_open_update))]"],
        rule exI [of _ "[example_pending_update]"], rule exI [of _ example_open_update],
        rule exI [of _ "[]"])
      (simp add: message example_reports_pending example_reports_open example_clock_def
        as_nanos_def)
qed

end
