(* ===== verification/Lnd_Node.thy ===== *)
theory Lnd_Node
  imports Lnd_Channel
begin

text \<open>
  \<open>node.rs\<close>, \<open>client.rs\<close> and the trait \<open>LightningNode\<close> of \<open>lib.rs\<close>:
  the remaining requests, the client that opens its channel on first use, and what the trait
  promises to code that pays one node from another, as locales interpreted on the client.
\<close>

section \<open>Requests\<close>

record new_address_request =
  na_type :: i32
  na_account :: string

text \<open>\<open>AddressType::WitnessPubkeyHash\<close> is 0 in \<open>lightning.proto\<close>.\<close>

definition new_address_request :: new_address_request where
  "new_address_request = \<lparr>na_type = 0, na_account = []\<rparr>"

record wallet_balance_request =
  wbr_account :: string
  wbr_min_confs :: i32

definition wallet_balance_request :: wallet_balance_request where
  "wallet_balance_request = \<lparr>wbr_account = [], wbr_min_confs = 0\<rparr>"

record list_peers_request =
  lpr_latest_error :: bool

definition list_peers_request :: list_peers_request where
  "list_peers_request = \<lparr>lpr_latest_error = False\<rparr>"

record lightning_address =
  la_pubkey :: string
  la_host :: string

record connect_peer_msg =
  cp_addr :: "lightning_address option"
  cp_perm :: bool
  cp_timeout :: u64

definition connect_peer_request :: "ext \<Rightarrow> peer_address \<Rightarrow> connect_peer_msg" where
  "connect_peer_request x p =
     \<lparr>cp_addr = Some \<lparr>la_pubkey = public_key_to_string x (pa_public_key p),
                     la_host = serialize_peer_endpoint (pa_host p) (pa_port p)\<rparr>,
      cp_perm = False, cp_timeout = 0\<rparr>"

definition get_info_with ::
  "ext \<Rightarrow> clock \<Rightarrow> client_inner \<Rightarrow> (unit, pb_get_info) call \<Rightarrow> lnd_error + node_info"
where
  "get_info_with x clk inner get_info =
     and_then (authenticated_request x clk inner ''get info'' () get_info) (convert_node_info x)"

text \<open>Addresses belong to the \<open>bitcoin\<close> crate.\<close>

definition wallet_address :: "(string \<Rightarrow> 'a option) \<Rightarrow> string \<Rightarrow> lnd_error + 'a" where
  "wallet_address address_from_str response =
     ok_or (address_from_str response)
       (invalid_response ''new address'' ''wallet address is malformed'')"

definition new_address_with ::
  "ext \<Rightarrow> (string \<Rightarrow> 'a option) \<Rightarrow> clock \<Rightarrow> client_inner \<Rightarrow> (new_address_request, string) call
     \<Rightarrow> lnd_error + 'a"
where
  "new_address_with x address_from_str clk inner new_address =
     and_then (authenticated_request x clk inner ''new address'' new_address_request new_address)
       (wallet_address address_from_str)"

definition wallet_balance_with ::
  "ext \<Rightarrow> clock \<Rightarrow> client_inner \<Rightarrow> (wallet_balance_request, pb_wallet_balance) call
     \<Rightarrow> lnd_error + wallet_balance"
where
  "wallet_balance_with x clk inner wallet_balance =
     and_then (authenticated_request x clk inner ''wallet balance'' wallet_balance_request
                 wallet_balance) convert_wallet_balance"

definition connect_peer_with ::
  "ext \<Rightarrow> clock \<Rightarrow> client_inner \<Rightarrow> (connect_peer_msg, unit) call \<Rightarrow> peer_address
     \<Rightarrow> lnd_error + unit"
where
  "connect_peer_with x clk inner connect_peer p =
     and_then (authenticated_request x clk inner ''connect peer'' (connect_peer_request x p)
                 connect_peer) (\<lambda>_. Ok ())"

definition list_peers_with ::
  "ext \<Rightarrow> clock \<Rightarrow> client_inner \<Rightarrow> (list_peers_request, pb_peer list) call
     \<Rightarrow> lnd_error + peer list"
where
  "list_peers_with x clk inner list_peers =
     and_then (authenticated_request x clk inner ''list peers'' list_peers_request list_peers)
       (try_map (convert_peer x))"

section \<open>The client\<close>

text \<open>
  Every method opens the channel on first use, reuses it afterwards, and calls the service stub
  over it; the stub's calls are a function of the channel.
\<close>

type_synonym ('e, 'c) lnd_client = "('e, 'c) authenticated_client"

definition LndClient_with_config ::
  "('p, 's) rustls \<Rightarrow> 'e tonic \<Rightarrow> lnd_config \<Rightarrow> lnd_error + ('e, 'c) lnd_client"
where
  "LndClient_with_config r t config = ClientInner_authenticated r t config"

definition on_channel ::
  "('e \<Rightarrow> 'c) \<Rightarrow> ('e, 'c) lnd_client \<Rightarrow> ('c \<Rightarrow> client_inner \<Rightarrow> 'r) \<Rightarrow> 'r \<times> ('e, 'c) lnd_client"
where
  "on_channel connect_lazy client operation =
     (let (c, transport) = LazyChannel_channel connect_lazy (ac_transport client)
      in (operation c (ac_inner client), client\<lparr>ac_transport := transport\<rparr>))"

definition LndClient_get_info where
  "LndClient_get_info x clk connect_lazy get_info client =
     on_channel connect_lazy client (\<lambda>c inner. get_info_with x clk inner (get_info c))"

definition LndClient_wait_ready where
  "LndClient_wait_ready x clk connect_lazy get_info client =
     LndClient_get_info x clk connect_lazy get_info client"

definition LndClient_new_address where
  "LndClient_new_address x address_from_str clk connect_lazy new_address client =
     on_channel connect_lazy client
       (\<lambda>c inner. new_address_with x address_from_str clk inner (new_address c))"

definition LndClient_wallet_balance where
  "LndClient_wallet_balance x clk connect_lazy wallet_balance client =
     on_channel connect_lazy client (\<lambda>c inner. wallet_balance_with x clk inner (wallet_balance c))"

definition LndClient_connect_peer where
  "LndClient_connect_peer x clk connect_lazy connect_peer client p =
     on_channel connect_lazy client (\<lambda>c inner. connect_peer_with x clk inner (connect_peer c) p)"

definition LndClient_list_peers where
  "LndClient_list_peers x clk connect_lazy list_peers client =
     on_channel connect_lazy client (\<lambda>c inner. list_peers_with x clk inner (list_peers c))"

definition LndClient_open_channel where
  "LndClient_open_channel x clk connect_lazy open_channel client request =
     on_channel connect_lazy client
       (\<lambda>c inner. open_channel_with x clk inner (open_channel c) request)"

definition LndClient_list_channels where
  "LndClient_list_channels x clk connect_lazy list_channels client =
     on_channel connect_lazy client (\<lambda>c inner. list_channels_with x clk inner (list_channels c))"

definition LndClient_create_invoice where
  "LndClient_create_invoice x clk connect_lazy add_invoice client request =
     on_channel connect_lazy client
       (\<lambda>c inner. create_invoice_with x clk inner (add_invoice c) request)"

definition LndClient_lookup_invoice where
  "LndClient_lookup_invoice x clk connect_lazy lookup_invoice client payment_hash =
     on_channel connect_lazy client
       (\<lambda>c inner. lookup_invoice_with x clk inner (lookup_invoice c) payment_hash)"

definition LndClient_pay_invoice where
  "LndClient_pay_invoice x encode clk connect_lazy send_payment_v2 client invoice options =
     on_channel connect_lazy client
       (\<lambda>c inner. pay_invoice_with x encode clk inner (send_payment_v2 c) invoice options)"

definition LndClient_lookup_payment where
  "LndClient_lookup_payment x encode clk connect_lazy track_payment_v2 client payment_hash =
     on_channel connect_lazy client
       (\<lambda>c inner. lookup_payment_with x encode clk inner (track_payment_v2 c) payment_hash)"

text \<open>The identity and the endpoint of a client never change; a channel, once open, stays.\<close>

definition client_extends :: "('e, 'c) lnd_client \<Rightarrow> ('e, 'c) lnd_client \<Rightarrow> bool" where
  "client_extends old new \<longleftrightarrow>
     ac_inner new = ac_inner old \<and> lc_endpoint (ac_transport new) = lc_endpoint (ac_transport old)
     \<and> (\<forall>c. lc_channel (ac_transport old) = Some c \<longrightarrow> lc_channel (ac_transport new) = Some c)"

lemma on_channel_extends:
  "on_channel connect_lazy client operation = (r, client') \<Longrightarrow>
     client_extends client client'
     \<and> (\<exists>c. lc_channel (ac_transport client') = Some c \<and> r = operation c (ac_inner client)
          \<and> (lc_channel (ac_transport client) = None \<longrightarrow>
               c = connect_lazy (lc_endpoint (ac_transport client))))"
  by (auto simp: on_channel_def LazyChannel_channel_def Let_def client_extends_def
      split: option.splits prod.splits)

section \<open>What the trait promises\<close>

text \<open>
  The laws a holder of a \<open>LightningNode\<close> relies on, separately for the node that issues
  invoices and the node that pays them.
\<close>

locale invoice_issuer =
  fixes issue :: "create_invoice_request \<Rightarrow> lnd_error + invoice_record"
    and find_invoice :: "hash256 \<Rightarrow> lnd_error + invoice_record"
  assumes issued: "issue request = Ok r \<Longrightarrow>
      invoice_record_ok r \<and> inv_amount r = cir_amount request \<and> inv_state r = InvoiceOpen"
    and found: "find_invoice h = Ok r \<Longrightarrow> invoice_record_ok r \<and> inv_payment_hash r = h"
begin

lemma issued_encoding:
  assumes "issue request = Ok r"
  shows "b11_payment_hash (inv_invoice r) = inv_payment_hash r"
    and "b11_amount_milli_satoshis (inv_invoice r) = Some (msat_as_u64 (cir_amount request))"
  using issued [OF assms] by (auto simp: invoice_record_ok_def)

lemma found_again:
  assumes "issue request = Ok r" and "find_invoice (inv_payment_hash r) = Ok s"
  shows "b11_payment_hash (inv_invoice s) = b11_payment_hash (inv_invoice r)"
  using issued [OF assms(1)] found [OF assms(2)] by (auto simp: invoice_record_ok_def)

end

locale invoice_payer =
  fixes x :: ext
    and pay :: "bolt11_invoice \<Rightarrow> payment_options \<Rightarrow> lnd_error + payment_record"
    and track :: "hash256 \<Rightarrow> lnd_error + payment_record"
  assumes paid: "pay invoice options = Ok r \<Longrightarrow>
      record_of_request x (b11_payment_hash invoice) (b11_amount_milli_satoshis invoice) r"
    and tracked: "track h = Ok r \<Longrightarrow> record_of_request x h None r"
begin

lemma same_payment:
  assumes "pay invoice options = Ok r" and "track (b11_payment_hash invoice) = Ok s"
  shows "pr_payment_hash s = pr_payment_hash r \<and> payment_proven x s \<and> payment_proven x r"
  using paid [OF assms(1)] tracked [OF assms(2)] by (simp add: record_of_request_def)

end

locale paying_pair =
  invoice_issuer issue find_invoice + invoice_payer x pay track
  for issue find_invoice x pay track
begin

lemma settles:
  assumes "issue request = Ok i" and "pay (inv_invoice i) options = Ok r"
  shows "pr_value r = cir_amount request \<and> pr_payment_hash r = inv_payment_hash i
    \<and> payment_proven x r"
  using paid [OF assms(2)] issued_encoding [OF assms(1)]
  by (auto simp: record_of_request_def)

lemma settles_as_tracked:
  assumes "issue request = Ok i" and "track (inv_payment_hash i) = Ok r"
  shows "pr_payment_hash r = b11_payment_hash (inv_invoice i) \<and> payment_proven x r"
  using tracked [OF assms(2)] issued_encoding [OF assms(1)] by (auto simp: record_of_request_def)

end

lemma pay_invoice_with_record:
  assumes "pay_invoice_with x encode clk inner send invoice options = Ok r"
  shows "record_of_request x (b11_payment_hash invoice) (b11_amount_milli_satoshis invoice) r"
  using assms
proof (cases rule: pay_invoice_with_cases)
  case (streamed items)
  then show ?thesis
    using consume_payment_stream_ok [of x "''pay invoice''" "b11_payment_hash invoice"
        "b11_amount_milli_satoshis invoice" encode "ci_timeout inner" items]
    by (simp add: stream_result_ok_def flip: streamed(1))
qed simp_all

lemma lookup_payment_with_record:
  assumes "lookup_payment_with x encode clk inner track h = Ok r"
  shows "record_of_request x h None r"
proof -
  obtain items where "consume_payment_stream x encode (ci_timeout inner) ''lookup payment'' h None
      True items = Ok r"
    using assms by (auto simp: lookup_payment_with_def result_simps)
  then show ?thesis
    using consume_payment_stream_ok [of x "''lookup payment''" h None encode "ci_timeout inner"
        items]
    by (simp add: stream_result_ok_def)
qed

lemma create_invoice_with_record:
  assumes "create_invoice_with x clk inner add_invoice request = Ok r"
  shows "invoice_record_ok r \<and> inv_amount r = cir_amount request \<and> inv_state r = InvoiceOpen"
proof -
  obtain response where "created_invoice x response = Ok r" and "inv_amount r = cir_amount request"
    using assms by (auto simp: create_invoice_with_def Let_def result_simps)
  then show ?thesis
    using created_invoice_Ok by blast
qed

lemma lookup_invoice_with_record:
  assumes "lookup_invoice_with x clk inner lookup h = Ok r"
  shows "invoice_record_ok r \<and> inv_payment_hash r = h"
proof -
  obtain response where "convert_invoice x response = Ok r" and "inv_payment_hash r = h"
    using assms by (auto simp: lookup_invoice_with_def result_simps)
  then show ?thesis
    using convert_invoice_Ok by blast
qed

interpretation issuer: invoice_issuer
  "create_invoice_with x clk inner add_invoice" "lookup_invoice_with x clk inner lookup_invoice"
  for x clk inner add_invoice lookup_invoice
  by unfold_locales (auto dest: create_invoice_with_record lookup_invoice_with_record)

interpretation payer: invoice_payer
  x "pay_invoice_with x encode clk inner send_payment_v2"
  "lookup_payment_with x encode clk inner track_payment_v2"
  for x encode clk inner send_payment_v2 track_payment_v2
  by unfold_locales (auto dest: pay_invoice_with_record lookup_payment_with_record)

interpretation pair: paying_pair
  "create_invoice_with x payee_clk payee add_invoice"
  "lookup_invoice_with x payee_clk payee lookup_invoice"
  x "pay_invoice_with x encode clk inner send_payment_v2"
  "lookup_payment_with x encode clk inner track_payment_v2"
  for x payee_clk payee add_invoice lookup_invoice encode clk inner send_payment_v2
    track_payment_v2
  by unfold_locales

text \<open>
  C16: when one client issues an invoice and another pays it, success means that the requested
  amount was paid and that the payer holds a preimage of the hash the payee was given.
\<close>

theorem issued_invoice_settles:
  assumes "create_invoice_with x payee_clk payee add_invoice request = Ok i"
    and "pay_invoice_with x encode clk inner send_payment_v2 (inv_invoice i) options = Ok r"
  shows "pr_value r = cir_amount request \<and> pr_payment_hash r = inv_payment_hash i
    \<and> (\<exists>p. pr_preimage r = Some p \<and> sha256_hash x p = inv_payment_hash i)"
  using pair.settles [OF assms] by (auto simp: payment_proven_def)


lemma issued_invoice_settles_witness:
  "\<exists>i r. create_invoice_with example_ext example_clock example_client
      (\<lambda>_ _. Reply \<lparr>pb_add_r_hash = example_hash, pb_add_payment_request = ''lnbcrt25n1''\<rparr>)
      example_invoice_request = Ok i
    \<and> pay_invoice_with example_ext example_encode example_clock example_client
      (\<lambda>_ _. Reply example_items) (inv_invoice i) example_options = Ok r
    \<and> pr_value r = Millisats 2500"
proof -
  have pay: "pay_invoice_with example_ext example_encode example_clock example_client
      (\<lambda>_ _. Reply example_items) (inv_invoice example_invoice_record) example_options
      = Ok example_record"
    by (simp add: example_pay example_run example_invoice_record_def)
  from issued_invoice_settles [OF example_create_invoice pay] show ?thesis
    using example_create_invoice pay by (auto simp: example_invoice_request_def)
qed


end
