(* ===== verification/Lnd_Wallet.thy ===== *)
theory Lnd_Wallet
  imports Lnd_Node
begin

text \<open>
  \<open>wallet_unlocker.rs\<close>: creating a wallet. Sending \<open>InitWallet\<close> commits a seed that
  only the daemon will know, so the model keeps the requests that were sent next to the result.
\<close>

definition MIN_WALLET_PASSWORD_BYTES :: nat where
  "MIN_WALLET_PASSWORD_BYTES = 8"

definition MAX_WALLET_PASSWORD_BYTES :: nat where
  "MAX_WALLET_PASSWORD_BYTES = 65536"

definition CIPHER_SEED_WORDS :: nat where
  "CIPHER_SEED_WORDS = 24"

definition MAX_CIPHER_SEED_WORD_BYTES :: nat where
  "MAX_CIPHER_SEED_WORD_BYTES = 1024"

definition MAX_CIPHER_SEED_BYTES :: nat where
  "MAX_CIPHER_SEED_BYTES = CIPHER_SEED_WORDS * MAX_CIPHER_SEED_WORD_BYTES"

record lnd_bootstrap_config =
  bc_endpoint :: url
  bc_tls_certificate :: string
  bc_timeout :: duration

record gen_seed_request =
  gs_aezeed_passphrase :: "u8 list"
  gs_seed_entropy :: "u8 list"

record init_wallet_request =
  iw_wallet_password :: "u8 list"
  iw_cipher_seed_mnemonic :: "string list"
  iw_aezeed_passphrase :: "u8 list"
  iw_recovery_window :: i32
  iw_stateless_init :: bool

definition seed_invalid_response :: "string \<Rightarrow> lnd_error" where
  "seed_invalid_response detail = InvalidResponse ''generate wallet seed'' detail None"

definition uncertain_initialization :: lnd_error where
  "uncertain_initialization = OutcomeUnknown ''initialize wallet'' None"

definition validate_wallet_password :: "u8 list \<Rightarrow> lnd_error + unit" where
  "validate_wallet_password wallet_password =
     (if length wallet_password < MIN_WALLET_PASSWORD_BYTES
      then Err (invalid ''wallet password must contain at least 8 bytes'')
      else if length wallet_password > MAX_WALLET_PASSWORD_BYTES
      then Err (invalid ''wallet password exceeds the private bootstrap byte limit'')
      else Ok ())"

text \<open>The loop over the words, with the bytes seen so far.\<close>

fun validate_words :: "nat \<Rightarrow> string list \<Rightarrow> lnd_error + unit" where
  "validate_words so_far [] = Ok ()"
| "validate_words so_far (word # words) =
     (if word = [] \<or> length word > MAX_CIPHER_SEED_WORD_BYTES
      then Err (seed_invalid_response ''generated cipher seed word is invalid'')
      else if so_far + length word \<ge> 2 ^ 64
      then Err (seed_invalid_response ''generated cipher seed size overflowed'')
      else if so_far + length word > MAX_CIPHER_SEED_BYTES
      then Err (seed_invalid_response ''generated cipher seed exceeds its byte limit'')
      else validate_words (so_far + length word) words)"

definition validate_cipher_seed :: "string list \<Rightarrow> lnd_error + unit" where
  "validate_cipher_seed words =
     (if length words \<noteq> CIPHER_SEED_WORDS
      then Err (seed_invalid_response ''generated cipher seed must contain exactly 24 words'')
      else validate_words 0 words)"

definition validated_transport_config ::
  "(string \<Rightarrow> url option) \<Rightarrow> lnd_bootstrap_config \<Rightarrow> u8 list \<Rightarrow> lnd_error + tls_config"
where
  "validated_transport_config url_parse config wallet_password =
     and_then (validate_wallet_password wallet_password) (\<lambda>_.
       TlsConfig_from_url url_parse (bc_endpoint config) (bc_tls_certificate config)
         (bc_timeout config))"

datatype unlocker_call = GenSeed gen_seed_request | InitWallet init_wallet_request

definition init_wallet_request_for :: "u8 list \<Rightarrow> string list \<Rightarrow> init_wallet_request" where
  "init_wallet_request_for wallet_password seed =
     \<lparr>iw_wallet_password = wallet_password, iw_cipher_seed_mnemonic = seed,
      iw_aezeed_passphrase = [], iw_recovery_window = 0, iw_stateless_init = True\<rparr>"

text \<open>
  The service answers the two requests as functions of the request and the deadline; the calls are
  logged in the order they are made.
\<close>

definition initialize_wallet_validated ::
  "ext \<Rightarrow> clock \<Rightarrow> tls_config \<Rightarrow> u8 list
     \<Rightarrow> (gen_seed_request \<Rightarrow> nat \<Rightarrow> string list reply)
     \<Rightarrow> (init_wallet_request \<Rightarrow> nat \<Rightarrow> u8 list reply)
     \<Rightarrow> unlocker_call list \<times> (lnd_error + lnd_config)"
where
  "initialize_wallet_validated x clk validated wallet_password gen_seed init_wallet =
     (let timeout = tls_timeout validated in
      case operation_deadline clk timeout of
        Err e \<Rightarrow> ([], Err e)
      | Ok deadline \<Rightarrow>
          (let seed_request = \<lparr>gs_aezeed_passphrase = [], gs_seed_entropy = []\<rparr> in
           case and_then (bounded_request_until x timeout ''generate wallet seed''
                    (gen_seed seed_request deadline))
                  (\<lambda>seed. and_then (validate_cipher_seed seed) (\<lambda>_. Ok seed)) of
             Err e \<Rightarrow> ([GenSeed seed_request], Err e)
           | Ok seed \<Rightarrow>
               (let request = init_wallet_request_for wallet_password seed in
                ([GenSeed seed_request, InitWallet request],
                 and_then (map_err (\<lambda>_. uncertain_initialization)
                   (bounded_request_until x timeout ''initialize wallet''
                      (init_wallet request deadline))) (\<lambda>admin_macaroon.
                   if admin_macaroon = [] \<or> length admin_macaroon > MAX_MACAROON_BYTES
                   then Err uncertain_initialization
                   else LndConfig_authenticated validated admin_macaroon)))))"

definition initialize_wallet ::
  "ext \<Rightarrow> ('p, 's) rustls \<Rightarrow> 'e tonic \<Rightarrow> (string \<Rightarrow> url option) \<Rightarrow> clock \<Rightarrow> lnd_bootstrap_config
     \<Rightarrow> u8 list
     \<Rightarrow> ('e \<Rightarrow> (gen_seed_request \<Rightarrow> nat \<Rightarrow> string list reply)
              \<times> (init_wallet_request \<Rightarrow> nat \<Rightarrow> u8 list reply))
     \<Rightarrow> unlocker_call list \<times> (lnd_error + lnd_config)"
where
  "initialize_wallet x r t url_parse clk config wallet_password service =
     (case validated_transport_config url_parse config wallet_password of
        Err e \<Rightarrow> ([], Err e)
      | Ok validated \<Rightarrow>
          (case tls_endpoint r t validated of
             Err e \<Rightarrow> ([], Err e)
           | Ok endpoint \<Rightarrow>
               (case service endpoint of (gen_seed, init_wallet) \<Rightarrow>
                  initialize_wallet_validated x clk validated wallet_password gen_seed init_wallet)))"

section \<open>The seed\<close>

lemma validate_words_Ok:
  assumes "so_far + MAX_CIPHER_SEED_WORD_BYTES * length words \<le> MAX_CIPHER_SEED_BYTES"
  shows "validate_words so_far words = Ok () \<longleftrightarrow>
    list_all (\<lambda>w. w \<noteq> [] \<and> length w \<le> MAX_CIPHER_SEED_WORD_BYTES) words"
  using assms
proof (induction words arbitrary: so_far)
  case Nil
  then show ?case by simp
next
  case (Cons w ws)
  show ?case
  proof (cases "w \<noteq> [] \<and> length w \<le> MAX_CIPHER_SEED_WORD_BYTES")
    case True
    then have "so_far + length w + MAX_CIPHER_SEED_WORD_BYTES * length ws \<le> MAX_CIPHER_SEED_BYTES"
      using Cons.prems by simp
    moreover from this have "so_far + length w \<le> MAX_CIPHER_SEED_BYTES" by simp
    moreover have "MAX_CIPHER_SEED_BYTES < 2 ^ 64"
      by (simp add: MAX_CIPHER_SEED_BYTES_def CIPHER_SEED_WORDS_def MAX_CIPHER_SEED_WORD_BYTES_def)
    ultimately show ?thesis
      using True Cons.IH [of "so_far + length w"] by simp
  next
    case False
    then show ?thesis by auto
  qed
qed

lemma validate_cipher_seed_Ok:
  "validate_cipher_seed words = Ok () \<longleftrightarrow>
     length words = 24 \<and> list_all (\<lambda>w. w \<noteq> [] \<and> length w \<le> 1024) words"
proof (cases "length words = 24")
  case True
  then show ?thesis
    using validate_words_Ok [of 0 words]
    by (simp add: validate_cipher_seed_def CIPHER_SEED_WORDS_def MAX_CIPHER_SEED_BYTES_def
        MAX_CIPHER_SEED_WORD_BYTES_def)
qed (simp add: validate_cipher_seed_def CIPHER_SEED_WORDS_def)

lemma validate_words_Err:
  "validate_words n words = Err e \<Longrightarrow> is_InvalidResponse e"
  by (induction n words rule: validate_words.induct)
    (auto simp: seed_invalid_response_def split: if_splits)

lemma validate_cipher_seed_Err:
  "validate_cipher_seed words = Err e \<Longrightarrow> is_InvalidResponse e"
  by (auto simp: validate_cipher_seed_def seed_invalid_response_def dest: validate_words_Err
      split: if_splits)

section \<open>The commit point\<close>

lemma bounded_request_not_unknown:
  "bounded_request_until x d operation outcome = Err e \<Longrightarrow> \<not> is_OutcomeUnknown e"
  by (auto simp: bounded_request_until_def split: reply.splits)

lemma LndConfig_authenticated_Ok:
  assumes "tls_config_ok validated" and "macaroon \<noteq> []" and "length macaroon \<le> MAX_MACAROON_BYTES"
  shows "\<exists>c. LndConfig_authenticated validated macaroon = Ok c \<and> lnd_config_ok c"
  using assms
  by (simp add: LndConfig_authenticated_def validate_credential_def lnd_config_ok_def)

definition sent_init :: "unlocker_call list \<Rightarrow> bool" where
  "sent_init calls \<longleftrightarrow> (\<exists>request. InitWallet request \<in> set calls)"

lemma initialize_wallet_validated_calls:
  assumes "initialize_wallet_validated x clk validated wallet_password gen_seed init_wallet
      = (calls, res)" and "tls_config_ok validated"
  shows "(\<not> sent_init calls \<and> (\<exists>e. res = Err e \<and> \<not> is_OutcomeUnknown e))
    \<or> (\<exists>first seed. calls = [GenSeed first, InitWallet (init_wallet_request_for wallet_password seed)]
         \<and> validate_cipher_seed seed = Ok ()
         \<and> (res = Err uncertain_initialization \<or> (\<exists>c. res = Ok c \<and> lnd_config_ok c)))"
proof (cases "operation_deadline clk (tls_timeout validated)")
  case (Inl e)
  then have "calls = []" "res = Err e"
    using assms(1) by (simp_all add: initialize_wallet_validated_def)
  moreover have "\<not> is_OutcomeUnknown e"
    using operation_deadline_Err [OF Inl] by (cases e) auto
  ultimately show ?thesis by (simp add: sent_init_def)
next
  case deadline: (Inr deadline)
  let ?first = "\<lparr>gs_aezeed_passphrase = [], gs_seed_entropy = []\<rparr>"
  let ?seed = "and_then (bounded_request_until x (tls_timeout validated) ''generate wallet seed''
      (gen_seed ?first deadline))
    (\<lambda>seed. and_then (validate_cipher_seed seed) (\<lambda>_. Ok seed))"
  show ?thesis
  proof (cases ?seed)
    case (Inl e)
    then have "calls = [GenSeed ?first]" "res = Err e"
      using assms(1) deadline by (simp_all add: initialize_wallet_validated_def)
    moreover have "\<not> is_OutcomeUnknown e"
      using Inl
      by (auto simp: result_simps is_InvalidResponse_def
          dest!: bounded_request_not_unknown validate_cipher_seed_Err)
    ultimately show ?thesis by (simp add: sent_init_def)
  next
    case (Inr seed)
    let ?request = "init_wallet_request_for wallet_password seed"
    have calls: "calls = [GenSeed ?first, InitWallet ?request]"
      and res: "res = and_then (map_err (\<lambda>_. uncertain_initialization)
        (bounded_request_until x (tls_timeout validated) ''initialize wallet''
          (init_wallet ?request deadline)))
        (\<lambda>m. if m = [] \<or> length m > MAX_MACAROON_BYTES then Err uncertain_initialization
             else LndConfig_authenticated validated m)"
      using assms(1) deadline Inr by (auto simp: initialize_wallet_validated_def Let_def)
    have "validate_cipher_seed seed = Ok ()"
      using Inr by (auto simp: result_simps)
    moreover have "res = Err uncertain_initialization \<or> (\<exists>c. res = Ok c \<and> lnd_config_ok c)"
    proof (cases "bounded_request_until x (tls_timeout validated) ''initialize wallet''
        (init_wallet ?request deadline)")
      case (Inl e)
      then show ?thesis using res by simp
    next
      case (Inr m)
      then show ?thesis
        using res LndConfig_authenticated_Ok [OF assms(2), of m] by (auto simp: not_less)
    qed
    ultimately show ?thesis
      using calls by blast
  qed
qed

lemma validated_transport_config_Ok:
  assumes "validated_transport_config url_parse config wallet_password = Ok validated"
  shows "tls_config_ok validated \<and> 8 \<le> length wallet_password \<and> length wallet_password \<le> 65536"
  using assms TlsConfig_new_Ok
  by (fastforce simp: validated_transport_config_def TlsConfig_from_url_def result_simps
      validate_wallet_password_def MIN_WALLET_PASSWORD_BYTES_def MAX_WALLET_PASSWORD_BYTES_def
      split: if_splits)

lemma endpoint_errors_not_unknown:
  "tls_endpoint r t config = Err e \<Longrightarrow> \<not> is_OutcomeUnknown e"
  by (auto simp: tls_endpoint_def Let_def result_simps invalid_transport_configuration_def
      PinnedServerCertificate_new_def)

lemma validate_authority_Err: "validate_authority authority = Err e \<Longrightarrow> is_InvalidRequest e"
  by (auto simp: validate_authority_def result_simps split: if_splits option.splits)

lemma original_authority_Err: "original_authority endpoint = Err e \<Longrightarrow> is_InvalidRequest e"
  by (auto simp: original_authority_def result_simps)

lemma validate_endpoint_Err: "validate_endpoint url_parse endpoint = Err e \<Longrightarrow> is_InvalidRequest e"
proof -
  assume failed: "validate_endpoint url_parse endpoint = Err e"
  show ?thesis
  proof (cases "original_authority endpoint")
    case (Inl d)
    then show ?thesis
      using failed original_authority_Err [OF Inl] by (simp add: validate_endpoint_def)
  next
    case authority: (Inr authority)
    show ?thesis
    proof (cases "validate_authority authority")
      case (Inl d)
      then show ?thesis
        using failed authority validate_authority_Err [OF Inl] by (simp add: validate_endpoint_def)
    next
      case (Inr u)
      then show ?thesis
        using failed authority
        by (cases "url_parse endpoint") (auto simp: validate_endpoint_def split: if_splits)
    qed
  qed
qed

lemma validate_credential_Err: "validate_credential name n m = Err e \<Longrightarrow> is_InvalidRequest e"
  by (auto simp: validate_credential_def split: if_splits)

lemma TlsConfig_from_url_Err:
  "TlsConfig_from_url url_parse u certificate timeout = Err e \<Longrightarrow> is_InvalidRequest e"
  unfolding TlsConfig_from_url_def TlsConfig_new_def and_then_eq_Err
  by (auto dest: validate_endpoint_Err validate_credential_Err split: if_splits)

lemma validated_transport_config_Err:
  "validated_transport_config url_parse config wallet_password = Err e \<Longrightarrow> is_InvalidRequest e"
  by (auto simp: validated_transport_config_def validate_wallet_password_def result_simps
      dest: TlsConfig_from_url_Err split: if_splits)

text \<open>
  C18: creating a wallet sends the committing request at most once, after a valid seed and with
  exactly that seed and the caller's password; and the caller is told so: the request was sent
  exactly when the result is a configuration or an unknown outcome. Every other failure means that
  no wallet was created.
\<close>

theorem wallet_commit_is_reported:
  assumes "initialize_wallet x r t url_parse clk config wallet_password service = (calls, res)"
  shows "(sent_init calls \<longleftrightarrow> is_ok res \<or> res = Err uncertain_initialization)
    \<and> (sent_init calls \<longrightarrow> (\<exists>first seed.
         calls = [GenSeed first, InitWallet (init_wallet_request_for wallet_password seed)]
         \<and> validate_cipher_seed seed = Ok ()))
    \<and> (\<forall>c. res = Ok c \<longrightarrow> lnd_config_ok c)"
proof (cases "validated_transport_config url_parse config wallet_password")
  case (Inl e)
  then have "calls = []" "res = Err e" "is_InvalidRequest e"
    using assms validated_transport_config_Err [OF Inl] by (simp_all add: initialize_wallet_def)
  then show ?thesis
    by (auto simp: sent_init_def uncertain_initialization_def)
next
  case validated: (Inr validated)
  show ?thesis
  proof (cases "tls_endpoint r t validated")
    case (Inl e)
    then have "calls = []" "res = Err e" "\<not> is_OutcomeUnknown e"
      using assms validated endpoint_errors_not_unknown [OF Inl]
      by (simp_all add: initialize_wallet_def)
    then show ?thesis
      by (auto simp: sent_init_def uncertain_initialization_def)
  next
    case (Inr endpoint)
    obtain gen_seed init_wallet where service: "service endpoint = (gen_seed, init_wallet)"
      by fastforce
    have "initialize_wallet_validated x clk validated wallet_password gen_seed init_wallet
        = (calls, res)"
      using assms validated Inr service by (simp add: initialize_wallet_def)
    moreover have "tls_config_ok validated"
      using validated_transport_config_Ok [OF validated] by blast
    ultimately show ?thesis
      using initialize_wallet_validated_calls
      by (fastforce simp: sent_init_def uncertain_initialization_def)
  qed
qed

text \<open>
  A generated seed is accepted exactly when it has 24 words of 1 to 1024 bytes each; the
  checks of the running total can then never fail.
\<close>

theorem cipher_seed_accepted_iff:
  "is_ok (validate_cipher_seed words) \<longleftrightarrow>
     length words = 24 \<and> list_all (\<lambda>w. 1 \<le> length w \<and> length w \<le> 1024) words"
  unfolding is_ok_iff
  using validate_cipher_seed_Ok [of words]
  by (simp add: Suc_le_eq cong: list_all_cong)

section \<open>A concrete wallet\<close>

definition example_tonic :: "unit tonic" where
  "example_tonic = \<lparr>endpoint_from_shared = \<lambda>s. Some (), tls_config_with_verifier = \<lambda>e d v. Some (),
     ascii_metadata_from_str = Some\<rparr>"

definition bootstrap_url :: url where
  "bootstrap_url = \<lparr>url_as_str = ''https://localhost:10009/'', url_scheme = ''https'',
     url_host_of = Some (HostDomain ''localhost''), url_host_str = Some ''localhost'',
     url_port = Some 10009, url_query = None, url_fragment = None\<rparr>"

definition example_pem :: string where
  "example_pem = BEGIN_CERTIFICATE @ ''AAAA'' @ END_CERTIFICATE"

definition example_bootstrap :: lnd_bootstrap_config where
  "example_bootstrap = \<lparr>bc_endpoint = bootstrap_url, bc_tls_certificate = example_pem,
     bc_timeout = from_secs 5\<rparr>"

definition example_password :: "u8 list" where
  "example_password = replicate 8 1"

definition example_seed :: "string list" where
  "example_seed = replicate 24 ''abandon''"

definition example_tls :: tls_config where
  "example_tls = \<lparr>tls_endpoint_url = bootstrap_url, tls_certificate = example_pem,
     tls_timeout = from_secs 5\<rparr>"

lemma example_endpoint_valid:
  "validate_endpoint (\<lambda>_. Some bootstrap_url) ''https://localhost:10009/'' = Ok bootstrap_url"
  by (simp add: validate_endpoint_def original_authority_def split_once_def find_any_def
      validate_authority_def example_authority port_text_simps bootstrap_url_def)

lemma example_transport_config:
  "validated_transport_config (\<lambda>_. Some bootstrap_url) example_bootstrap example_password
     = Ok example_tls"
proof -
  have "restore_default_port bootstrap_url = ''https://localhost:10009/''"
    by (simp add: restore_default_port_def bootstrap_url_def)
  moreover have "validate_credential ''TLS certificate'' (length example_pem)
      MAX_TLS_CERTIFICATE_BYTES = Ok ()"
    by (simp add: validate_credential_def MAX_TLS_CERTIFICATE_BYTES_def example_pem_def
        BEGIN_CERTIFICATE_def END_CERTIFICATE_def)
  ultimately show ?thesis
    by (simp add: validated_transport_config_def validate_wallet_password_def
        MIN_WALLET_PASSWORD_BYTES_def MAX_WALLET_PASSWORD_BYTES_def example_password_def
        TlsConfig_from_url_def TlsConfig_new_def example_bootstrap_def example_endpoint_valid
        example_tls_def is_zero_def)
qed

lemma example_tls_endpoint: "tls_endpoint example_rustls example_tonic example_tls = Ok ()"
proof -
  have "PinnedServerCertificate_new example_rustls example_pem = Ok \<lparr>pin_identity = ''DER''\<rparr>"
    unfolding example_pem_def by code_simp
  then show ?thesis
    by (simp add: tls_endpoint_def example_tls_def bootstrap_url_def example_tonic_def)
qed

lemma wallet_commit_witness:
  "\<exists>calls c. initialize_wallet example_ext example_rustls example_tonic (\<lambda>_. Some bootstrap_url)
      example_clock example_bootstrap example_password
      (\<lambda>_. (\<lambda>_ _. Reply example_seed, \<lambda>_ _. Reply [9])) = (calls, Ok c)
    \<and> sent_init calls \<and> lnd_config_ok c"
proof -
  let ?run = "initialize_wallet example_ext example_rustls example_tonic (\<lambda>_. Some bootstrap_url)
      example_clock example_bootstrap example_password
      (\<lambda>_. (\<lambda>_ _. Reply example_seed, \<lambda>_ _. Reply [9]))"
  have seed: "validate_cipher_seed example_seed = Ok ()"
    by (simp add: validate_cipher_seed_Ok example_seed_def list_all_iff)
  have deadline: "operation_deadline example_clock (tls_timeout example_tls) = Ok 5000000100"
    using example_deadline by (simp add: example_tls_def)
  have "is_ok (snd ?run)"
    using seed deadline
    by (simp add: initialize_wallet_def example_transport_config example_tls_endpoint
        initialize_wallet_validated_def Let_def LndConfig_authenticated_def
        validate_credential_def MAX_MACAROON_BYTES_def)
  then obtain calls c where run: "?run = (calls, Ok c)"
    by (cases ?run) (auto simp: is_ok_iff)
  from wallet_commit_is_reported [OF run] show ?thesis
    using run by auto
qed

end
