(* ===== verification/Core_Json.thy ===== *)
theory Core_Json
  imports Rust_Std
begin

text \<open>
  The JSON documents of the crate \<open>nigiri-rs-core\<close> and the deserialization that serde derives
  for its structs. The text of a document is read by another crate; a parsed document keeps the
  members of an object in order and with repetitions, and a number as its text, as the feature
  \<open>arbitrary_precision\<close> does.
\<close>

datatype json =
    JNull
  | JBool bool
  | JNumber string
  | JString string
  | JArray "json list"
  | JObject "(string \<times> json) list"

definition is_null :: "json \<Rightarrow> bool" where
  "is_null j \<longleftrightarrow> j = JNull"

section \<open>Structs\<close>

text \<open>
  What a derived \<open>Deserialize\<close> finds for the fields of a struct: an object names each field at
  most once and may hold others; an array gives them in order.
\<close>

definition struct_fields :: "string list \<Rightarrow> json \<Rightarrow> json option list option" where
  "struct_fields names j =
     (case j of
        JObject members \<Rightarrow>
          (if list_all (\<lambda>n. length (filter (\<lambda>m. fst m = n) members) \<le> 1) names
           then Some (map (map_of members) names) else None)
      | JArray values \<Rightarrow>
          (if length values \<le> length names
           then Some (map Some values @ replicate (length names - length values) None)
           else None)
      | _ \<Rightarrow> None)"

lemma struct_fields_length: "struct_fields names j = Some fs \<Longrightarrow> length fs = length names"
  by (auto simp: struct_fields_def split: json.splits if_splits)

text \<open>
  An object held as a \<open>serde_json::Value\<close> has kept the latest of repeated members.
\<close>

definition value_members :: "(string \<times> json) list \<Rightarrow> (string \<times> json) list" where
  "value_members members =
     map (\<lambda>n. (n, the (map_of (rev members) n))) (remdups (map fst members))"

fun as_value :: "json \<Rightarrow> json" where
  "as_value (JArray values) = JArray (map as_value values)"
| "as_value (JObject members) =
     JObject (value_members (map (\<lambda>(n, v). (n, as_value v)) members))"
| "as_value j = j"

lemma as_value_null [simp]: "as_value j = JNull \<longleftrightarrow> j = JNull"
  by (cases j) auto

text \<open>A required field, a field that defaults when absent, and an optional one.\<close>

definition required :: "(json \<Rightarrow> 'a option) \<Rightarrow> json option \<Rightarrow> 'a option" where
  "required decode f = Option.bind f decode"

definition defaulted :: "'a \<Rightarrow> (json \<Rightarrow> 'a option) \<Rightarrow> json option \<Rightarrow> 'a option" where
  "defaulted d decode f = (case f of None \<Rightarrow> Some d | Some j \<Rightarrow> decode j)"

definition optional :: "(json \<Rightarrow> 'a option) \<Rightarrow> json \<Rightarrow> 'a option option" where
  "optional decode j = (if is_null j then Some None else map_option Some (decode j))"

section \<open>Scalars\<close>

fun decode_string :: "json \<Rightarrow> string option" where
  "decode_string (JString s) = Some s"
| "decode_string j = None"

fun decode_bool :: "json \<Rightarrow> bool option" where
  "decode_bool (JBool b) = Some b"
| "decode_bool j = None"

fun decode_number :: "json \<Rightarrow> string option" where
  "decode_number (JNumber n) = Some n"
| "decode_number j = None"

text \<open>Integers as JSON writes them: no sign but a minus, no fraction and no exponent.\<close>

definition parse_u64 :: "string \<Rightarrow> u64 option" where
  "parse_u64 s = map_option of_nat (parse_unsigned (2 ^ 64 - 1) s)"

lemma parse_one: "parse_u64 ''1'' = Some 1"
  by (simp add: parse_u64_def parse_unsigned_def digits_value_def is_digit_def to_digit_def)

definition parse_u32 :: "string \<Rightarrow> u32 option" where
  "parse_u32 s = map_option of_nat (parse_unsigned (2 ^ 32 - 1) s)"

definition parse_i32 :: "string \<Rightarrow> i32 option" where
  "parse_i32 s =
     (if s \<noteq> [] \<and> hd s = CHR ''-''
      then if tl s \<noteq> [] \<and> hd (tl s) = CHR ''+'' then None
        else map_option (\<lambda>n. - of_nat n) (parse_unsigned (2 ^ 31) (tl s))
      else map_option of_nat (parse_unsigned (2 ^ 31 - 1) s))"

definition decode_u64 :: "json \<Rightarrow> u64 option" where
  "decode_u64 j = Option.bind (decode_number j) parse_u64"

definition decode_u32 :: "json \<Rightarrow> u32 option" where
  "decode_u32 j = Option.bind (decode_number j) parse_u32"

definition decode_i32 :: "json \<Rightarrow> i32 option" where
  "decode_i32 j = Option.bind (decode_number j) parse_i32"

fun decode_list :: "(json \<Rightarrow> 'a option) \<Rightarrow> json \<Rightarrow> 'a list option" where
  "decode_list decode (JArray values) =
     (if list_all (\<lambda>v. decode v \<noteq> None) values then Some (map (\<lambda>v. the (decode v)) values) else None)"
| "decode_list decode j = None"

text \<open>\<open>String::deserialize\<close> followed by \<open>parse\<close>.\<close>

definition from_string :: "(string \<Rightarrow> 'a option) \<Rightarrow> json \<Rightarrow> 'a option" where
  "from_string parse j = Option.bind (decode_string j) parse"

definition optional_from_string :: "(string \<Rightarrow> 'a option) \<Rightarrow> json \<Rightarrow> 'a option option" where
  "optional_from_string parse = optional (from_string parse)"

end
