(* ===== verification/Core_Http.thy ===== *)
theory Core_Http
  imports Core_Json
begin

text \<open>
  \<open>error.rs\<close>, \<open>config.rs\<close>, \<open>endpoint.rs\<close> and \<open>http.rs\<close> of the crate
  \<open>nigiri-rs-core\<close>: the validated configuration of a client, bodies read up to a limit, and
  error text from which the caller's sensitive arguments are removed. The HTTP client and the URL
  type belong to other crates: a response is what the program observes of it.
\<close>

section \<open>Errors\<close>

text \<open>An Elements asset or transaction id is its printed form.\<close>

record issuance_txin =
  it_txid :: string
  it_vin :: u32

datatype nigiri_error =
    HttpTransport string
  | HttpStatus string nat string
  | RpcFailed string i32 string
  | NTimeout string duration
  | NInvalidRequest string
  | NInvalidResponse string string
  | PostTransactionMiningFailed string string nigiri_error
  | AssetTransferFailed string issuance_txin nigiri_error
  | PegOutputNotFound string
  | PegOutputMalformed string string
  | PegInImmature u64 u64
  | PegNotConfigured string

section \<open>Configuration\<close>

record base_url =
  bu_scheme :: string
  bu_authority :: string
  bu_cannot_be_a_base :: bool
  bu_path :: string
  bu_query :: "string option"
  bu_fragment :: "string option"

record electrum_endpoint =
  ee_host :: string
  ee_port :: u16

definition ElectrumEndpoint_new :: "string \<Rightarrow> u16 \<Rightarrow> nigiri_error + electrum_endpoint" where
  "ElectrumEndpoint_new host port =
     (if host = [] then Err (NInvalidRequest ''endpoint host must not be empty'')
      else if port = 0 then Err (NInvalidRequest ''endpoint port must not be zero'')
      else Ok \<lparr>ee_host = host, ee_port = port\<rparr>)"

definition DEFAULT_MAX_RESPONSE_BYTES :: nat where
  "DEFAULT_MAX_RESPONSE_BYTES = 64 * 1024"

definition MAX_RESPONSE_BYTES_LIMIT :: nat where
  "MAX_RESPONSE_BYTES_LIMIT = 16 * 1024 * 1024"

definition DEFAULT_TIMEOUT :: duration where
  "DEFAULT_TIMEOUT = from_secs 30"

record nigiri_config =
  nc_esplora_url :: base_url
  nc_node_rpc_url :: base_url
  nc_electrum :: electrum_endpoint
  nc_node_rpc_user :: string
  nc_node_rpc_password :: string
  nc_timeout :: duration
  nc_max_response_bytes :: nat

definition local_url :: "string \<Rightarrow> base_url" where
  "local_url authority = \<lparr>bu_scheme = ''http'', bu_authority = authority,
     bu_cannot_be_a_base = False, bu_path = ''/'', bu_query = None, bu_fragment = None\<rparr>"

definition NigiriConfig_defaults :: "string \<Rightarrow> string \<Rightarrow> u16 \<Rightarrow> nigiri_config" where
  "NigiriConfig_defaults esplora node_rpc electrum_port =
     \<lparr>nc_esplora_url = local_url esplora, nc_node_rpc_url = local_url node_rpc,
      nc_electrum = \<lparr>ee_host = ''localhost'', ee_port = electrum_port\<rparr>,
      nc_node_rpc_user = ''admin1'', nc_node_rpc_password = ''123'',
      nc_timeout = DEFAULT_TIMEOUT, nc_max_response_bytes = DEFAULT_MAX_RESPONSE_BYTES\<rparr>"

definition NigiriConfig_bitcoin :: nigiri_config where
  "NigiriConfig_bitcoin = NigiriConfig_defaults ''localhost:30000'' ''localhost:18443'' 50000"

definition NigiriConfig_liquid :: nigiri_config where
  "NigiriConfig_liquid = NigiriConfig_defaults ''localhost:30001'' ''localhost:18884'' 50001"

definition validate_endpoint_url :: "base_url \<Rightarrow> nigiri_error + unit" where
  "validate_endpoint_url url =
     (if bu_scheme url \<notin> {''http'', ''https''} \<or> bu_cannot_be_a_base url
      then Err (NInvalidRequest
             ''endpoint URLs must use HTTP or HTTPS and support relative paths'')
      else if bu_query url \<noteq> None \<or> bu_fragment url \<noteq> None
      then Err (NInvalidRequest ''endpoint URLs must not contain a query or fragment'')
      else Ok ())"

definition normalize_base_url :: "base_url \<Rightarrow> base_url" where
  "normalize_base_url url =
     (if suffix ''/'' (bu_path url) then url else url\<lparr>bu_path := bu_path url @ ''/''\<rparr>)"

definition validate_and_normalize :: "nigiri_config \<Rightarrow> nigiri_error + nigiri_config" where
  "validate_and_normalize c =
     and_then (validate_endpoint_url (nc_esplora_url c)) (\<lambda>_.
     and_then (validate_endpoint_url (nc_node_rpc_url c)) (\<lambda>_.
       let c = c\<lparr>nc_esplora_url := normalize_base_url (nc_esplora_url c)\<rparr> in
       if is_zero (nc_timeout c)
       then Err (NInvalidRequest ''timeout must be greater than zero'')
       else if nc_max_response_bytes c = 0
       then Err (NInvalidRequest ''max_response_bytes must be greater than zero'')
       else if nc_max_response_bytes c > MAX_RESPONSE_BYTES_LIMIT
       then Err (NInvalidRequest ''max_response_bytes must not exceed MAX_RESPONSE_BYTES_LIMIT'')
       else Ok c))"

text \<open>\<open>path_segments_mut\<close>, \<open>pop_if_empty\<close> and \<open>extend\<close> are the URL crate's.\<close>

definition endpoint ::
  "(base_url \<Rightarrow> string list \<Rightarrow> base_url) \<Rightarrow> base_url \<Rightarrow> string \<Rightarrow> string list \<Rightarrow> nigiri_error + base_url"
where
  "endpoint extend_path base operation segments =
     (if bu_cannot_be_a_base base
      then Err (NInvalidResponse operation ''configured endpoint cannot accept path segments'')
      else Ok (extend_path base segments))"

section \<open>Redaction\<close>

text \<open>
  The characters of a string, each as its encoding; an ill-formed byte, which no \<open>&str\<close>
  holds, stands alone.
\<close>

definition char_width :: "char \<Rightarrow> nat" where
  "char_width c = (case utf8_width c of Some n \<Rightarrow> n | None \<Rightarrow> 0)"

function utf8_chars :: "string \<Rightarrow> string list" where
  "utf8_chars [] = []"
| "utf8_chars (c # cs) = (c # take (char_width c) cs) # utf8_chars (drop (char_width c) cs)"
  by pat_completeness auto
termination
  by (relation "measure length") auto

definition SENSITIVE_ANCHOR_BYTES :: nat where
  "SENSITIVE_ANCHOR_BYTES = 12"

definition anchor_of :: "string \<Rightarrow> string" where
  "anchor_of v =
     (if length v \<le> SENSITIVE_ANCHOR_BYTES then v
      else take (boundary_below v SENSITIVE_ANCHOR_BYTES) v)"

text \<open>How much of the value follows, in whole characters.\<close>

definition echo_length :: "string \<Rightarrow> string \<Rightarrow> nat" where
  "echo_length v echoed =
     sum_list (map (\<lambda>(expected, actual). length expected)
       (takeWhile (\<lambda>(expected, actual). expected = actual)
         (zip (utf8_chars v) (utf8_chars echoed))))"

lemma echo_length_Nil [simp]: "echo_length v [] = 0"
  by (simp add: echo_length_def)

lemma drop_echo_shorter:
  assumes "0 < echo_length v (drop offset rest)"
  shows "length rest - (echo_length v (drop offset rest) + offset) < length rest"
    and "length rest - (offset + echo_length v (drop offset rest)) < length rest"
proof -
  have "rest \<noteq> []"
    using assms by (cases rest) auto
  then show "length rest - (echo_length v (drop offset rest) + offset) < length rest"
    and "length rest - (offset + echo_length v (drop offset rest)) < length rest"
    using assms by simp_all
qed

definition redaction_mark :: string where
  "redaction_mark = ''[redacted]''"

text \<open>
  The \<open>while let\<close> loop. An echo is never empty for a value that is a string (lemma
  \<open>echo_progress\<close>), so the loop always advances.
\<close>

function redact_loop :: "string \<Rightarrow> string \<Rightarrow> string \<Rightarrow> string" where
  "redact_loop anchor v rest =
     (case find_sub anchor rest of
        None \<Rightarrow> rest
      | Some offset \<Rightarrow>
          (let echoed = drop offset rest; matched = echo_length v echoed in
           if matched = 0 then rest
           else take offset rest @ redaction_mark @ redact_loop anchor v (drop matched echoed)))"
  by pat_completeness auto
termination
  by (relation "measure (\<lambda>(anchor, v, rest). length rest)")
    (simp_all add: drop_echo_shorter)

declare redact_loop.simps [simp del]

lemma redact_loop_None [simp]: "find_sub anchor rest = None \<Longrightarrow> redact_loop anchor v rest = rest"
  by (simp add: redact_loop.simps)

lemma redact_loop_stuck:
  "find_sub anchor rest = Some offset \<Longrightarrow> echo_length v (drop offset rest) = 0
     \<Longrightarrow> redact_loop anchor v rest = rest"
  by (simp add: redact_loop.simps)

lemma redact_loop_Some:
  "find_sub anchor rest = Some offset \<Longrightarrow> echo_length v (drop offset rest) \<noteq> 0
     \<Longrightarrow> redact_loop anchor v rest = take offset rest @ redaction_mark
          @ redact_loop anchor v (drop (echo_length v (drop offset rest)) (drop offset rest))"
  by (simp add: redact_loop.simps [of anchor v rest])

definition redact_value :: "string \<Rightarrow> string \<Rightarrow> string" where
  "redact_value txt v = redact_loop (anchor_of v) v txt"

definition redact_sensitive :: "string \<Rightarrow> string list \<Rightarrow> string" where
  "redact_sensitive txt sensitive =
     foldl redact_value txt (filter (\<lambda>v. v \<noteq> []) sensitive)"

section \<open>What redaction removes\<close>

lemma concat_utf8_chars [simp]: "concat (utf8_chars s) = s"
  by (induction s rule: utf8_chars.induct) simp_all

lemma utf8_rest_drop:
  "utf8_rest n s \<Longrightarrow> n \<le> length s \<and> utf8_valid (drop n s)"
  by (induction n s rule: utf8_rest.induct)
    (auto simp: utf8_valid_def split: option.splits)

lemma utf8_chars_append:
  "utf8_valid a \<Longrightarrow> utf8_chars (a @ b) = utf8_chars a @ utf8_chars b"
proof (induction a rule: utf8_chars.induct)
  case 1
  show ?case by simp
next
  case (2 c cs)
  then obtain n where n: "utf8_width c = Some n" "utf8_rest n cs"
    by (auto simp: utf8_valid_def split: option.splits)
  then have "char_width c = n" and "n \<le> length cs" and "utf8_valid (drop n cs)"
    using utf8_rest_drop [OF n(2)] by (simp_all add: char_width_def)
  then show ?case
    using "2.IH" by simp
qed

lemma matched_prefix:
  "takeWhile (\<lambda>(e, a). e = a) (zip (xs @ ys) (xs @ zs))
     = zip xs xs @ takeWhile (\<lambda>(e, a). e = a) (zip ys zs)"
  by (induction xs) auto

lemma echo_length_prefix:
  assumes "utf8_valid a"
  shows "length a \<le> echo_length (a @ b) (a @ c)"
proof -
  have "length a = sum_list (map length (utf8_chars a))"
    by (metis concat_utf8_chars length_concat)
  also have "\<dots> = sum_list (map (\<lambda>(e, a). length e) (zip (utf8_chars a) (utf8_chars a)))"
    by (simp add: zip_same_conv_map comp_def)
  finally show ?thesis
    unfolding echo_length_def utf8_chars_append [OF assms] matched_prefix by simp
qed

lemma echo_length_le: "echo_length v s \<le> length s"
proof -
  let ?pairs = "takeWhile (\<lambda>(e, a). e = a) (zip (utf8_chars v) (utf8_chars s))"
  have same: "\<forall>p \<in> set ?pairs. fst p = snd p"
    by (auto dest: set_takeWhileD)
  have "echo_length v s = sum_list (map length (map snd ?pairs))"
    unfolding echo_length_def map_map
    by (rule arg_cong [of _ _ sum_list], rule map_cong) (use same in auto)
  also have "prefix (map snd ?pairs) (utf8_chars s)"
  proof -
    have "prefix ?pairs (zip (utf8_chars v) (utf8_chars s))"
      by (rule takeWhile_is_prefix)
    then have "prefix (map snd ?pairs) (map snd (zip (utf8_chars v) (utf8_chars s)))"
      by (rule map_mono_prefix)
    then show ?thesis
      by (metis map_snd_zip_take prefix_order.trans take_is_prefix)
  qed
  then obtain rest where "utf8_chars s = map snd ?pairs @ rest"
    by (auto simp: prefix_def)
  then have "length s = sum_list (map length (map snd ?pairs)) + sum_list (map length rest)"
    by (metis concat_utf8_chars length_concat map_append sum_list_append)
  finally show ?thesis by simp
qed

lemma utf8_rest_boundary:
  "utf8_rest n s \<Longrightarrow> n < length s \<Longrightarrow> \<not> continuation_byte (s ! n)"
proof (induction n s rule: utf8_rest.induct)
  case (2 c cs)
  then show ?case
    by (auto simp: utf8_width_def continuation_byte_def Let_def split: if_splits)
qed simp_all

lemma utf8_width_le: "utf8_width c = Some n \<Longrightarrow> n \<le> 3"
  by (auto simp: utf8_width_def Let_def split: if_splits)

lemma boundary_below_greatest:
  "is_char_boundary s j \<Longrightarrow> j \<le> i \<Longrightarrow> j \<le> boundary_below s i"
  by (induction i) (auto simp: le_Suc_eq)

lemma boundary_below_pos:
  assumes "utf8_valid v" and "3 < i" and "i < length v"
  shows "0 < boundary_below v i"
proof -
  obtain c cs where v: "v = c # cs"
    using assms(3) by (cases v) auto
  then obtain m where m: "utf8_width c = Some m" "utf8_rest m cs"
    using assms(1) by (auto simp: utf8_valid_def split: option.splits)
  have "Suc m \<le> i"
    using utf8_width_le [OF m(1)] assms(2) by simp
  moreover have "is_char_boundary v (Suc m)"
    using utf8_rest_boundary [OF m(2)] v \<open>Suc m \<le> i\<close> assms(3)
    by (auto simp: is_char_boundary_def)
  ultimately show ?thesis
    using boundary_below_greatest [of v "Suc m" i] by simp
qed

text \<open>The anchor is a non-empty prefix made of whole characters.\<close>

lemma anchor_of_prefix: "prefix (anchor_of v) v"
  by (simp add: anchor_of_def take_is_prefix)

lemma anchor_of_valid: "utf8_valid v \<Longrightarrow> utf8_valid (anchor_of v)"
  by (simp add: anchor_of_def utf8_valid_take boundary_below_boundary)

lemma anchor_of_nonempty:
  assumes "utf8_valid v" and "v \<noteq> []"
  shows "anchor_of v \<noteq> []"
proof (cases "length v \<le> SENSITIVE_ANCHOR_BYTES")
  case False
  then have "0 < boundary_below v SENSITIVE_ANCHOR_BYTES"
    using boundary_below_pos [OF assms(1)] by (simp add: SENSITIVE_ANCHOR_BYTES_def)
  then show ?thesis
    using False by (auto simp: anchor_of_def)
qed (use assms in \<open>simp add: anchor_of_def\<close>)

lemma anchor_of_length: "length (anchor_of v) \<le> SENSITIVE_ANCHOR_BYTES"
  using boundary_below_le [of v SENSITIVE_ANCHOR_BYTES] by (simp add: anchor_of_def)

text \<open>The echo covers at least the anchor, so the loop advances at every turn.\<close>

lemma echo_progress:
  assumes "utf8_valid v" and "v \<noteq> []" and "find_sub (anchor_of v) rest = Some offset"
  shows "length (anchor_of v) \<le> echo_length v (drop offset rest)"
    and "0 < echo_length v (drop offset rest)"
proof -
  obtain b where "v = anchor_of v @ b"
    using anchor_of_prefix by (auto simp: prefix_def)
  moreover obtain c where "drop offset rest = anchor_of v @ c"
    using find_sub_Some [OF assms(3)] by (metis append_take_drop_id)
  ultimately show le: "length (anchor_of v) \<le> echo_length v (drop offset rest)"
    using echo_length_prefix [OF anchor_of_valid [OF assms(1)]] by metis
  show "0 < echo_length v (drop offset rest)"
    using le anchor_of_nonempty [OF assms(1,2)] by (cases "anchor_of v") auto
qed

text \<open>
  An anchor that the marks the program inserts can neither contain nor complete. Addresses and
  transaction hex, the values it redacts, are ASCII without brackets.
\<close>

definition markable :: "string \<Rightarrow> bool" where
  "markable a \<longleftrightarrow> list_all is_ascii a \<and> CHR ''['' \<notin> set a \<and> CHR '']'' \<notin> set a
     \<and> \<not> sublist a ''redacted'' \<and> \<not> sublist a ''truncated''"

lemma sublist_around:
  assumes "c \<notin> set a"
  shows "sublist a (xs @ c # ys) \<longleftrightarrow> sublist a xs \<or> sublist a ys"
proof
  assume "sublist a (xs @ c # ys)"
  then obtain ps ss where split: "xs @ c # ys = ps @ a @ ss"
    by (auto simp: sublist_def)
  then consider us where "xs = ps @ us" "us @ c # ys = a @ ss"
    | us where "xs @ us = ps" "c # ys = us @ a @ ss"
    by (auto simp: append_eq_append_conv2)
  then show "sublist a xs \<or> sublist a ys"
  proof cases
    case 1
    then obtain ws where "us = a @ ws \<or> (us @ ws = a \<and> c # ys = ws @ ss)"
      by (auto simp: append_eq_append_conv2)
    then show ?thesis
      using assms 1(1) by (cases ws) (fastforce simp: sublist_def)+
  next
    case 2
    then show ?thesis
      using assms by (cases us; cases a) (auto simp: sublist_def)
  qed
next
  assume "sublist a xs \<or> sublist a ys"
  then show "sublist a (xs @ c # ys)"
    by (auto simp: sublist_append sublist_Cons_right)
qed

lemma markable_around_mark:
  assumes "markable a"
  shows "sublist a (xs @ redaction_mark @ ys) \<longleftrightarrow> sublist a xs \<or> sublist a ys"
proof -
  have "xs @ redaction_mark @ ys = xs @ CHR ''['' # (''redacted'' @ CHR '']'' # ys)"
    by (simp add: redaction_mark_def)
  then show ?thesis
    using assms by (simp only: sublist_around markable_def simp_thms)
qed

lemma sublist_of_take: "sublist a (take n xs) \<Longrightarrow> sublist a xs"
  by (rule sublist_order.order_trans [OF _ sublist_take])

lemma sublist_of_drop: "sublist a (drop n xs) \<Longrightarrow> sublist a xs"
  by (rule sublist_order.order_trans [OF _ sublist_drop])

lemma no_anchor_before:
  assumes "find_sub a s = Some i" and "a \<noteq> []"
  shows "\<not> sublist a (take i s)"
proof
  assume "sublist a (take i s)"
  then obtain ps ss where split: "take i s = ps @ a @ ss"
    by (auto simp: sublist_def)
  then have "s = ps @ a @ ss @ drop i s"
    by (metis append.assoc append_take_drop_id)
  then have "prefix a (drop (length ps) s)"
    by (metis append_eq_conv_conj prefixI)
  moreover have "length ps < i"
    using split assms(2) by (metis length_append length_greater_0_conv length_take less_le_trans
        less_add_same_cancel1 min.cobounded1 min.cobounded2 append_is_Nil_conv add_less_cancel_left)
  ultimately show False
    using find_sub_Some [OF assms(1)] by blast
qed

lemma redact_loop_removes:
  assumes "utf8_valid v" and "v \<noteq> []" and "markable (anchor_of v)"
  shows "\<not> sublist (anchor_of v) (redact_loop (anchor_of v) v rest)"
proof (induction "length rest" arbitrary: rest rule: less_induct)
  case less
  show ?case
  proof (cases "find_sub (anchor_of v) rest")
    case None
    then show ?thesis
      using find_sub_None by (metis redact_loop_None)
  next
    case (Some offset)
    note progress = echo_progress [OF assms(1,2) Some]
    have "\<not> sublist (anchor_of v)
        (redact_loop (anchor_of v) v (drop (echo_length v (drop offset rest)) (drop offset rest)))"
      by (rule less) (use drop_echo_shorter [OF progress(2)] in simp)
    then show ?thesis
      using progress(2) no_anchor_before [OF Some anchor_of_nonempty [OF assms(1,2)]]
      by (simp add: redact_loop_Some [OF Some] markable_around_mark [OF assms(3)])
  qed
qed

text \<open>Redacting one value never brings back another one.\<close>

lemma redact_loop_keeps_absent:
  assumes "markable a"
  shows "\<not> sublist a rest \<Longrightarrow> \<not> sublist a (redact_loop anchor v rest)"
proof (induction "length rest" arbitrary: rest rule: less_induct)
  case less
  consider "find_sub anchor rest = None"
    | offset where "find_sub anchor rest = Some offset" "echo_length v (drop offset rest) = 0"
    | offset where "find_sub anchor rest = Some offset" "echo_length v (drop offset rest) \<noteq> 0"
    by fastforce
  then show ?case
  proof cases
    case 3
    let ?after = "drop (echo_length v (drop offset rest)) (drop offset rest)"
    have shorter: "length ?after < length rest"
      using drop_echo_shorter [of v offset rest] 3(2) by simp
    have "\<not> sublist a (take offset rest)" and absent: "\<not> sublist a ?after"
      using less.prems by (auto dest!: sublist_of_take sublist_of_drop)
    moreover have "\<not> sublist a (redact_loop anchor v ?after)"
      using shorter absent by (rule less.hyps)
    ultimately show ?thesis
      unfolding redact_loop_Some [OF 3] markable_around_mark [OF assms] by blast
  qed (use less.prems in \<open>simp_all add: redact_loop_stuck\<close>)
qed

lemma redact_sensitive_absent:
  assumes "\<And>v. v \<in> set sensitive \<Longrightarrow> v \<noteq> [] \<Longrightarrow> utf8_valid v \<and> markable (anchor_of v)"
    and "v \<in> set sensitive" and "v \<noteq> []"
  shows "\<not> sublist (anchor_of v) (redact_sensitive s sensitive)"
  using assms
proof (induction sensitive arbitrary: s rule: rev_induct)
  case Nil
  then show ?case by simp
next
  case (snoc w ws)
  have step: "redact_sensitive s (ws @ [w])
      = (if w = [] then redact_sensitive s ws else redact_value (redact_sensitive s ws) w)"
    by (simp add: redact_sensitive_def)
  show ?case
  proof (cases "v = w")
    case True
    then show ?thesis
      using snoc.prems redact_loop_removes by (simp add: step redact_value_def)
  next
    case False
    then have "\<not> sublist (anchor_of v) (redact_sensitive s ws)"
      using snoc by simp
    moreover have "markable (anchor_of v)"
      using snoc.prems by blast
    ultimately show ?thesis
      by (simp add: step redact_value_def redact_loop_keeps_absent)
  qed
qed

section \<open>Error text\<close>

text \<open>
  \<open>String::from_utf8_lossy\<close>: a maximal prefix of an ill-formed sequence becomes one U+FFFD.
  \<open>utf8_sequence\<close> reads the first sequence: its length, and whether it is well formed.
\<close>

definition byte_in :: "nat \<Rightarrow> nat \<Rightarrow> string \<Rightarrow> nat \<Rightarrow> bool" where
  "byte_in lo hi s i \<longleftrightarrow> i < length s \<and> lo \<le> (of_char (s ! i) :: nat) \<and> (of_char (s ! i) :: nat) \<le> hi"

fun continuation_run :: "nat \<Rightarrow> nat \<Rightarrow> string \<Rightarrow> nat \<times> bool" where
  "continuation_run i 0 s = (i, True)"
| "continuation_run i (Suc n) s =
     (if byte_in 128 191 s i then continuation_run (Suc i) n s else (i, False))"

definition utf8_sequence :: "string \<Rightarrow> nat \<times> bool" where
  "utf8_sequence s = (let b = (of_char (hd s) :: nat);
       more = (\<lambda>lo hi n. if byte_in lo hi s 1 then continuation_run 2 n s else (1, False)) in
     if b < 0x80 then (1, True)
     else if b < 0xC2 then (1, False)
     else if b \<le> 0xDF then more 0x80 0xBF 0
     else if b = 0xE0 then more 0xA0 0xBF 1
     else if b = 0xED then more 0x80 0x9F 1
     else if b \<le> 0xEF then more 0x80 0xBF 1
     else if b = 0xF0 then more 0x90 0xBF 2
     else if b \<le> 0xF3 then more 0x80 0xBF 2
     else if b = 0xF4 then more 0x80 0x8F 2
     else (1, False))"

lemma continuation_run_ge: "i \<le> fst (continuation_run i n s)"
  by (induction n arbitrary: i) (auto intro: Suc_leD)

lemma utf8_sequence_pos [simp]: "0 < fst (utf8_sequence s)"
proof -
  have "0 < fst (continuation_run 2 n s)" for n
    using continuation_run_ge [of 2 n s] by simp
  then show ?thesis
    by (simp add: utf8_sequence_def Let_def)
qed

definition replacement_character :: string where
  "replacement_character = [CHR 0xEF, CHR 0xBF, CHR 0xBD]"

function from_utf8_lossy :: "string \<Rightarrow> string" where
  "from_utf8_lossy [] = []"
| "from_utf8_lossy (c # cs) =
     (let (n, ok) = utf8_sequence (c # cs) in
      (if ok then take n (c # cs) else replacement_character)
        @ from_utf8_lossy (drop n (c # cs)))"
  by pat_completeness auto
termination
proof (relation "measure length")
  fix c cs p n ok
  assume "p = utf8_sequence (c # cs)" and "(n, ok) = p"
  then have "0 < n"
    using utf8_sequence_pos [of "c # cs"] by (metis fst_conv)
  then show "(drop n (c # cs), c # cs) \<in> measure length"
    by simp
qed simp

text \<open>\<open>std::str::from_utf8\<close>.\<close>

function from_utf8 :: "string \<Rightarrow> string option" where
  "from_utf8 [] = Some []"
| "from_utf8 (c # cs) =
     (let (n, ok) = utf8_sequence (c # cs) in
      if ok then map_option (\<lambda>rest. take n (c # cs) @ rest) (from_utf8 (drop n (c # cs))) else None)"
  by pat_completeness auto
termination
proof (relation "measure length")
  fix c cs p n ok
  assume "p = utf8_sequence (c # cs)" and "(n, ok) = p"
  then have "0 < n"
    using utf8_sequence_pos [of "c # cs"] by (metis fst_conv)
  then show "(drop n (c # cs), c # cs) \<in> measure length"
    by simp
qed simp

definition truncation_mark :: string where
  "truncation_mark = ellipsis @ ''[truncated]''"

definition bounded_error_text :: "string \<Rightarrow> bool \<Rightarrow> string list \<Rightarrow> string" where
  "bounded_error_text body exceeded sensitive =
     (let s = redact_sensitive (from_utf8_lossy body) sensitive
      in if exceeded then s @ truncation_mark else s)"

lemma bounded_error_text_absent:
  assumes "\<And>v. v \<in> set sensitive \<Longrightarrow> v \<noteq> [] \<Longrightarrow> utf8_valid v \<and> markable (anchor_of v)"
    and "v \<in> set sensitive" and "v \<noteq> []"
  shows "\<not> sublist (anchor_of v) (bounded_error_text body exceeded sensitive)"
proof -
  let ?a = "anchor_of v"
  have mark: "markable ?a" and nonempty: "?a \<noteq> []"
    using assms anchor_of_nonempty by blast+
  have "CHR 0xE2 \<notin> set ?a" "CHR 0x80 \<notin> set ?a" "CHR 0xA6 \<notin> set ?a"
    using mark by (auto simp: markable_def list_all_iff is_ascii_def)
  then have "sublist ?a (s @ truncation_mark) \<longleftrightarrow> sublist ?a s" for s
    using mark nonempty
    by (simp add: truncation_mark_def ellipsis_def markable_def sublist_around
        sublist_around [of _ _ "[]", simplified]
        sublist_around [of "CHR '']''" ?a "''truncated''" "[]", simplified])
  then show ?thesis
    using redact_sensitive_absent [OF assms]
    by (simp add: bounded_error_text_def Let_def)
qed

lemma from_utf8_same: "from_utf8 s = Some t \<Longrightarrow> t = s"
proof (induction s arbitrary: t rule: from_utf8.induct)
  case 1
  then show ?case by simp
next
  case (2 c cs)
  obtain n ok where seq: "utf8_sequence (c # cs) = (n, ok)"
    by fastforce
  with "2.prems" obtain rest where "ok" "t = take n (c # cs) @ rest"
      "from_utf8 (drop n (c # cs)) = Some rest"
    by (auto simp: Let_def split: if_splits)
  then show ?case
    using "2.IH" [OF seq [symmetric] refl, of rest] by simp
qed

section \<open>The network\<close>

text \<open>
  The world a client acts on: the requests sent so far and a clock in nanoseconds. How the
  network answers may depend on all of it. An answer is a failure to connect (saying whether it
  was a timeout), or a status with the chunks of a body, which may break off; it takes time.
\<close>

datatype http_request =
    HttpGet base_url
  | HttpPost base_url string string json

datatype http_outcome =
    SendFailed bool
  | Responded nat "(bool + string) list"

record world =
  w_sent :: "http_request list"
  w_now :: nat

type_synonym network_answer = "world \<Rightarrow> http_request \<Rightarrow> http_outcome \<times> nat"

type_synonym 'a io = "world \<Rightarrow> (nigiri_error + 'a) \<times> world"

definition io_return :: "'a \<Rightarrow> 'a io" where
  "io_return a w = (Ok a, w)"

definition io_lift :: "nigiri_error + 'a \<Rightarrow> 'a io" where
  "io_lift r w = (r, w)"

definition io_bind :: "'a io \<Rightarrow> ('a \<Rightarrow> 'b io) \<Rightarrow> 'b io" where
  "io_bind m f w = (case m w of (Err e, w') \<Rightarrow> (Err e, w') | (Ok a, w') \<Rightarrow> f a w')"

definition io_map_err :: "(nigiri_error \<Rightarrow> nigiri_error) \<Rightarrow> 'a io \<Rightarrow> 'a io" where
  "io_map_err g m w = apfst (map_err g) (m w)"

lemma io_bind_eq_Ok [result_simps]:
  "io_bind m f w = (Ok b, w'') \<longleftrightarrow> (\<exists>a w'. m w = (Ok a, w') \<and> f a w' = (Ok b, w''))"
  by (auto simp: io_bind_def split: prod.splits sum.splits)

lemma io_bind_eq_Err [result_simps]:
  "io_bind m f w = (Err e, w'') \<longleftrightarrow>
     m w = (Err e, w'') \<or> (\<exists>a w'. m w = (Ok a, w') \<and> f a w' = (Err e, w''))"
  by (auto simp: io_bind_def split: prod.splits sum.splits)

lemma io_map_err_eq_Ok [result_simps]: "io_map_err g m w = (Ok a, w') \<longleftrightarrow> m w = (Ok a, w')"
  by (cases "m w"; cases "fst (m w)") (auto simp: io_map_err_def)

lemma io_map_err_eq_Err [result_simps]:
  "io_map_err g m w = (Err e, w') \<longleftrightarrow> (\<exists>d. m w = (Err d, w') \<and> e = g d)"
  by (cases "m w"; cases "fst (m w)") (auto simp: io_map_err_def)

lemma io_lift_eq [result_simps]: "io_lift r w = (s, w') \<longleftrightarrow> r = s \<and> w' = w"
  by (auto simp: io_lift_def)

lemma io_return_eq [result_simps]: "io_return a w = (r, w') \<longleftrightarrow> r = Ok a \<and> w' = w"
  by (auto simp: io_return_def)

text \<open>Requests an operation has added to those sent before.\<close>

definition sent_between :: "world \<Rightarrow> world \<Rightarrow> http_request list" where
  "sent_between w w' = drop (length (w_sent w)) (w_sent w')"

definition world_extends :: "world \<Rightarrow> world \<Rightarrow> bool" where
  "world_extends w w' \<longleftrightarrow> prefix (w_sent w) (w_sent w') \<and> w_now w \<le> w_now w'"

section \<open>Reading a response\<close>

record bounded_response =
  br_status :: nat
  br_body :: string
  br_exceeded :: bool

definition is_success :: "nat \<Rightarrow> bool" where
  "is_success status \<longleftrightarrow> 200 \<le> status \<and> status < 300"

definition status_error :: "bounded_response \<Rightarrow> string \<Rightarrow> string list \<Rightarrow> nigiri_error" where
  "status_error r operation sensitive =
     HttpStatus operation (br_status r) (bounded_error_text (br_body r) (br_exceeded r) sensitive)"

definition into_body :: "bounded_response \<Rightarrow> string \<Rightarrow> nigiri_error + string" where
  "into_body r operation =
     (if br_exceeded r
      then Err (NInvalidResponse operation
             ''response body exceeded the configured safety limit'')
      else Ok (br_body r))"

definition transport_error :: "nigiri_config \<Rightarrow> string \<Rightarrow> bool \<Rightarrow> nigiri_error" where
  "transport_error config operation timed_out =
     (if timed_out then NTimeout operation (nc_timeout config) else HttpTransport operation)"

text \<open>The \<open>while let\<close> loop over the chunks, with the body read so far.\<close>

fun read_body :: "nat \<Rightarrow> string \<Rightarrow> (bool + string) list \<Rightarrow> bool + string \<times> bool" where
  "read_body max_bytes body [] = Ok (body, False)"
| "read_body max_bytes body (Err timed_out # chunks) = Err timed_out"
| "read_body max_bytes body (Ok chunk # chunks) =
     (let remaining = max_bytes - length body;
          body' = body @ take (min (length chunk) remaining) chunk
      in if length chunk > remaining then Ok (body', True) else read_body max_bytes body' chunks)"

definition send ::
  "network_answer \<Rightarrow> nigiri_config \<Rightarrow> string \<Rightarrow> http_request \<Rightarrow> bounded_response io"
where
  "send net config operation request w =
     (let (outcome, taken) = net w request;
          w' = \<lparr>w_sent = w_sent w @ [request], w_now = w_now w + taken\<rparr>
      in (case outcome of
            SendFailed timed_out \<Rightarrow> Err (transport_error config operation timed_out)
          | Responded status chunks \<Rightarrow>
              (case read_body (nc_max_response_bytes config) [] chunks of
                 Err timed_out \<Rightarrow> Err (transport_error config operation timed_out)
               | Ok (body, exceeded) \<Rightarrow>
                   Ok \<lparr>br_status = status, br_body = body, br_exceeded = exceeded\<rparr>), w'))"

definition send_bounded ::
  "network_answer \<Rightarrow> nigiri_config \<Rightarrow> string \<Rightarrow> http_request \<Rightarrow> string list \<Rightarrow> string io"
where
  "send_bounded net config operation request sensitive =
     io_bind (send net config operation request) (\<lambda>response.
       io_lift (if \<not> is_success (br_status response)
                then Err (status_error response operation sensitive)
                else into_body response operation))"

lemma send_world:
  "send net config operation request w = (r, w') \<Longrightarrow>
     w_sent w' = w_sent w @ [request] \<and> w_now w' = w_now w + snd (net w request)"
  by (auto simp: send_def Let_def split: prod.splits)

lemma send_bounded_world:
  "send_bounded net config operation request sensitive w = (r, w') \<Longrightarrow>
     w_sent w' = w_sent w @ [request] \<and> w_now w' = w_now w + snd (net w request)"
  by (cases r) (auto simp: send_bounded_def result_simps dest: send_world)

text \<open>
  What was received before the stream ended or broke off decides the result: the limit is a prefix
  of it, and exceeding the limit hides a later failure.
\<close>

lemma read_body_complete:
  "length body \<le> m \<Longrightarrow> read_body m body (map Ok cs)
     = Ok (take m (body @ concat cs), m < length (body @ concat cs))"
proof (induction cs arbitrary: body)
  case Nil
  then show ?case by simp
next
  case (Cons c cs)
  then show ?case
    by (cases "m - length body < length c") (simp_all add: Let_def add.assoc)
qed

lemma read_body_broken:
  "length body \<le> m \<Longrightarrow> read_body m body (map Ok cs @ Err t # rest)
     = (if m < length (body @ concat cs) then Ok (take m (body @ concat cs), True) else Err t)"
proof (induction cs arbitrary: body)
  case Nil
  then show ?case by simp
next
  case (Cons c cs)
  then show ?case
    by (cases "m - length body < length c") (simp_all add: Let_def add.assoc)
qed

lemma chunks_cases:
  obtains (complete) cs where "chunks = map Ok cs"
    | (broken) cs t rest where "chunks = map Ok cs @ Err t # rest"
proof (induction chunks)
  case Nil
  then show ?case by (metis list.map(1))
next
  case (Cons c chunks)
  show ?case
  proof (cases c)
    case (Inl t)
    then show ?thesis
      using Cons.prems(2) [of "[]" t chunks] by simp
  next
    case (Inr a)
    show ?thesis
    proof (rule Cons.IH)
      fix cs assume "chunks = map Ok cs"
      then show thesis
        using Inr Cons.prems(1) [of "a # cs"] by simp
    next
      fix cs t rest assume "chunks = map Ok cs @ Err t # rest"
      then show thesis
        using Inr Cons.prems(2) [of "a # cs" t rest] by simp
    qed
  qed
qed

text \<open>What the configured limit bounds, as one function of the chunks.\<close>

definition delivered :: "(bool + string) list \<Rightarrow> string" where
  "delivered chunks = concat (map (\<lambda>c. case c of Ok s \<Rightarrow> s | Err _ \<Rightarrow> [])
     (takeWhile is_ok chunks))"

definition broke_off :: "(bool + string) list \<Rightarrow> bool option" where
  "broke_off chunks = (case dropWhile is_ok chunks of Err t # _ \<Rightarrow> Some t | _ \<Rightarrow> None)"

lemma delivered_map [simp]:
  "delivered (map Ok cs) = concat cs" "delivered (map Ok cs @ Err t # rest) = concat cs"
  "broke_off (map Ok cs) = None" "broke_off (map Ok cs @ Err t # rest) = Some t"
  by (induction cs) (simp_all add: delivered_def broke_off_def)

lemma read_body_spec:
  "read_body m [] chunks =
     (if m < length (delivered chunks) then Ok (take m (delivered chunks), True)
      else case broke_off chunks of Some t \<Rightarrow> Err t | None \<Rightarrow> Ok (delivered chunks, False))"
  by (cases chunks rule: chunks_cases) (simp_all add: read_body_complete read_body_broken)


section \<open>Properties\<close>


text \<open>
  C20: reading a body chunk by chunk is reading all of it and cutting it at the limit: nothing beyond
  the configured number of bytes is kept, a body is accepted exactly when it arrived whole within
  the limit with a success status, and a body over the limit is refused even when the connection
  breaks afterwards.
\<close>

theorem bounded_body_is_whole_body:
  "fst (send_bounded net config operation request sensitive w) = Ok body \<longleftrightarrow>
     (\<exists>status chunks. fst (net w request) = Responded status chunks \<and> is_success status
        \<and> broke_off chunks = None \<and> delivered chunks = body
        \<and> length body \<le> nc_max_response_bytes config)"
  by (auto simp: send_bounded_def io_bind_def io_lift_def send_def Let_def into_body_def
      read_body_spec split: prod.splits http_outcome.splits sum.splits option.splits if_splits)


end
