(* ===== verification/Fix_Diagnostics.thy ===== *)
theory Fix_Diagnostics
  imports Core_Http
begin

text \<open>
  \<open>diagnostics.rs\<close> of the crate \<open>nigiri-rs-fixtures\<close>: every text that can reach a caller is
  redacted first and bounded afterwards, on a character boundary.
\<close>

definition RPC_USER :: string where
  "RPC_USER = ''admin1''"

definition RPC_PASSWORD :: string where
  "RPC_PASSWORD = ''123''"

definition MAX_DIAGNOSTIC_BYTES :: nat where
  "MAX_DIAGNOSTIC_BYTES = 16 * 1024"

definition MAX_SOURCE_BYTES :: nat where
  "MAX_SOURCE_BYTES = 4 * 1024"

definition MAX_REDACTION_CONTEXT_BYTES :: nat where
  "MAX_REDACTION_CONTEXT_BYTES = 32"

definition SOURCE_TRUNCATION_MARKER :: string where
  "SOURCE_TRUNCATION_MARKER = ''[TRUNCATED]''"

definition REDACTED :: string where
  "REDACTED = ''[REDACTED]''"

definition REDACTED_PREFIX :: string where
  "REDACTED_PREFIX = ''[REDACTED''"

definition BASIC_AUTH_PATTERN :: string where
  "BASIC_AUTH_PATTERN = ''YWRtaW4xOjEyMw==''"

definition REDACTED_BASIC_AUTH :: string where
  "REDACTED_BASIC_AUTH = ''[REDACTED::AUTH]''"

datatype secret_value_kind = Token | Line

definition SECRET_ANCHORS :: "(string \<times> secret_value_kind) list" where
  "SECRET_ANCHORS = [
     (''cipher_seed_mnemonic'', Line), (''cipher-seed-mnemonic'', Line),
     (''cipher.seed.mnemonic'', Line), (''cipherseedmnemonic'', Line),
     (''seed_mnemonic'', Line), (''seed-mnemonic'', Line), (''seed.mnemonic'', Line),
     (''seedmnemonic'', Line), (''cipher_seed'', Line), (''cipher-seed'', Line),
     (''cipher.seed'', Line), (''cipherseed'', Line), (''wallet_password'', Token),
     (''wallet-password'', Token), (''wallet.password'', Token), (''walletpassword'', Token),
     (''rpcpassword'', Token), (''rpcpass'', Token), (''macaroon'', Token), (''mnemonic'', Line)]"

definition CR_LF :: "char list" where
  "CR_LF = [CHR 0x0D, CHR 0x0A]"

definition TOKEN_VALUE_TERMINATORS :: "char list" where
  "TOKEN_VALUE_TERMINATORS =
     [CHR '' '', CHR 0x09, CHR 0x0D, CHR 0x0A, CHR 0x22, CHR 0x27, CHR '','', CHR ''}'', CHR '']'',
      CHR '')'']"

definition push_redaction :: "nat \<Rightarrow> string \<Rightarrow> string" where
  "push_redaction original_length marker = marker @ replicate (original_length - length marker) (CHR ''*'')"

lemma push_redaction_length: "original_length \<le> length (push_redaction original_length marker)"
  by (simp add: push_redaction_def)

section \<open>Anchored values\<close>

definition starts_ignore_case :: "string \<Rightarrow> string \<Rightarrow> bool" where
  "starts_ignore_case needle s \<longleftrightarrow>
     length needle \<le> length s
     \<and> to_ascii_lowercase (take (length needle) s) = to_ascii_lowercase needle"

text \<open>\<open>bytes.get(i)\<close> matched against some bytes.\<close>

definition at_byte :: "string \<Rightarrow> nat \<Rightarrow> char list \<Rightarrow> bool" where
  "at_byte s i cs \<longleftrightarrow> i < length s \<and> s ! i \<in> set cs"

definition quotes :: "char list" where
  "quotes = [CHR 0x27, CHR 0x22]"

definition anchor_at :: "string \<Rightarrow> nat \<Rightarrow> (string \<times> secret_value_kind) option" where
  "anchor_at s i = find (\<lambda>(anchor, kind). starts_ignore_case anchor (drop i s)) SECRET_ANCHORS"

definition skip_while :: "(char \<Rightarrow> bool) \<Rightarrow> string \<Rightarrow> nat \<Rightarrow> nat" where
  "skip_while p s i = i + length (takeWhile p (drop i s))"

definition space_form_is_structured :: "string \<Rightarrow> nat \<Rightarrow> nat \<Rightarrow> bool" where
  "space_form_is_structured s anchor_start value_start =
     (let line = takeWhile (\<lambda>c. c \<notin> set CR_LF) (rev (take anchor_start s));
          token = takeWhile (\<lambda>c. \<not> is_ascii_whitespace c) (drop value_start s)
      in CHR ''-'' \<in> set line \<or> list_all is_ascii_digit token)"

definition next_character :: "string \<Rightarrow> nat \<Rightarrow> string \<times> nat" where
  "next_character s i = (let w = Suc (char_width (s ! i)) in (take w (drop i s), i + w))"

definition after_hex :: "string \<Rightarrow> nat \<Rightarrow> nat" where
  "after_hex s i =
     (if list_ex (\<lambda>ending. starts_ignore_case ending (drop i s)) [''_hex'', ''-hex'', ''.hex'']
      then i + 4 else i)"

definition after_quote :: "string \<Rightarrow> nat \<Rightarrow> nat" where
  "after_quote s i = (if at_byte s i quotes then i + 1 else i)"

definition after_separator :: "string \<Rightarrow> nat \<Rightarrow> nat" where
  "after_separator s i = (if at_byte s i [CHR ''='', CHR '':''] then i + 1 else i)"

text \<open>Where the value of an anchor starts, when the anchor names one.\<close>

definition value_start_of :: "string \<Rightarrow> nat \<Rightarrow> string \<Rightarrow> nat option" where
  "value_start_of s anchor_start anchor =
     (let whitespace_start = after_quote s (after_hex s (anchor_start + length anchor));
          cursor = skip_while (\<lambda>c. is_ascii_whitespace c \<and> c \<notin> set CR_LF) s whitespace_start
      in if at_byte s cursor [CHR ''='', CHR '':'']
            \<or> cursor \<noteq> whitespace_start \<and> space_form_is_structured s anchor_start cursor
         then Some (after_quote s (skip_while (\<lambda>c. c = CHR '' '' \<or> c = CHR 0x09) s
                      (after_separator s cursor)))
         else None)"

definition value_end_of :: "string \<Rightarrow> secret_value_kind \<Rightarrow> nat \<Rightarrow> nat" where
  "value_end_of s kind value_start =
     (case kind of
        Token \<Rightarrow> skip_while (\<lambda>c. c \<notin> set TOKEN_VALUE_TERMINATORS) s value_start
      | Line \<Rightarrow> skip_while (\<lambda>c. c \<notin> set CR_LF) s value_start)"

text \<open>One turn of the loop at a byte index: what it appends and where it goes on.\<close>

definition anchored_step :: "string \<Rightarrow> nat \<Rightarrow> string \<times> nat" where
  "anchored_step s i =
     (case anchor_at s i of
        None \<Rightarrow> next_character s i
      | Some (anchor, kind) \<Rightarrow>
          (case value_start_of s i anchor of
             None \<Rightarrow> next_character s i
           | Some value_start \<Rightarrow>
               (let value_end = value_end_of s kind value_start;
                    name = take (value_start - i) (drop i s);
                    value = take (value_end - value_start) (drop value_start s)
                in (name @ (if value_end = value_start then []
                            else if prefix REDACTED_PREFIX value then value
                            else push_redaction (value_end - value_start) REDACTED), value_end))))"

lemma skip_while_ge: "i \<le> skip_while p s i"
  by (simp add: skip_while_def)

lemma anchor_nonempty: "anchor_at s i = Some (anchor, kind) \<Longrightarrow> anchor \<noteq> []"
proof -
  assume "anchor_at s i = Some (anchor, kind)"
  then have "(anchor, kind) \<in> set SECRET_ANCHORS"
    unfolding anchor_at_def find_Some_iff by (metis nth_mem)
  moreover have "list_all (\<lambda>(a, k). a \<noteq> []) SECRET_ANCHORS"
    by (simp add: SECRET_ANCHORS_def)
  ultimately show ?thesis
    by (auto simp: list_all_iff)
qed

lemma after_ge: "i \<le> after_hex s i" "i \<le> after_quote s i" "i \<le> after_separator s i"
  by (simp_all add: after_hex_def after_quote_def after_separator_def)

lemma value_start_of_gt:
  assumes "value_start_of s i anchor = Some value_start" and "anchor \<noteq> []"
  shows "i < value_start"
proof -
  have "i < i + length anchor"
    using assms(2) by simp
  also have "\<dots> \<le> value_start"
    using assms(1) unfolding value_start_of_def Let_def
    by (auto split: if_splits intro!: order_trans [OF _ after_ge(2)] order_trans [OF _ skip_while_ge]
        order_trans [OF _ after_ge(3)] order_trans [OF _ after_ge(1)] simp del: add_le_cancel_left)
  finally show ?thesis .
qed

lemma value_end_of_ge: "value_start \<le> value_end_of s kind value_start"
  by (simp add: value_end_of_def skip_while_ge split: secret_value_kind.splits)

lemma anchored_step_advances: "i < snd (anchored_step s i)"
proof -
  have "i < value_end_of s kind value_start"
    if "anchor_at s i = Some (anchor, kind)" "value_start_of s i anchor = Some value_start"
    for anchor kind value_start
    using value_start_of_gt [OF that(2) anchor_nonempty [OF that(1)]] value_end_of_ge
    by (rule less_le_trans)
  then show ?thesis
    by (auto simp: anchored_step_def next_character_def Let_def split: option.splits)
qed

function redact_anchored_from :: "string \<Rightarrow> nat \<Rightarrow> string" where
  "redact_anchored_from s i =
     (if i < length s
      then (let (appended, next) = anchored_step s i in appended @ redact_anchored_from s next)
      else [])"
  by pat_completeness auto
termination
proof (relation "measure (\<lambda>(s, i). length s - i)")
  fix s :: string and i p appended next_index
  assume "i < length s" and "p = anchored_step s i" and "(appended, next_index) = p"
  then show "((s, next_index), s, i) \<in> measure (\<lambda>(s, i). length s - i)"
    using anchored_step_advances [of i s] by (auto simp: prod_eq_iff)
qed simp

declare redact_anchored_from.simps [simp del]

definition redact_anchored_values :: "string \<Rightarrow> string" where
  "redact_anchored_values s = redact_anchored_from s 0"


section \<open>Private keys\<close>

fun find_ignore_case :: "string \<Rightarrow> string \<Rightarrow> nat option" where
  "find_ignore_case needle [] = (if needle = [] then Some 0 else None)"
| "find_ignore_case needle (c # cs) =
     (if starts_ignore_case needle (c # cs) then Some 0
      else map_option Suc (find_ignore_case needle cs))"

definition find_ascii_case_insensitive :: "string \<Rightarrow> nat \<Rightarrow> string \<Rightarrow> nat option" where
  "find_ascii_case_insensitive s start needle =
     map_option (\<lambda>relative. start + relative) (find_ignore_case needle (drop start s))"

definition to_ascii_upper :: "char \<Rightarrow> char" where
  "to_ascii_upper c = (if is_ascii_lowercase c then char_of ((of_char c :: nat) - 32) else c)"

definition BEGIN :: string where
  "BEGIN = ''-----BEGIN ''"

definition dashes :: string where
  "dashes = ''-----''"

definition private_key_mark :: string where
  "private_key_mark = ''[REDACTED::PRIVATE KEY]''"

definition private_key_end :: "string \<Rightarrow> nat \<Rightarrow> string \<Rightarrow> nat" where
  "private_key_end s label_end label =
     (let end_marker = ''-----END '' @ label @ dashes
      in case find_ascii_case_insensitive s (label_end + 5) end_marker of
           None \<Rightarrow> length s
         | Some at \<Rightarrow> at + length end_marker)"

text \<open>One turn of the loop: \<open>None\<close> ends it, otherwise what is appended and the next cursor.\<close>

definition private_key_step :: "string \<Rightarrow> nat \<Rightarrow> (string \<times> nat) option" where
  "private_key_step s cursor =
     (case find_ascii_case_insensitive s cursor BEGIN of
        None \<Rightarrow> None
      | Some start \<Rightarrow>
          (let label_start = start + length BEGIN in
           case find_sub dashes (drop label_start s) of
             None \<Rightarrow> None
           | Some label_length \<Rightarrow>
               (let label_end = label_start + label_length;
                    label = take label_length (drop label_start s)
                in if \<not> sublist ''PRIVATE KEY'' (map to_ascii_upper label)
                   then Some (take (label_end - cursor) (drop cursor s), label_end)
                   else (let block_end = private_key_end s label_end label
                         in Some (take (start - cursor) (drop cursor s)
                                    @ push_redaction (block_end - start) private_key_mark,
                                  block_end)))))"

lemma find_ignore_case_bound: "find_ignore_case needle s = Some i \<Longrightarrow> i + length needle \<le> length s"
  by (induction s arbitrary: i) (auto simp: starts_ignore_case_def split: if_splits)

lemma find_ascii_case_insensitive_bound:
  assumes "find_ascii_case_insensitive s start needle = Some i" and "start \<le> length s"
  shows "start \<le> i \<and> i + length needle \<le> length s"
  using assms find_ignore_case_bound [of needle "drop start s"]
  by (auto simp: find_ascii_case_insensitive_def)

lemma private_key_end_bounds:
  "label_end + 5 \<le> length s \<Longrightarrow>
     label_end + 5 \<le> private_key_end s label_end label \<and> private_key_end s label_end label \<le> length s"
  using find_ascii_case_insensitive_bound [of s "label_end + 5" "''-----END '' @ label @ dashes"]
  by (auto simp: private_key_end_def Let_def split: option.splits)

lemma private_key_step_bounds:
  assumes "private_key_step s cursor = Some (appended, next)" and "cursor \<le> length s"
  shows "cursor < next \<and> next \<le> length s \<and> next - cursor \<le> length appended"
proof -
  obtain start label_length where start: "find_ascii_case_insensitive s cursor BEGIN = Some start"
      and label: "find_sub dashes (drop (start + length BEGIN) s) = Some label_length"
    using assms(1) by (auto simp: private_key_step_def Let_def split: option.splits)
  let ?label_end = "start + length BEGIN + label_length"
  let ?label = "take label_length (drop (start + length BEGIN) s)"
  have at_begin: "cursor \<le> start" "start + 11 \<le> length s"
    using find_ascii_case_insensitive_bound [OF start assms(2)] by (simp_all add: BEGIN_def)
  have label_end: "?label_end + 5 \<le> length s"
    using find_sub_Some [OF label, THEN conjunct1] at_begin(2) by (simp add: BEGIN_def dashes_def)
  show ?thesis
  proof (cases "sublist ''PRIVATE KEY'' (map to_ascii_upper ?label)")
    case False
    then have "next = ?label_end" "appended = take (?label_end - cursor) (drop cursor s)"
      using assms(1) by (auto simp add: private_key_step_def Let_def start label)
    then show ?thesis
      using at_begin label_end by (simp add: BEGIN_def)
  next
    case True
    let ?stop = "private_key_end s ?label_end ?label"
    have result: "next = ?stop" "appended = take (start - cursor) (drop cursor s)
        @ push_redaction (?stop - start) private_key_mark"
      using assms(1) True by (auto simp add: private_key_step_def Let_def start label)
    have "?label_end + 5 \<le> ?stop \<and> ?stop \<le> length s"
      using private_key_end_bounds [OF label_end] .
    moreover have "start - cursor = length (take (start - cursor) (drop cursor s))"
      using at_begin by simp
    ultimately show ?thesis
      using at_begin result push_redaction_length [of "?stop - start" private_key_mark]
      by simp
  qed
qed

text \<open>The cursor never leaves the string (lemma \<open>private_key_step_bounds\<close>).\<close>

function redact_private_keys_from :: "string \<Rightarrow> nat \<Rightarrow> string" where
  "redact_private_keys_from s cursor =
     (if length s < cursor then []
      else case private_key_step s cursor of
        None \<Rightarrow> drop cursor s
      | Some (appended, next) \<Rightarrow> appended @ redact_private_keys_from s next)"
  by pat_completeness auto
termination
  by (relation "measure (\<lambda>(s, cursor). length s - cursor)")
    (auto dest!: private_key_step_bounds)

declare redact_private_keys_from.simps [simp del]

definition redact_private_key_blocks :: "string \<Rightarrow> string" where
  "redact_private_key_blocks s = redact_private_keys_from s 0"

section \<open>Fixed patterns\<close>

text \<open>\<open>str::replace\<close> with a pattern that is not empty.\<close>

function replace_all :: "string \<Rightarrow> string \<Rightarrow> string \<Rightarrow> string" where
  "replace_all pattern replacement s =
     (case find_sub pattern s of
        None \<Rightarrow> s
      | Some i \<Rightarrow>
          (if pattern = [] then s
           else take i s @ replacement
                  @ replace_all pattern replacement (drop (i + length pattern) s)))"
  by pat_completeness auto
termination
proof (relation "measure (\<lambda>(p, r, s). length s)")
  fix pattern replacement s :: string and i
  assume "find_sub pattern s = Some i" and "pattern \<noteq> []"
  then have "i + length pattern \<le> length s" "0 < length pattern"
    using find_sub_Some [of pattern s i] by auto
  then have "length s - (i + length pattern) < length s"
    by linarith
  then show "((pattern, replacement, drop (i + length pattern) s), pattern, replacement, s)
      \<in> measure (\<lambda>(p, r, s). length s)"
    by simp
qed simp

declare replace_all.simps [simp del]

definition redaction_patterns :: "(string \<times> string) list" where
  "redaction_patterns = [
     (RPC_USER @ '':'' @ RPC_PASSWORD, REDACTED), (BASIC_AUTH_PATTERN, REDACTED_BASIC_AUTH),
     (RPC_USER, REDACTED)]"

definition redact :: "string \<Rightarrow> string" where
  "redact s = foldl (\<lambda>s (pattern, replacement). replace_all pattern replacement s)
     (redact_anchored_values (redact_private_key_blocks s)) redaction_patterns"

section \<open>Bounded text\<close>

definition utf8_tail :: "string \<Rightarrow> nat \<Rightarrow> string" where
  "utf8_tail s maximum_bytes =
     (if length s \<le> maximum_bytes then s
      else (let start = length s - maximum_bytes;
                skipped = length (takeWhile (\<lambda>i. \<not> is_char_boundary s i) [start..<length s])
            in drop (start + skipped) s))"

definition utf8_head :: "string \<Rightarrow> nat \<Rightarrow> string" where
  "utf8_head s maximum_bytes =
     (if length s \<le> maximum_bytes then s
      else (let (reserved, marker) =
                  (if maximum_bytes > length SOURCE_TRUNCATION_MARKER
                   then (length SOURCE_TRUNCATION_MARKER, SOURCE_TRUNCATION_MARKER) else (0, []))
            in take (boundary_below s (maximum_bytes - reserved)) s @ marker))"

definition redacted_tail :: "string \<Rightarrow> string" where
  "redacted_tail s = utf8_tail (redact s) MAX_DIAGNOSTIC_BYTES"

definition redacted_head :: "string \<Rightarrow> nat \<Rightarrow> string" where
  "redacted_head s maximum_bytes = utf8_head (redact s) maximum_bytes"

definition join_diagnostics :: "string \<Rightarrow> string \<Rightarrow> string" where
  "join_diagnostics existing addition =
     (if existing = [] then redacted_tail addition
      else redacted_tail (existing @ ''; '' @ addition))"

text \<open>An error is the texts of its chain of causes, outermost first.\<close>

fun flattened_causes :: "string \<Rightarrow> string list \<Rightarrow> string" where
  "flattened_causes rendered [] = rendered"
| "flattened_causes rendered (cause # causes) =
     (let link_bound = MAX_SOURCE_BYTES + MAX_REDACTION_CONTEXT_BYTES in
      if link_bound \<le> length rendered then rendered
      else flattened_causes (rendered @ '': '' @ redacted_head cause link_bound) causes)"

definition flattened_chain :: "string \<Rightarrow> string list \<Rightarrow> string" where
  "flattened_chain error causes =
     flattened_causes (redacted_head error (MAX_SOURCE_BYTES + MAX_REDACTION_CONTEXT_BYTES)) causes"

definition redacted_source :: "string \<Rightarrow> string list \<Rightarrow> string" where
  "redacted_source error causes = redacted_head (flattened_chain error causes) MAX_SOURCE_BYTES"

section \<open>Redaction never shortens\<close>

lemma next_character_length:
  assumes "utf8_valid (drop i s)" and "i < length s"
  shows "snd (next_character s i) = i + length (fst (next_character s i))"
proof -
  have "drop i s = s ! i # drop (Suc i) s"
    using assms(2) by (simp add: Cons_nth_drop_Suc)
  then obtain n where "utf8_width (s ! i) = Some n" "utf8_rest n (drop (Suc i) s)"
    using assms(1) by (auto simp: utf8_valid_def split: option.splits)
  then show ?thesis
    using utf8_rest_drop [of n "drop (Suc i) s"] assms(2)
    by (auto simp add: next_character_def char_width_def Let_def min_def)
qed

lemma replace_all_length:
  assumes "length pattern \<le> length replacement"
  shows "length s \<le> length (replace_all pattern replacement s)"
proof (induction "length s" arbitrary: s rule: less_induct)
  case less
  show ?case
  proof (cases "find_sub pattern s")
    case None
    then show ?thesis by (simp add: replace_all.simps [of _ _ s])
  next
    case (Some i)
    show ?thesis
    proof (cases "pattern = []")
      case True
      then show ?thesis
        using Some by (simp add: replace_all.simps [of _ _ s])
    next
      case False
      let ?rest = "drop (i + length pattern) s"
      have bound: "i + length pattern \<le> length s"
        using find_sub_Some [OF Some] by blast
      have "length ?rest < length s"
        using bound False by (cases pattern) auto
      then have "length ?rest \<le> length (replace_all pattern replacement ?rest)"
        by (rule less)
      then show ?thesis
        using Some False bound assms by (simp add: replace_all.simps [of _ _ s])
    qed
  qed
qed

lemma private_keys_length:
  "cursor \<le> length s \<Longrightarrow> length s - cursor \<le> length (redact_private_keys_from s cursor)"
proof (induction s cursor rule: redact_private_keys_from.induct)
  case (1 s cursor)
  show ?case
  proof (cases "private_key_step s cursor")
    case None
    then show ?thesis
      using "1.prems" by (simp add: redact_private_keys_from.simps [of s cursor])
  next
    case (Some step)
    obtain appended after where step: "step = (appended, after)"
      by fastforce
    then have bounds: "cursor < after" "after \<le> length s" "after - cursor \<le> length appended"
      using private_key_step_bounds [of s cursor] Some "1.prems" by auto
    have "length s - after \<le> length (redact_private_keys_from s after)"
      using "1.IH" [OF _ Some step [symmetric]] "1.prems" bounds(2) by simp
    then show ?thesis
      using Some step bounds "1.prems" by (simp add: redact_private_keys_from.simps [of s cursor])
  qed
qed

section \<open>Credentials are gone\<close>

text \<open>A replacement in brackets neither contains nor completes a pattern without them.\<close>

definition bracketed :: "string \<Rightarrow> string \<Rightarrow> bool" where
  "bracketed a replacement \<longleftrightarrow> a \<noteq> [] \<and> CHR ''['' \<notin> set a \<and> CHR '']'' \<notin> set a
     \<and> (\<exists>inner. replacement = CHR ''['' # inner @ [CHR '']''] \<and> \<not> sublist a inner)"

lemma sublist_around_bracketed:
  assumes "bracketed a replacement"
  shows "sublist a (xs @ replacement @ ys) \<longleftrightarrow> sublist a xs \<or> sublist a ys"
proof -
  obtain inner where inner: "replacement = CHR ''['' # inner @ [CHR '']'']" "\<not> sublist a inner"
    using assms by (auto simp: bracketed_def)
  have "CHR ''['' \<notin> set a" "CHR '']'' \<notin> set a"
    using assms by (auto simp: bracketed_def)
  then have "sublist a (xs @ CHR ''['' # (inner @ CHR '']'' # ys))
      \<longleftrightarrow> sublist a xs \<or> sublist a inner \<or> sublist a ys"
    by (simp only: sublist_around not_False_eq_True)
  then show ?thesis
    using inner by simp
qed

lemma replace_all_keeps_absent:
  assumes "bracketed a replacement" and "\<not> sublist a s"
  shows "\<not> sublist a (replace_all pattern replacement s)"
  using assms(2)
proof (induction "length s" arbitrary: s rule: less_induct)
  case less
  show ?case
  proof (cases "\<exists>i. find_sub pattern s = Some i \<and> pattern \<noteq> []")
    case False
    then have "replace_all pattern replacement s = s"
      by (auto simp: replace_all.simps [of _ _ s] split: option.splits)
    then show ?thesis
      using less.prems by simp
  next
    case True
    then obtain i where i: "find_sub pattern s = Some i" "pattern \<noteq> []" by blast
    let ?rest = "drop (i + length pattern) s"
    have absent: "\<not> sublist a (take i s)" "\<not> sublist a ?rest"
      using less.prems by (auto dest!: sublist_of_take sublist_of_drop)
    have "length ?rest < length s"
      using find_sub_Some [OF i(1), THEN conjunct1] i(2) by (cases pattern) auto
    then have "\<not> sublist a (replace_all pattern replacement ?rest)"
      using absent(2) by (rule less.hyps)
    moreover have "replace_all pattern replacement s
        = take i s @ replacement @ replace_all pattern replacement ?rest"
      using i by (simp add: replace_all.simps [of _ _ s])
    ultimately show ?thesis
      using absent(1) sublist_around_bracketed [OF assms(1)] by metis
  qed
qed

lemma replace_all_removes:
  assumes "bracketed pattern replacement"
  shows "\<not> sublist pattern (replace_all pattern replacement s)"
proof (induction "length s" arbitrary: s rule: less_induct)
  case less
  have nonempty: "pattern \<noteq> []"
    using assms by (simp add: bracketed_def)
  show ?case
  proof (cases "find_sub pattern s")
    case None
    then have "replace_all pattern replacement s = s"
      by (simp add: replace_all.simps [of _ _ s])
    then show ?thesis
      using None find_sub_None [of pattern s] by simp
  next
    case (Some i)
    let ?rest = "drop (i + length pattern) s"
    have "length ?rest < length s"
      using find_sub_Some [OF Some, THEN conjunct1] nonempty by (cases pattern) auto
    then have "\<not> sublist pattern (replace_all pattern replacement ?rest)"
      by (rule less)
    moreover have "replace_all pattern replacement s
        = take i s @ replacement @ replace_all pattern replacement ?rest"
      using Some nonempty by (simp add: replace_all.simps [of _ _ s])
    ultimately show ?thesis
      using no_anchor_before [OF Some nonempty] sublist_around_bracketed [OF assms] by metis
  qed
qed

lemma anchored_step_length: "min (snd (anchored_step s i)) (length s) - i \<le> length (fst (anchored_step s i))"
proof -
  have plain: "min (snd (next_character s i)) (length s) - i \<le> length (fst (next_character s i))"
    by (auto simp: next_character_def Let_def)
  show ?thesis
  proof (cases "\<exists>anchor kind vs. anchor_at s i = Some (anchor, kind)
      \<and> value_start_of s i anchor = Some vs")
    case False
    then have "anchored_step s i = next_character s i"
      by (auto simp: anchored_step_def split: option.splits)
    then show ?thesis
      using plain by simp
  next
    case True
    then obtain anchor kind vs where found: "anchor_at s i = Some (anchor, kind)"
        "value_start_of s i anchor = Some vs" by blast
    let ?ve = "value_end_of s kind vs"
    let ?val = "take (?ve - vs) (drop vs s)"
    let ?middle = "if ?ve = vs then [] else if prefix REDACTED_PREFIX ?val then ?val
      else push_redaction (?ve - vs) REDACTED"
    have "min ?ve (length s) - vs \<le> length ?middle"
      by (auto simp: min_def intro: order_trans [OF _ push_redaction_length])
    moreover have "anchored_step s i = (take (vs - i) (drop i s) @ ?middle, ?ve)"
      using found by (simp add: anchored_step_def Let_def)
    ultimately show ?thesis
      by (auto simp: min_def split: if_splits)
  qed
qed

lemma redact_anchored_length: "length s - i \<le> length (redact_anchored_from s i)"
proof (induction s i rule: redact_anchored_from.induct)
  case (1 s i)
  show ?case
  proof (cases "i < length s")
    case True
    obtain appended after where step: "anchored_step s i = (appended, after)"
      by fastforce
    have "length s - after \<le> length (redact_anchored_from s after)"
      using "1.IH" [OF True step [symmetric] refl] by simp
    moreover have "min after (length s) - i \<le> length appended"
      using anchored_step_length [of s i] step by simp
    ultimately show ?thesis
      using True step by (simp add: redact_anchored_from.simps [of s i])
  qed simp
qed

text \<open>Where a token secret is named: the scan reaches the anchor and finds just that value.\<close>

lemma starts_before_separator:
  assumes "to_ascii_lower sep \<notin> set (to_ascii_lowercase needle)"
  shows "starts_ignore_case needle (a @ sep # rest) \<longleftrightarrow> starts_ignore_case needle a"
proof (cases "length needle \<le> length a")
  case True
  then show ?thesis by (simp add: starts_ignore_case_def)
next
  case False
  have "\<not> starts_ignore_case needle (a @ sep # rest)"
  proof
    assume "starts_ignore_case needle (a @ sep # rest)"
    then have "to_ascii_lowercase (take (length needle) (a @ sep # rest)) = to_ascii_lowercase needle"
      by (simp add: starts_ignore_case_def)
    moreover have "sep \<in> set (take (length needle) (a @ sep # rest))"
      using False by (simp add: take_Cons')
    ultimately show False
      using assms by (metis imageI list.set_map to_ascii_lowercase_def)
  qed
  then show ?thesis
    using False by (simp add: starts_ignore_case_def)
qed

lemma token_anchors_select_themselves:
  "list_all (\<lambda>(anchor, kind). kind = Token \<longrightarrow>
     find (\<lambda>(a, k). starts_ignore_case a anchor) SECRET_ANCHORS = Some (anchor, Token)) SECRET_ANCHORS"
  by code_simp

lemma anchors_without_separators:
  "list_all (\<lambda>(anchor, kind). CHR ''='' \<notin> set (to_ascii_lowercase anchor)
     \<and> CHR '':'' \<notin> set (to_ascii_lowercase anchor)) SECRET_ANCHORS"
  by code_simp

lemma token_anchor_found:
  assumes "(anchor, Token) \<in> set SECRET_ANCHORS" and "sep = CHR ''='' \<or> sep = CHR '':''"
    and "drop i s = anchor @ sep # rest"
  shows "anchor_at s i = Some (anchor, Token)"
proof -
  have "to_ascii_lower sep = sep"
    using assms(2) by (auto simp: to_ascii_lower_def is_ascii_uppercase_def Let_def)
  then have "starts_ignore_case a (anchor @ sep # rest) \<longleftrightarrow> starts_ignore_case a anchor"
    if "(a, k) \<in> set SECRET_ANCHORS" for a k
    using starts_before_separator [of sep a anchor rest] anchors_without_separators that assms(2)
    by (auto simp: list_all_iff)
  then have "anchor_at s i = find (\<lambda>(a, k). starts_ignore_case a anchor) SECRET_ANCHORS"
    unfolding anchor_at_def assms(3) by (intro find_cong) auto
  then show ?thesis
    using token_anchors_select_themselves assms(1) by (auto simp: list_all_iff)
qed

lemma at_byte_drop: "at_byte s i cs \<longleftrightarrow> (case drop i s of [] \<Rightarrow> False | c # _ \<Rightarrow> c \<in> set cs)"
proof (cases "i < length s")
  case True
  then show ?thesis
    by (simp add: at_byte_def flip: Cons_nth_drop_Suc)
qed (simp add: at_byte_def)

lemma token_step:
  assumes anchor: "(anchor, Token) \<in> set SECRET_ANCHORS" and sep: "sep = CHR ''='' \<or> sep = CHR '':''"
    and s: "drop i s = anchor @ sep # v @ post"
    and v: "v \<noteq> []" "set v \<inter> set TOKEN_VALUE_TERMINATORS = {}" "\<not> prefix REDACTED_PREFIX v"
    and post: "post = [] \<or> hd post \<in> set TOKEN_VALUE_TERMINATORS"
  shows "anchored_step s i
    = (anchor @ sep # push_redaction (length v) REDACTED, i + length anchor + 1 + length v)"
proof -
  let ?at = "i + length anchor"
  have at_sep: "drop ?at s = sep # v @ post"
    using arg_cong [OF s, of "drop (length anchor)"] by (simp add: add.commute)
  have at_v: "drop (?at + 1) s = v @ post"
    using arg_cong [OF at_sep, of "drop 1"] by (simp add: drop_Suc)
  then have at_v': "drop (Suc ?at) s = v @ post"
    by simp
  obtain c cs where c: "v = c # cs" "c \<notin> set TOKEN_VALUE_TERMINATORS"
    using v(1,2) by (cases v) auto
  have sep_plain: "sep \<notin> set quotes" "\<not> is_ascii_whitespace sep" "sep \<notin> {CHR ''_'', CHR ''-'', CHR ''.''}"
    using sep by (auto simp: quotes_def is_ascii_whitespace_def)
  have "after_hex s ?at = ?at"
    using sep
    by (auto simp: after_hex_def at_sep starts_ignore_case_def to_ascii_lowercase_def
        to_ascii_lower_def is_ascii_uppercase_def Let_def)
  moreover have "after_quote s ?at = ?at"
    using sep_plain(1) by (simp add: after_quote_def at_byte_drop at_sep)
  moreover have "skip_while (\<lambda>c. is_ascii_whitespace c \<and> c \<notin> set CR_LF) s ?at = ?at"
    using sep_plain(2) by (simp add: skip_while_def at_sep)
  moreover have structured: "at_byte s ?at [CHR ''='', CHR '':'']"
    using sep by (simp add: at_byte_drop at_sep)
  moreover have "skip_while (\<lambda>c. c = CHR '' '' \<or> c = CHR 0x09) s (?at + 1) = ?at + 1"
    using c by (simp add: skip_while_def at_v' TOKEN_VALUE_TERMINATORS_def)
  moreover have "after_quote s (?at + 1) = ?at + 1"
    using c by (simp add: after_quote_def at_byte_drop at_v' quotes_def TOKEN_VALUE_TERMINATORS_def)
  ultimately have vs: "value_start_of s i anchor = Some (?at + 1)"
    by (simp add: value_start_of_def Let_def after_separator_def)
  have "takeWhile (\<lambda>c. c \<notin> set TOKEN_VALUE_TERMINATORS) (v @ post) = v"
    using v(2) post by (cases post) (auto simp: takeWhile_append2 disjoint_iff)
  then have ve: "value_end_of s Token (?at + 1) = ?at + 1 + length v"
    by (simp only: value_end_of_def secret_value_kind.case skip_while_def at_v)
  have "take (?at + 1 - i) (drop i s) = anchor @ [sep]"
    by (simp add: s)
  then show ?thesis
    using v(1,3) at_v'
    by (simp add: anchored_step_def token_anchor_found [OF anchor sep s] vs [simplified] ve [simplified] Let_def)
qed

lemma plain_prefix_kept:
  assumes "s = pre @ rest" and "list_all is_ascii pre"
    and "\<And>j. j < length pre \<Longrightarrow> anchor_at s j = None"
  shows "j \<le> length pre \<Longrightarrow>
    redact_anchored_from s j = drop j pre @ redact_anchored_from s (length pre)"
proof (induction "length pre - j" arbitrary: j)
  case 0
  then show ?case by simp
next
  case (Suc n)
  then have j: "j < length pre" by simp
  then have "is_ascii (s ! j)"
    using assms(1,2) by (simp add: list_all_iff nth_append)
  then have "char_width (s ! j) = 0"
    by (simp add: char_width_def utf8_width_def is_ascii_def Let_def)
  then have "anchored_step s j = ([pre ! j], Suc j)"
    using assms(1,3) j
    by (simp add: anchored_step_def next_character_def Let_def take_Suc_conv_app_nth
        flip: Cons_nth_drop_Suc)
  then have "redact_anchored_from s j = pre ! j # redact_anchored_from s (Suc j)"
    using j assms(1) by (subst redact_anchored_from.simps) simp
  moreover have "redact_anchored_from s (Suc j) = drop (Suc j) pre @ redact_anchored_from s (length pre)"
    using Suc j by simp
  ultimately show ?case
    using j by (simp flip: Cons_nth_drop_Suc)
qed

section \<open>Bounds\<close>

lemma utf8_tail_suffix: "suffix (utf8_tail s n) s"
  by (simp add: utf8_tail_def Let_def suffix_drop)

lemma utf8_tail_length: "length (utf8_tail s n) \<le> n"
  by (simp add: utf8_tail_def Let_def)

lemma utf8_head_length: "length (utf8_head s n) \<le> n"
proof -
  have "boundary_below s (n - length SOURCE_TRUNCATION_MARKER) \<le> n - length SOURCE_TRUNCATION_MARKER"
    and "boundary_below s n \<le> n"
    by (rule boundary_below_le)+
  then show ?thesis
    by (auto simp: utf8_head_def)
qed

lemma utf8_head_split: "\<exists>k. utf8_head s n = take k s \<or> utf8_head s n = take k s @ SOURCE_TRUNCATION_MARKER"
  by (auto simp: utf8_head_def intro: exI [of _ "length s"])

lemma utf8_head_absent:
  assumes "bracketed a SOURCE_TRUNCATION_MARKER" and "\<not> sublist a s"
  shows "\<not> sublist a (utf8_head s n)"
proof -
  obtain k where "utf8_head s n = take k s \<or> utf8_head s n = take k s @ SOURCE_TRUNCATION_MARKER"
    using utf8_head_split by blast
  moreover have "\<not> sublist a (take k s)"
    using assms(2) sublist_of_take by blast
  moreover have "\<not> sublist a (take k s @ SOURCE_TRUNCATION_MARKER)"
    using calculation(2) sublist_around_bracketed [OF assms(1), of "take k s" "[]"] assms(1)
    by (simp add: bracketed_def)
  ultimately show ?thesis by metis
qed

definition fixture_credentials :: "string list" where
  "fixture_credentials = map fst redaction_patterns"

lemma credentials_bracketed:
  "list_all (\<lambda>a. bracketed a REDACTED \<and> bracketed a REDACTED_BASIC_AUTH
     \<and> bracketed a SOURCE_TRUNCATION_MARKER) fixture_credentials"
proof -
  have marks: "REDACTED = CHR ''['' # ''REDACTED'' @ [CHR '']'']"
    "REDACTED_BASIC_AUTH = CHR ''['' # ''REDACTED::AUTH'' @ [CHR '']'']"
    "SOURCE_TRUNCATION_MARKER = CHR ''['' # ''TRUNCATED'' @ [CHR '']'']"
    by (simp_all add: REDACTED_def REDACTED_BASIC_AUTH_def SOURCE_TRUNCATION_MARKER_def)
  have plain: "list_all (\<lambda>a. a \<noteq> [] \<and> CHR ''['' \<notin> set a \<and> CHR '']'' \<notin> set a
      \<and> \<not> sublist a ''REDACTED'' \<and> \<not> sublist a ''REDACTED::AUTH'' \<and> \<not> sublist a ''TRUNCATED'')
      fixture_credentials"
    by code_simp
  show ?thesis
    using plain unfolding list_all_iff bracketed_def marks by blast
qed

lemma redact_has_no_credentials:
  assumes "a \<in> set fixture_credentials"
  shows "\<not> sublist a (redact s)"
proof -
  have marks: "bracketed b REDACTED" "bracketed b REDACTED_BASIC_AUTH"
    if "b \<in> set fixture_credentials" for b
    using credentials_bracketed that by (auto simp: list_all_iff)
  let ?b1 = "RPC_USER @ '':'' @ RPC_PASSWORD"
  have in_list: "?b1 \<in> set fixture_credentials" "BASIC_AUTH_PATTERN \<in> set fixture_credentials"
      "RPC_USER \<in> set fixture_credentials" and cases: "a \<in> {?b1, BASIC_AUTH_PATTERN, RPC_USER}"
    using assms by (auto simp: fixture_credentials_def redaction_patterns_def)
  let ?s0 = "redact_anchored_values (redact_private_key_blocks s)"
  let ?s1 = "replace_all ?b1 REDACTED ?s0"
  let ?s2 = "replace_all BASIC_AUTH_PATTERN REDACTED_BASIC_AUTH ?s1"
  have redact: "redact s = replace_all RPC_USER REDACTED ?s2"
    by (simp add: redact_def redaction_patterns_def)
  consider "a = ?b1" | "a = BASIC_AUTH_PATTERN" | "a = RPC_USER"
    using cases by blast
  then show ?thesis
  proof cases
    case 1
    then show ?thesis
      unfolding redact using marks in_list replace_all_removes replace_all_keeps_absent by metis
  next
    case 2
    then show ?thesis
      unfolding redact using marks in_list replace_all_removes replace_all_keeps_absent by metis
  next
    case 3
    then show ?thesis
      unfolding redact using marks in_list replace_all_removes by metis
  qed
qed

lemma redacted_texts_reported:
  "list_all (\<lambda>a. \<not> sublist a (redacted_tail s)) fixture_credentials"
  "length (redacted_tail s) \<le> 16384"
  "list_all (\<lambda>a. \<not> sublist a (redacted_head t n)) fixture_credentials"
  "length (redacted_head t n) \<le> n"
  "list_all (\<lambda>a. \<not> sublist a (redacted_source t causes)) fixture_credentials"
  "length (redacted_source t causes) \<le> 4096"
proof -
  have head: "\<not> sublist a (redacted_head u m)" if "a \<in> set fixture_credentials" for a u m
    using credentials_bracketed that redact_has_no_credentials [OF that] utf8_head_absent
    by (auto simp: list_all_iff redacted_head_def)
  have tail: "\<not> sublist a (redacted_tail s)" if "a \<in> set fixture_credentials" for a
    using redact_has_no_credentials [OF that, of s]
      sublist_order.order_trans [OF _ suffix_imp_sublist [OF utf8_tail_suffix]]
    unfolding redacted_tail_def by blast
  show "list_all (\<lambda>a. \<not> sublist a (redacted_tail s)) fixture_credentials"
    "list_all (\<lambda>a. \<not> sublist a (redacted_head t n)) fixture_credentials"
    "list_all (\<lambda>a. \<not> sublist a (redacted_source t causes)) fixture_credentials"
    using head tail by (auto simp: list_all_iff redacted_source_def)
  show "length (redacted_tail s) \<le> 16384" "length (redacted_head t n) \<le> n"
    "length (redacted_source t causes) \<le> 4096"
    using utf8_tail_length [of "redact s" "16 * 1024"] utf8_head_length [of "redact t" n]
      utf8_head_length [of "redact (flattened_chain t causes)" "4 * 1024"]
    by (auto simp: redacted_tail_def redacted_head_def redacted_source_def
        MAX_DIAGNOSTIC_BYTES_def MAX_SOURCE_BYTES_def)
qed

section \<open>Properties\<close>


text \<open>
  Redaction never shortens a text, so a buffer cut with some slack still has it afterwards.
\<close>

theorem redaction_never_shortens: "length s \<le> length (redact s)"
proof -
  let ?s0 = "redact_anchored_values (redact_private_key_blocks s)"
  have "length s \<le> length (redact_private_key_blocks s)"
    using private_keys_length [of 0 s] by (simp add: redact_private_key_blocks_def)
  also have "\<dots> \<le> length ?s0"
    using redact_anchored_length [of "redact_private_key_blocks s" 0]
    by (simp add: redact_anchored_values_def)
  also have "\<dots> \<le> length (replace_all (RPC_USER @ '':'' @ RPC_PASSWORD) REDACTED ?s0)"
    by (rule replace_all_length) (simp add: RPC_USER_def RPC_PASSWORD_def REDACTED_def)
  also have "\<dots> \<le> length (replace_all BASIC_AUTH_PATTERN REDACTED_BASIC_AUTH
      (replace_all (RPC_USER @ '':'' @ RPC_PASSWORD) REDACTED ?s0))"
    by (rule replace_all_length) (simp add: BASIC_AUTH_PATTERN_def REDACTED_BASIC_AUTH_def)
  also have "\<dots> \<le> length (redact s)"
    unfolding redact_def redaction_patterns_def
    by (simp add: RPC_USER_def REDACTED_def replace_all_length)
  finally show ?thesis .
qed



text \<open>
  A value that starts like the marker is taken for one already redacted: for a value that
  extends to the end of its line, everything after it escapes.
\<close>

lemma marked_line_is_passed_over:
  "redact_anchored_values ''mnemonic=[REDACTED] rpcpass=hunter2'' = ''mnemonic=[REDACTED] rpcpass=hunter2''"
  by code_simp

end
