(* ===== verification/Core_Types.thy ===== *)
theory Core_Types
  imports Core_Http
begin

text \<open>
  \<open>types.rs\<close> and \<open>network.rs\<close> of the crate \<open>nigiri-rs-core\<close>: the responses of the two
  networks with their deserialization, and what distinguishes Bitcoin from Liquid. Parsing of
  addresses, hashes and commitments belongs to other crates (record \<open>chain_lib\<close>); such a value
  is represented by its canonical text.
\<close>

record chain_lib =
  parse_json_text :: "string \<Rightarrow> json option"
  bitcoin_txid :: "string \<Rightarrow> string option"
  bitcoin_block_hash :: "string \<Rightarrow> string option"
  bitcoin_address :: "string \<Rightarrow> string option"
  bitcoin_is_regtest :: "string \<Rightarrow> bool"
  elements_txid :: "string \<Rightarrow> string option"
  elements_block_hash :: "string \<Rightarrow> string option"
  elements_address :: "string \<Rightarrow> string option"
  elements_is_regtest :: "string \<Rightarrow> bool"
  elements_asset :: "string \<Rightarrow> string option"
  pedersen_commitment :: "string \<Rightarrow> string option"
  asset_generator :: "string \<Rightarrow> string option"
  amount_in_bitcoin :: "u64 \<Rightarrow> string"
  amount_of_bitcoin :: "string \<Rightarrow> u64 option"
  json_number :: "string \<Rightarrow> string option"

section \<open>Responses\<close>

record mint_response =
  mr_asset :: string
  mr_txid :: string
  mr_issuance_txin :: issuance_txin

record tx_status =
  ts_confirmed :: bool
  ts_block_height :: "u64 option"
  ts_block_hash :: "string option"
  ts_block_time :: "u64 option"

record address_stats =
  as_tx_count :: u64
  as_funded_txo_count :: u64
  as_funded_txo_sum :: u64
  as_spent_txo_count :: u64
  as_spent_txo_sum :: u64

record bitcoin_address_info =
  bi_address :: string
  bi_chain_stats :: address_stats
  bi_mempool_stats :: address_stats

record liquid_address_stats =
  ls_tx_count :: u64
  ls_funded_txo_count :: u64
  ls_spent_txo_count :: u64

record liquid_address_info =
  li_address :: string
  li_chain_stats :: liquid_address_stats
  li_mempool_stats :: liquid_address_stats

record bitcoin_utxo =
  bu_txid :: string
  bu_vout :: u32
  bu_value :: u64
  bu_status :: tx_status

record liquid_utxo =
  lu_txid :: string
  lu_vout :: u32
  lu_value :: "u64 option"
  lu_asset :: "string option"
  lu_value_commitment :: "string option"
  lu_asset_commitment :: "string option"
  lu_status :: tx_status

record tx_info =
  ti_txid :: string
  ti_size :: u64
  ti_weight :: u64
  ti_fee :: u64
  ti_status :: tx_status

text \<open>\<open>amount_from_sats\<close> and its optional form: an amount is its count of satoshis.\<close>

definition amount_from_sats :: "json \<Rightarrow> u64 option" where
  "amount_from_sats = decode_u64"

definition optional_amount_from_sats :: "json \<Rightarrow> u64 option option" where
  "optional_amount_from_sats = optional decode_u64"

definition decode_tx_status :: "(string \<Rightarrow> string option) \<Rightarrow> json \<Rightarrow> tx_status option" where
  "decode_tx_status block_hash j =
     Option.bind (struct_fields [''confirmed'', ''block_height'', ''block_hash'', ''block_time''] j)
       (\<lambda>fs. Option.bind (required decode_bool (fs ! 0)) (\<lambda>confirmed.
        Option.bind (defaulted None (optional decode_u64) (fs ! 1)) (\<lambda>height.
        Option.bind (defaulted None (optional (from_string block_hash)) (fs ! 2)) (\<lambda>hash.
        Option.bind (defaulted None (optional decode_u64) (fs ! 3)) (\<lambda>time.
          Some \<lparr>ts_confirmed = confirmed, ts_block_height = height, ts_block_hash = hash,
                ts_block_time = time\<rparr>)))))"

definition decode_address_stats :: "json \<Rightarrow> address_stats option" where
  "decode_address_stats j =
     Option.bind (struct_fields [''tx_count'', ''funded_txo_count'', ''funded_txo_sum'',
         ''spent_txo_count'', ''spent_txo_sum''] j)
       (\<lambda>fs. Option.bind (required decode_u64 (fs ! 0)) (\<lambda>txs.
        Option.bind (required decode_u64 (fs ! 1)) (\<lambda>funded.
        Option.bind (required amount_from_sats (fs ! 2)) (\<lambda>funded_sum.
        Option.bind (required decode_u64 (fs ! 3)) (\<lambda>spent.
        Option.bind (required amount_from_sats (fs ! 4)) (\<lambda>spent_sum.
          Some \<lparr>as_tx_count = txs, as_funded_txo_count = funded, as_funded_txo_sum = funded_sum,
                as_spent_txo_count = spent, as_spent_txo_sum = spent_sum\<rparr>))))))"

definition decode_bitcoin_address_info :: "chain_lib \<Rightarrow> json \<Rightarrow> bitcoin_address_info option" where
  "decode_bitcoin_address_info lib j =
     Option.bind (struct_fields [''address'', ''chain_stats'', ''mempool_stats''] j)
       (\<lambda>fs. Option.bind (required (from_string (bitcoin_address lib)) (fs ! 0)) (\<lambda>address.
        Option.bind (required decode_address_stats (fs ! 1)) (\<lambda>chain.
        Option.bind (required decode_address_stats (fs ! 2)) (\<lambda>mempool.
          Some \<lparr>bi_address = address, bi_chain_stats = chain, bi_mempool_stats = mempool\<rparr>))))"

definition decode_liquid_address_stats :: "json \<Rightarrow> liquid_address_stats option" where
  "decode_liquid_address_stats j =
     Option.bind (struct_fields [''tx_count'', ''funded_txo_count'', ''spent_txo_count''] j)
       (\<lambda>fs. Option.bind (required decode_u64 (fs ! 0)) (\<lambda>txs.
        Option.bind (required decode_u64 (fs ! 1)) (\<lambda>funded.
        Option.bind (required decode_u64 (fs ! 2)) (\<lambda>spent.
          Some \<lparr>ls_tx_count = txs, ls_funded_txo_count = funded, ls_spent_txo_count = spent\<rparr>))))"

definition decode_liquid_address_info :: "chain_lib \<Rightarrow> json \<Rightarrow> liquid_address_info option" where
  "decode_liquid_address_info lib j =
     Option.bind (struct_fields [''address'', ''chain_stats'', ''mempool_stats''] j)
       (\<lambda>fs. Option.bind (required (from_string (elements_address lib)) (fs ! 0)) (\<lambda>address.
        Option.bind (required decode_liquid_address_stats (fs ! 1)) (\<lambda>chain.
        Option.bind (required decode_liquid_address_stats (fs ! 2)) (\<lambda>mempool.
          Some \<lparr>li_address = address, li_chain_stats = chain, li_mempool_stats = mempool\<rparr>))))"

definition decode_bitcoin_utxo :: "chain_lib \<Rightarrow> json \<Rightarrow> bitcoin_utxo option" where
  "decode_bitcoin_utxo lib j =
     Option.bind (struct_fields [''txid'', ''vout'', ''value'', ''status''] j)
       (\<lambda>fs. Option.bind (required (from_string (bitcoin_txid lib)) (fs ! 0)) (\<lambda>txid.
        Option.bind (required decode_u32 (fs ! 1)) (\<lambda>vout.
        Option.bind (required amount_from_sats (fs ! 2)) (\<lambda>value.
        Option.bind (required (decode_tx_status (bitcoin_block_hash lib)) (fs ! 3)) (\<lambda>status.
          Some \<lparr>bu_txid = txid, bu_vout = vout, bu_value = value, bu_status = status\<rparr>)))))"

definition decode_liquid_utxo :: "chain_lib \<Rightarrow> json \<Rightarrow> liquid_utxo option" where
  "decode_liquid_utxo lib j =
     Option.bind (struct_fields [''txid'', ''vout'', ''value'', ''asset'', ''valuecommitment'',
         ''assetcommitment'', ''status''] j)
       (\<lambda>fs. Option.bind (required (from_string (elements_txid lib)) (fs ! 0)) (\<lambda>txid.
        Option.bind (required decode_u32 (fs ! 1)) (\<lambda>vout.
        Option.bind (defaulted None optional_amount_from_sats (fs ! 2)) (\<lambda>value.
        Option.bind (defaulted None (optional_from_string (elements_asset lib)) (fs ! 3)) (\<lambda>asset.
        Option.bind (defaulted None (optional_from_string (pedersen_commitment lib)) (fs ! 4))
          (\<lambda>value_commitment.
        Option.bind (defaulted None (optional_from_string (asset_generator lib)) (fs ! 5))
          (\<lambda>asset_commitment.
        Option.bind (required (decode_tx_status (elements_block_hash lib)) (fs ! 6)) (\<lambda>status.
          Some \<lparr>lu_txid = txid, lu_vout = vout, lu_value = value, lu_asset = asset,
                lu_value_commitment = value_commitment,
                lu_asset_commitment = asset_commitment, lu_status = status\<rparr>))))))))"

text \<open>\<open>BitcoinTxInfo\<close> and \<open>LiquidTxInfo\<close> differ only in the types of their identifiers.\<close>

definition decode_tx_info ::
  "(string \<Rightarrow> string option) \<Rightarrow> (string \<Rightarrow> string option) \<Rightarrow> json \<Rightarrow> tx_info option"
where
  "decode_tx_info txid_of block_hash j =
     Option.bind (struct_fields [''txid'', ''size'', ''weight'', ''fee'', ''status''] j)
       (\<lambda>fs. Option.bind (required (from_string txid_of) (fs ! 0)) (\<lambda>txid.
        Option.bind (required decode_u64 (fs ! 1)) (\<lambda>size.
        Option.bind (required decode_u64 (fs ! 2)) (\<lambda>weight.
        Option.bind (required amount_from_sats (fs ! 3)) (\<lambda>fee.
        Option.bind (required (decode_tx_status block_hash) (fs ! 4)) (\<lambda>status.
          Some \<lparr>ti_txid = txid, ti_size = size, ti_weight = weight, ti_fee = fee,
                ti_status = status\<rparr>))))))"

section \<open>The networks\<close>

text \<open>
  The trait \<open>NigiriNetwork\<close> with its sealed operations, as a record of functions; \<open>parse_block_hash\<close>
  of the trait has no caller beyond deserialization and is \<open>net_block_hash\<close> here.
\<close>

record ('utxo, 'info) nigiri_network =
  net_native_send_params :: "string \<Rightarrow> string \<Rightarrow> json"
  net_block_hash :: "string \<Rightarrow> string option"
  net_parse_txid :: "string \<Rightarrow> string \<Rightarrow> nigiri_error + string"
  net_parse_block_hash :: "string \<Rightarrow> string \<Rightarrow> nigiri_error + string"
  net_parse_address :: "string \<Rightarrow> string \<Rightarrow> nigiri_error + string"
  net_parse_utxos :: "string \<Rightarrow> string \<Rightarrow> nigiri_error + 'utxo list"
  net_parse_tx_info :: "string \<Rightarrow> string \<Rightarrow> nigiri_error + tx_info"
  net_parse_address_info :: "string \<Rightarrow> string \<Rightarrow> nigiri_error + 'info"
  net_parse_tx_status :: "string \<Rightarrow> string \<Rightarrow> nigiri_error + tx_status"

definition invalid_expected :: "string \<Rightarrow> string \<Rightarrow> nigiri_error" where
  "invalid_expected operation expected = NInvalidResponse operation (''expected '' @ expected)"

definition trim_matches :: "char \<Rightarrow> string \<Rightarrow> string" where
  "trim_matches c s = rev (dropWhile (\<lambda>d. d = c) (rev (dropWhile (\<lambda>d. d = c) s)))"

definition parse_string ::
  "(string \<Rightarrow> 'a option) \<Rightarrow> string \<Rightarrow> string \<Rightarrow> string \<Rightarrow> nigiri_error + 'a"
where
  "parse_string parse operation value expected =
     ok_or (parse (trim_matches (CHR 0x22) (trim value))) (invalid_expected operation expected)"

definition parse_json ::
  "chain_lib \<Rightarrow> (json \<Rightarrow> 'a option) \<Rightarrow> string \<Rightarrow> string \<Rightarrow> string \<Rightarrow> nigiri_error + 'a"
where
  "parse_json lib decode operation body expected =
     ok_or (Option.bind (parse_json_text lib body) decode) (invalid_expected operation expected)"

definition Bitcoin_native_send_params :: "string \<Rightarrow> string \<Rightarrow> json" where
  "Bitcoin_native_send_params address amount = JArray [JString address, JNumber amount]"

definition Liquid_native_send_params :: "string \<Rightarrow> string \<Rightarrow> json" where
  "Liquid_native_send_params address amount =
     JArray [JString address, JNumber amount, JString [], JString [], JBool False, JBool False,
       JNumber ''1'', JString ''unset'', JBool False, JString []]"

definition Bitcoin_parse_address :: "chain_lib \<Rightarrow> string \<Rightarrow> string \<Rightarrow> nigiri_error + string" where
  "Bitcoin_parse_address lib operation value =
     and_then (parse_string (bitcoin_address lib) operation value ''Bitcoin address'') (\<lambda>a.
       if bitcoin_is_regtest lib a then Ok a
       else Err (invalid_expected operation ''Bitcoin address was not for regtest''))"

definition Liquid_parse_address :: "chain_lib \<Rightarrow> string \<Rightarrow> string \<Rightarrow> nigiri_error + string" where
  "Liquid_parse_address lib operation value =
     and_then (parse_string (elements_address lib) operation value ''Liquid address'') (\<lambda>a.
       if elements_is_regtest lib a then Ok a
       else Err (invalid_expected operation ''Liquid address was not for regtest''))"

definition Bitcoin_network :: "chain_lib \<Rightarrow> (bitcoin_utxo, bitcoin_address_info) nigiri_network" where
  "Bitcoin_network lib = \<lparr>
     net_native_send_params = Bitcoin_native_send_params,
     net_block_hash = bitcoin_block_hash lib,
     net_parse_txid = (\<lambda>op v. parse_string (bitcoin_txid lib) op v ''Bitcoin txid''),
     net_parse_block_hash =
       (\<lambda>op v. parse_string (bitcoin_block_hash lib) op v ''Bitcoin block hash''),
     net_parse_address = Bitcoin_parse_address lib,
     net_parse_utxos =
       (\<lambda>op b. parse_json lib (decode_list (decode_bitcoin_utxo lib)) op b ''Bitcoin UTXO list''),
     net_parse_tx_info = (\<lambda>op b. parse_json lib
        (decode_tx_info (bitcoin_txid lib) (bitcoin_block_hash lib)) op b ''Bitcoin transaction''),
     net_parse_address_info = (\<lambda>op b. parse_json lib (decode_bitcoin_address_info lib) op b
        ''Bitcoin address information''),
     net_parse_tx_status = (\<lambda>op b. parse_json lib (decode_tx_status (bitcoin_block_hash lib)) op b
        ''Bitcoin transaction status'')\<rparr>"

definition Liquid_network :: "chain_lib \<Rightarrow> (liquid_utxo, liquid_address_info) nigiri_network" where
  "Liquid_network lib = \<lparr>
     net_native_send_params = Liquid_native_send_params,
     net_block_hash = elements_block_hash lib,
     net_parse_txid = (\<lambda>op v. parse_string (elements_txid lib) op v ''Liquid txid''),
     net_parse_block_hash =
       (\<lambda>op v. parse_string (elements_block_hash lib) op v ''Liquid block hash''),
     net_parse_address = Liquid_parse_address lib,
     net_parse_utxos =
       (\<lambda>op b. parse_json lib (decode_list (decode_liquid_utxo lib)) op b ''Liquid UTXO list''),
     net_parse_tx_info = (\<lambda>op b. parse_json lib
        (decode_tx_info (elements_txid lib) (elements_block_hash lib)) op b ''Liquid transaction''),
     net_parse_address_info = (\<lambda>op b. parse_json lib (decode_liquid_address_info lib) op b
        ''Liquid address information''),
     net_parse_tx_status = (\<lambda>op b. parse_json lib (decode_tx_status (elements_block_hash lib)) op b
        ''Liquid transaction status'')\<rparr>"

lemma parse_string_eq_Ok [result_simps]:
  "parse_string parse op v e = Ok a \<longleftrightarrow> parse (trim_matches (CHR 0x22) (trim v)) = Some a"
  by (simp add: parse_string_def result_simps)

lemma parse_json_eq_Ok [result_simps]:
  "parse_json lib decode op b e = Ok a \<longleftrightarrow> Option.bind (parse_json_text lib b) decode = Some a"
  by (simp add: parse_json_def result_simps)

end
