(* ===== verification/Core_Rpc.thy ===== *)
theory Core_Rpc
  imports Core_Types
begin

text \<open>
  \<open>node_rpc.rs\<close>, \<open>rpc.rs\<close>, \<open>client.rs\<close> and \<open>liquid.rs\<close> of the crate
  \<open>nigiri-rs-core\<close>: one JSON-RPC request and the order in which its response is judged, the
  operations of a client as compositions of requests, and the two polling loops under a deadline.
\<close>

text \<open>What the client calls in other crates: parsers, the network, and the URL type.\<close>

record externals =
  x_lib :: chain_lib
  x_net :: network_answer
  x_extend_path :: "base_url \<Rightarrow> string list \<Rightarrow> base_url"

record ('utxo, 'info) nigiri_client =
  cl_config :: nigiri_config
  cl_network :: "('utxo, 'info) nigiri_network"

definition NigiriClient_with_config ::
  "bool \<Rightarrow> ('utxo, 'info) nigiri_network \<Rightarrow> nigiri_config
     \<Rightarrow> nigiri_error + ('utxo, 'info) nigiri_client"
where
  "NigiriClient_with_config http_builds n config =
     and_then (validate_and_normalize config) (\<lambda>config.
       if http_builds then Ok \<lparr>cl_config = config, cl_network = n\<rparr>
       else Err (HttpTransport ''build HTTP client''))"

section \<open>One call\<close>

definition rpc_invalid_response :: "string \<Rightarrow> string \<Rightarrow> nigiri_error" where
  "rpc_invalid_response method detail = NInvalidResponse method detail"

record rpc_request =
  rq_jsonrpc :: string
  rq_id :: string
  rq_method :: string
  rq_params :: json

definition request_json :: "rpc_request \<Rightarrow> json" where
  "request_json r = JObject [(''jsonrpc'', JString (rq_jsonrpc r)), (''id'', JString (rq_id r)),
     (''method'', JString (rq_method r)), (''params'', rq_params r)]"

record rpc_response =
  rs_result :: json
  rs_error :: json
  rs_id :: string

definition decode_rpc_response :: "json \<Rightarrow> rpc_response option" where
  "decode_rpc_response j =
     Option.bind (struct_fields [''result'', ''error'', ''id''] j)
       (\<lambda>fs. Option.bind (fs ! 0) (\<lambda>result. Option.bind (fs ! 1) (\<lambda>error.
        Option.bind (required decode_string (fs ! 2)) (\<lambda>id.
          Some \<lparr>rs_result = as_value result, rs_error = as_value error, rs_id = id\<rparr>))))"

record rpc_error_payload =
  ep_code :: i32
  ep_message :: string

definition decode_rpc_error_payload :: "json \<Rightarrow> rpc_error_payload option" where
  "decode_rpc_error_payload j =
     Option.bind (struct_fields [''code'', ''message''] j)
       (\<lambda>fs. Option.bind (required decode_i32 (fs ! 0)) (\<lambda>code.
        Option.bind (required decode_string (fs ! 1)) (\<lambda>message.
          Some \<lparr>ep_code = code, ep_message = message\<rparr>)))"

definition rpc_params :: "json \<Rightarrow> json" where
  "rpc_params params = (if is_null params then JArray [] else params)"

definition rpc_post :: "nigiri_config \<Rightarrow> string \<Rightarrow> json \<Rightarrow> http_request" where
  "rpc_post config method params =
     HttpPost (nc_node_rpc_url config) (nc_node_rpc_user config) (nc_node_rpc_password config)
       (request_json \<lparr>rq_jsonrpc = ''1.0'', rq_id = ''nigiri-rs'', rq_method = method,
          rq_params = rpc_params params\<rparr>)"

text \<open>What follows once the response is read: the first applicable verdict is returned.\<close>

definition judge_response ::
  "chain_lib \<Rightarrow> string \<Rightarrow> string list \<Rightarrow> (json \<Rightarrow> 'r option) \<Rightarrow> bounded_response \<Rightarrow> nigiri_error + 'r"
where
  "judge_response lib method sensitive decode response =
     (let http_error = (if is_success (br_status response) then None
                        else Some (status_error response method sensitive))
      in and_then (into_body response method) (\<lambda>body.
         case Option.bind (parse_json_text lib body) decode_rpc_response of
           None \<Rightarrow> Err (case http_error of Some e \<Rightarrow> e
             | None \<Rightarrow> rpc_invalid_response method ''expected a matching JSON-RPC response envelope'')
         | Some envelope \<Rightarrow>
             if rs_id envelope \<noteq> ''nigiri-rs''
             then Err (case http_error of Some e \<Rightarrow> e
               | None \<Rightarrow> rpc_invalid_response method ''expected a matching JSON-RPC response envelope'')
             else if \<not> is_null (rs_error envelope)
             then if \<not> is_null (rs_result envelope)
                  then Err (rpc_invalid_response method
                         ''response contains both a result and an error'')
                  else and_then (ok_or (decode_rpc_error_payload (rs_error envelope))
                         (rpc_invalid_response method ''invalid JSON-RPC error payload'')) (\<lambda>error.
                       Err (RpcFailed method (ep_code error)
                              (redact_sensitive (ep_message error) sensitive)))
             else case http_error of Some e \<Rightarrow> Err e
               | None \<Rightarrow> ok_or (decode (rs_result envelope))
                   (rpc_invalid_response method ''result did not match the requested type'')))"

text \<open>\<open>params\<close> is \<open>None\<close> when it cannot be serialized.\<close>

definition call_with_sensitive ::
  "externals \<Rightarrow> ('u, 'i) nigiri_client \<Rightarrow> string \<Rightarrow> json option \<Rightarrow> string list \<Rightarrow> (json \<Rightarrow> 'r option)
     \<Rightarrow> 'r io"
where
  "call_with_sensitive x client method params sensitive decode =
     io_bind (io_lift (ok_or params
                (NInvalidRequest ''node RPC parameters could not be serialized''))) (\<lambda>params.
     io_bind (send (x_net x) (cl_config client) method (rpc_post (cl_config client) method params))
       (\<lambda>response. io_lift (judge_response (x_lib x) method sensitive decode response)))"

definition call where
  "call x client method params decode = call_with_sensitive x client method (Some params) [] decode"

definition call_sensitive where
  "call_sensitive x client method params sensitive decode =
     call_with_sensitive x client method (Some params) sensitive decode"

text \<open>The reference order: a successful status, a fitting body, our identifier, no error.\<close>

lemma judge_response_Ok:
  "judge_response lib method sensitive decode response = Ok r \<longleftrightarrow>
     is_success (br_status response) \<and> \<not> br_exceeded response
     \<and> (\<exists>envelope. Option.bind (parse_json_text lib (br_body response)) decode_rpc_response
            = Some envelope
          \<and> rs_id envelope = ''nigiri-rs'' \<and> rs_error envelope = JNull
          \<and> decode (rs_result envelope) = Some r)"
  by (auto simp: judge_response_def Let_def into_body_def result_simps is_null_def
      split: option.splits if_splits)

lemma judge_response_RpcFailed:
  assumes "judge_response lib method sensitive decode response = Err (RpcFailed m code message)"
  shows "m = method \<and> \<not> br_exceeded response
    \<and> (\<exists>envelope payload. Option.bind (parse_json_text lib (br_body response)) decode_rpc_response
            = Some envelope
          \<and> rs_id envelope = ''nigiri-rs'' \<and> rs_result envelope = JNull
          \<and> decode_rpc_error_payload (rs_error envelope) = Some payload
          \<and> code = ep_code payload \<and> message = redact_sensitive (ep_message payload) sensitive)"
  using assms
  by (auto simp: judge_response_def Let_def into_body_def result_simps is_null_def
      status_error_def rpc_invalid_response_def split: option.splits if_splits)

lemma call_with_sensitive_world:
  "call_with_sensitive x client method params sensitive decode w = (r, w') \<Longrightarrow>
     (case params of
        None \<Rightarrow> w' = w
      | Some p \<Rightarrow> w_sent w' = w_sent w @ [rpc_post (cl_config client) method p]
          \<and> w_now w \<le> w_now w')"
  by (cases r; cases params)
    (auto simp: call_with_sensitive_def result_simps dest!: send_world)

lemma call_world:
  "call x client method params decode w = (r, w') \<Longrightarrow>
     w_sent w' = w_sent w @ [rpc_post (cl_config client) method params] \<and> w_now w \<le> w_now w'"
  by (auto simp: call_def dest: call_with_sensitive_world)

lemma call_sensitive_world:
  "call_sensitive x client method params sensitive decode w = (r, w') \<Longrightarrow>
     w_sent w' = w_sent w @ [rpc_post (cl_config client) method params] \<and> w_now w \<le> w_now w'"
  by (auto simp: call_sensitive_def dest: call_with_sensitive_world)

section \<open>Node operations\<close>

definition MAX_RPC_METHOD_BYTES :: nat where
  "MAX_RPC_METHOD_BYTES = 64"

definition validate_rpc_method :: "string \<Rightarrow> nigiri_error + unit" where
  "validate_rpc_method method =
     (if method \<noteq> [] \<and> length method \<le> MAX_RPC_METHOD_BYTES
         \<and> list_all (\<lambda>c. is_ascii_alphanumeric c \<or> c = CHR ''_'') method
      then Ok ()
      else Err (NInvalidRequest
        (''RPC method must be 1 to '' @ show_radix 10 MAX_RPC_METHOD_BYTES
           @ '' bytes of ASCII letters, digits, and underscores'')))"

definition rpc where
  "rpc x client method params decode =
     io_bind (io_lift (validate_rpc_method method)) (\<lambda>_.
       call_with_sensitive x client method params [] decode)"

definition new_address where
  "new_address x client =
     io_bind (call x client ''getnewaddress'' JNull decode_string) (\<lambda>value.
       io_lift (net_parse_address (cl_network client) ''new address'' value))"

definition best_block_hash where
  "best_block_hash x client =
     call x client ''getbestblockhash'' JNull (from_string (net_block_hash (cl_network client)))"

definition generate_to_address where
  "generate_to_address x client blocks address =
     (if (blocks :: u64) = 0
      then io_lift (Err (NInvalidRequest ''block count must be greater than zero''))
      else call x client ''generatetoaddress''
             (JArray [JNumber (show_radix 10 (unat blocks)), JString address])
             (decode_list (from_string (net_block_hash (cl_network client)))))"

text \<open>A result of type \<open>()\<close> is JSON's null.\<close>

definition decode_unit :: "json \<Rightarrow> unit option" where
  "decode_unit j = (if is_null j then Some () else None)"

definition rpc_unit where
  "rpc_unit x client method hash = call x client method (JArray [JString hash]) decode_unit"

definition invalidate_block where
  "invalidate_block x client hash = rpc_unit x client ''invalidateblock'' hash"

definition reconsider_block where
  "reconsider_block x client hash = rpc_unit x client ''reconsiderblock'' hash"

section \<open>Esplora operations\<close>

definition esplora_get ::
  "externals \<Rightarrow> ('u, 'i) nigiri_client \<Rightarrow> string \<Rightarrow> string list \<Rightarrow> string list \<Rightarrow> string io"
where
  "esplora_get x client operation segments sensitive =
     io_bind (io_lift (endpoint (x_extend_path x) (nc_esplora_url (cl_config client)) operation
               segments)) (\<lambda>url.
       send_bounded (x_net x) (cl_config client) operation (HttpGet url) sensitive)"

definition block_height :: "externals \<Rightarrow> ('u, 'i) nigiri_client \<Rightarrow> u64 io" where
  "block_height x client =
     io_bind (esplora_get x client ''block height'' [''blocks'', ''tip'', ''height''] []) (\<lambda>body.
     io_bind (io_lift (ok_or (from_utf8 body)
                (invalid_expected ''block height'' ''decimal height''))) (\<lambda>s.
       io_lift (ok_or (parse_u64 (trim s)) (invalid_expected ''block height'' ''decimal height''))))"

definition get_utxos where
  "get_utxos x client address =
     io_bind (esplora_get x client ''get UTXOs'' [''address'', address, ''utxo''] [address])
       (\<lambda>body. io_lift (net_parse_utxos (cl_network client) ''get UTXOs'' body))"

definition has_funds where
  "has_funds x client address =
     io_bind (get_utxos x client address) (\<lambda>utxos. io_return (utxos \<noteq> []))"

definition get_address_info where
  "get_address_info x client address =
     io_bind (esplora_get x client ''get address information'' [''address'', address] [address])
       (\<lambda>body. io_lift (net_parse_address_info (cl_network client) ''get address information'' body))"

definition get_tx where
  "get_tx x client txid =
     io_bind (esplora_get x client ''get transaction'' [''tx'', txid] [txid])
       (\<lambda>body. io_lift (net_parse_tx_info (cl_network client) ''get transaction'' body))"

definition get_tx_status where
  "get_tx_status x client txid =
     io_bind (esplora_get x client ''get transaction status'' [''tx'', txid, ''status''] [txid])
       (\<lambda>body. io_lift (net_parse_tx_status (cl_network client) ''get transaction status'' body))"

lemma esplora_get_clock:
  "esplora_get x client operation segments sensitive w = (r, w') \<Longrightarrow> w_now w \<le> w_now w'"
  by (cases r) (auto simp: esplora_get_def result_simps dest!: send_bounded_world)

lemma block_height_clock: "block_height x client w = (r, w') \<Longrightarrow> w_now w \<le> w_now w'"
  by (cases r) (auto simp: block_height_def result_simps dest!: esplora_get_clock)

lemma get_tx_status_clock: "get_tx_status x client txid w = (r, w') \<Longrightarrow> w_now w \<le> w_now w'"
  by (cases r) (auto simp: get_tx_status_def result_simps dest!: esplora_get_clock)

section \<open>Funding and broadcasting\<close>

definition ONE_BTC :: u64 where
  "ONE_BTC = 100000000"

definition amount_as_json_number :: "chain_lib \<Rightarrow> u64 \<Rightarrow> string \<Rightarrow> nigiri_error + string \<times> string" where
  "amount_as_json_number lib amount detail =
     (let amount_text = amount_in_bitcoin lib amount
      in and_then (ok_or (json_number lib amount_text) (NInvalidRequest detail)) (\<lambda>number.
           Ok (amount_text, number)))"

definition mine_committed_transaction where
  "mine_committed_transaction x client operation txid =
     io_map_err (PostTransactionMiningFailed operation txid)
       (io_bind (new_address x client) (\<lambda>address.
        io_bind (generate_to_address x client 1 address) (\<lambda>_. io_return ())))"

definition faucet where
  "faucet x client address amount =
     (let amount = (case amount of Some a \<Rightarrow> a | None \<Rightarrow> ONE_BTC) in
      io_bind (io_lift (amount_as_json_number (x_lib x) amount
                 ''faucet amount could not be represented as JSON'')) (\<lambda>(amount_text, amount).
      io_bind (call_sensitive x client ''sendtoaddress''
                 (net_native_send_params (cl_network client) address amount)
                 [address, amount_text] decode_string) (\<lambda>value.
      io_bind (io_lift (net_parse_txid (cl_network client) ''faucet'' value)) (\<lambda>txid.
      io_bind (mine_committed_transaction x client ''faucet'' txid) (\<lambda>_. io_return txid)))))"

definition broadcast_tx where
  "broadcast_tx x client transaction_hex =
     io_bind (call_sensitive x client ''sendrawtransaction'' (JArray [JString transaction_hex])
                [transaction_hex] decode_string) (\<lambda>value.
     io_bind (io_lift (net_parse_txid (cl_network client) ''broadcast transaction'' value)) (\<lambda>txid.
     io_bind (mine_committed_transaction x client ''broadcast transaction'' txid) (\<lambda>_.
       io_return txid)))"

section \<open>Liquid\<close>

record issue_asset_response =
  ia_txid :: string
  ia_vin :: u32
  ia_asset :: string

definition decode_issue_asset_response :: "chain_lib \<Rightarrow> json \<Rightarrow> issue_asset_response option" where
  "decode_issue_asset_response lib j =
     Option.bind (struct_fields [''txid'', ''vin'', ''asset''] j)
       (\<lambda>fs. Option.bind (required (from_string (elements_txid lib)) (fs ! 0)) (\<lambda>txid.
        Option.bind (required decode_u32 (fs ! 1)) (\<lambda>vin.
        Option.bind (required (from_string (elements_asset lib)) (fs ! 2)) (\<lambda>asset.
          Some \<lparr>ia_txid = txid, ia_vin = vin, ia_asset = asset\<rparr>))))"

definition asset_contract :: "string \<Rightarrow> string \<Rightarrow> json" where
  "asset_contract name ticker = JObject [
     (''entity'', JObject [(''domain'', JString ''nigiri-rs.invalid'')]),
     (''issuer_pubkey'', JString (concat (replicate 33 ''00''))),
     (''name'', JString name), (''precision'', JNumber ''0''), (''ticker'', JString ticker),
     (''version'', JNumber ''0'')]"

definition asset_transfer_params :: "string \<Rightarrow> string \<Rightarrow> string \<Rightarrow> json" where
  "asset_transfer_params address amount asset =
     JArray [JString address, JNumber amount, JString [], JString [], JBool False, JBool False,
       JNumber ''1'', JString ''unset'', JBool False, JString asset]"

text \<open>\<open>ContractHash::from_json_contract\<close> is the parameter \<open>contract_hash\<close>.\<close>

definition mint ::
  "externals \<Rightarrow> (json \<Rightarrow> string option) \<Rightarrow> ('u, 'i) nigiri_client \<Rightarrow> string \<Rightarrow> u64 \<Rightarrow> string \<Rightarrow> string
     \<Rightarrow> mint_response io"
where
  "mint x contract_hash client address quantity name ticker =
     io_bind (io_lift (ok_or (contract_hash (asset_contract name ticker))
                (NInvalidRequest ''asset contract could not be constructed''))) (\<lambda>hash.
     io_bind (call x client ''issueasset''
                (JArray [JNumber (show_radix 10 (unat quantity)), JNumber ''0'', JBool True,
                   JString hash]) (decode_issue_asset_response (x_lib x))) (\<lambda>issued.
     let issuance = \<lparr>it_txid = ia_txid issued, it_vin = ia_vin issued\<rparr> in
     io_bind (io_map_err (AssetTransferFailed (ia_asset issued) issuance)
                (call x client ''sendtoaddress''
                   (asset_transfer_params address (show_radix 10 (unat quantity)) (ia_asset issued))
                   (from_string (elements_txid (x_lib x))))) (\<lambda>txid.
       io_return \<lparr>mr_asset = ia_asset issued, mr_txid = txid, mr_issuance_txin = issuance\<rparr>)))"

definition faucet_asset ::
  "externals \<Rightarrow> ('u, 'i) nigiri_client \<Rightarrow> string \<Rightarrow> u64 \<Rightarrow> string \<Rightarrow> string io"
where
  "faucet_asset x client address amount asset =
     io_bind (io_lift (amount_as_json_number (x_lib x) amount
                ''asset amount could not be represented as JSON'')) (\<lambda>(_, amount).
       call x client ''sendtoaddress'' (asset_transfer_params address amount asset)
         (from_string (elements_txid (x_lib x))))"

section \<open>Polling under a deadline\<close>

text \<open>
  \<open>within_deadline\<close> around a loop that makes an attempt, judges it and sleeps: an attempt in
  flight at the deadline is abandoned, its request sent; whatever completes by the deadline counts.
  The loop of the source has no bound of its own, so its model is a partial function.
\<close>

partial_function (option) poll_until ::
  "(world \<Rightarrow> 'r \<times> world) \<Rightarrow> ('r \<Rightarrow> (nigiri_error + 'a) option) \<Rightarrow> nat \<Rightarrow> nat \<Rightarrow> nigiri_error
     \<Rightarrow> world \<Rightarrow> ((nigiri_error + 'a) \<times> world) option"
where
  "poll_until attempt verdict interval deadline late w =
     (let (r, w1) = attempt w in
      if deadline < w_now w1 then Some (Err late, w1\<lparr>w_now := deadline\<rparr>)
      else case verdict r of
        Some answer \<Rightarrow> Some (answer, w1)
      | None \<Rightarrow>
          (let w2 = w1\<lparr>w_now := w_now w1 + interval\<rparr> in
           if deadline < w_now w2 then Some (Err late, w1\<lparr>w_now := deadline\<rparr>)
           else poll_until attempt verdict interval deadline late w2))"

definition within_deadline ::
  "(world \<Rightarrow> 'r \<times> world) \<Rightarrow> ('r \<Rightarrow> (nigiri_error + 'a) option) \<Rightarrow> nat \<Rightarrow> string \<Rightarrow> duration
     \<Rightarrow> world \<Rightarrow> ((nigiri_error + 'a) \<times> world) option"
where
  "within_deadline attempt verdict interval operation d w =
     poll_until attempt verdict interval (w_now w + as_nanos d) (NTimeout operation d) w"

definition ready_verdict :: "nigiri_error + u64 \<Rightarrow> (nigiri_error + unit) option" where
  "ready_verdict r = (if is_ok r then Some (Ok ()) else None)"

definition wait_ready where
  "wait_ready x client =
     within_deadline (block_height x client) ready_verdict (as_nanos (from_millis 100))
       ''wait for readiness'' (nc_timeout (cl_config client))"

fun confirmation_verdict :: "nigiri_error + tx_status \<Rightarrow> (nigiri_error + unit) option" where
  "confirmation_verdict (Ok status) = (if ts_confirmed status then Some (Ok ()) else None)"
| "confirmation_verdict (Err (HttpStatus operation status body)) =
     (if status = 404 then None else Some (Err (HttpStatus operation status body)))"
| "confirmation_verdict (Err e) = Some (Err e)"

definition wait_for_confirmation where
  "wait_for_confirmation x client txid timeout =
     within_deadline (get_tx_status x client txid) confirmation_verdict
       (as_nanos (from_millis 500)) ''wait for confirmation'' timeout"

text \<open>
  An attempt whose clock does not run backwards, polled at a positive interval: the loop ends, by
  the deadline, with the verdict on some attempt or with the timeout.
\<close>

locale polling =
  fixes attempt :: "world \<Rightarrow> 'r \<times> world"
    and verdict :: "'r \<Rightarrow> (nigiri_error + 'a) option"
    and interval :: nat
  assumes clock: "attempt w = (r, w') \<Longrightarrow> w_now w \<le> w_now w'"
    and interval: "0 < interval"
begin

lemma returns:
  "\<exists>answer w'. poll_until attempt verdict interval deadline late w = Some (answer, w')
     \<and> (w_now w \<le> deadline \<longrightarrow> w_now w' \<le> deadline)
     \<and> (answer = Err late \<and> w_now w' = deadline
        \<or> (\<exists>v r. attempt v = (r, w') \<and> verdict r = Some answer \<and> w_now w \<le> w_now v))"
proof (induction "Suc deadline - w_now w" arbitrary: w rule: less_induct)
  case less
  obtain r w1 where run: "attempt w = (r, w1)"
    by fastforce
  let ?w2 = "w1\<lparr>w_now := w_now w1 + interval\<rparr>"
  consider "deadline < w_now w1"
    | answer where "w_now w1 \<le> deadline" "verdict r = Some answer"
    | "w_now w1 \<le> deadline" "verdict r = None" "deadline < w_now ?w2"
    | "verdict r = None" "w_now ?w2 \<le> deadline"
    by (cases "verdict r") force+
  then show ?case
  proof cases
    case 4
    have later: "w_now w \<le> w_now ?w2" "Suc deadline - w_now ?w2 < Suc deadline - w_now w"
      using clock [OF run] interval 4(2) by simp_all
    have "poll_until attempt verdict interval deadline late w
        = poll_until attempt verdict interval deadline late ?w2"
      using 4 by (subst poll_until.simps) (simp add: run Let_def)
    then show ?thesis
      using less [OF later(2)] later(1) 4(2) by (fastforce intro: order_trans)
  qed (use run in \<open>subst poll_until.simps; force simp: Let_def\<close>)+
qed

text \<open>As many attempts as intervals fit before the deadline, and one more.\<close>

lemma attempts_bounded:
  assumes "\<And>w r w'. attempt w = (r, w') \<Longrightarrow> length (w_sent w') \<le> length (w_sent w) + k"
    and "poll_until attempt verdict interval deadline late w = Some (answer, w')"
    and "w_now w \<le> deadline"
  shows "length (w_sent w') \<le> length (w_sent w) + k * Suc ((deadline - w_now w) div interval)"
  using assms(2,3)
proof (induction "Suc deadline - w_now w" arbitrary: w rule: less_induct)
  case less
  obtain r w1 where run: "attempt w = (r, w1)"
    by fastforce
  let ?w2 = "w1\<lparr>w_now := w_now w1 + interval\<rparr>"
  have sent: "length (w_sent w1) \<le> length (w_sent w) + k"
    using assms(1) [OF run] .
  show ?case
  proof (cases "verdict r = None \<and> w_now ?w2 \<le> deadline")
    case True
    have later: "Suc deadline - w_now ?w2 < Suc deadline - w_now w"
      using clock [OF run] interval True [THEN conjunct2] by simp
    have "poll_until attempt verdict interval deadline late ?w2 = Some (answer, w')"
      using less.prems(1) True by (subst (asm) poll_until.simps) (simp add: run Let_def)
    then have "length (w_sent w')
        \<le> length (w_sent w1) + k * Suc ((deadline - w_now ?w2) div interval)"
      using less.hyps [OF later] True by simp
    moreover have "Suc ((deadline - w_now ?w2) div interval) \<le> (deadline - w_now w) div interval"
    proof -
      have "deadline - w_now ?w2 + interval \<le> deadline - w_now w"
        using clock [OF run] True by simp
      then have "(deadline - w_now ?w2 + interval) div interval \<le> (deadline - w_now w) div interval"
        by (rule div_le_mono)
      moreover have "(deadline - w_now ?w2 + interval) div interval
          = (deadline - w_now ?w2) div interval + 1"
        using interval by (intro div_add_self2) simp
      ultimately show ?thesis by simp
    qed
    ultimately have "length (w_sent w')
        \<le> length (w_sent w1) + k * ((deadline - w_now w) div interval)"
      by (meson add_left_mono le_trans mult_le_mono2)
    then show ?thesis
      using sent by simp
  next
    case False
    then have "w_sent w' = w_sent w1"
      using less.prems(1)
      by (subst (asm) poll_until.simps)
        (auto simp: run Let_def split: if_splits option.splits)
    then show ?thesis
      using sent by simp
  qed
qed

end

interpretation readiness: polling
  "block_height x client" ready_verdict "as_nanos (from_millis 100)" for x client
  by unfold_locales (auto dest: block_height_clock simp: from_millis_def as_nanos_def)

interpretation confirmation: polling
  "get_tx_status x client txid" confirmation_verdict "as_nanos (from_millis 500)"
  for x client txid
  by unfold_locales (auto dest: get_tx_status_clock simp: from_millis_def as_nanos_def)

lemma get_tx_status_sends:
  "get_tx_status x client txid w = (r, w') \<Longrightarrow> length (w_sent w') \<le> length (w_sent w) + 1"
  by (cases r) (auto simp: get_tx_status_def esplora_get_def result_simps
      dest!: send_bounded_world)

lemma block_height_sends:
  "block_height x client w = (r, w') \<Longrightarrow> length (w_sent w') \<le> length (w_sent w) + 1"
  by (cases r) (auto simp: block_height_def esplora_get_def result_simps
      dest!: send_bounded_world)

section \<open>Properties\<close>

text \<open>
  C21: an RPC call succeeds exactly when the node answered with a success status and a body within the
  limit that is an envelope with our identifier, a null error and a result of the requested type;
  one request is sent.
\<close>

theorem rpc_call_succeeds_iff:
  "fst (call_with_sensitive x client method (Some params) sensitive decode w) = Ok r \<longleftrightarrow>
     (\<exists>status chunks envelope.
        fst (x_net x w (rpc_post (cl_config client) method params)) = Responded status chunks
      \<and> is_success status \<and> broke_off chunks = None
      \<and> length (delivered chunks) \<le> nc_max_response_bytes (cl_config client)
      \<and> Option.bind (parse_json_text (x_lib x) (delivered chunks)) decode_rpc_response = Some envelope
      \<and> rs_id envelope = ''nigiri-rs'' \<and> rs_error envelope = JNull
      \<and> decode (rs_result envelope) = Some r)"
proof -
  obtain outcome taken where answer: "x_net x w (rpc_post (cl_config client) method params)
      = (outcome, taken)"
    by fastforce
  show ?thesis
    by (cases outcome)
      (auto simp: call_with_sensitive_def io_bind_def io_lift_def send_def answer Let_def
        read_body_spec judge_response_Ok split: option.splits if_splits)
qed

text \<open>
  A method name that is not 1 to 64 ASCII letters, digits and underscores never reaches the node,
  and with any other name exactly one request is sent.
\<close>

theorem rpc_method_is_validated:
  assumes "rpc x client method params decode w = (r, w')"
  shows "w_sent w' = w_sent w @
    (if 0 < length method \<and> length method \<le> 64
        \<and> list_all (\<lambda>c. is_ascii_alphanumeric c \<or> c = CHR ''_'') method
     then map (rpc_post (cl_config client) method) (case params of None \<Rightarrow> [] | Some p \<Rightarrow> [p])
     else [])"
proof -
  consider "is_ok (validate_rpc_method method)"
      "call_with_sensitive x client method params [] decode w = (r, w')"
    | "\<not> is_ok (validate_rpc_method method)" "w' = w"
    using assms by (cases r) (auto simp: rpc_def result_simps)
  then show ?thesis
    by cases
      (auto simp: validate_rpc_method_def MAX_RPC_METHOD_BYTES_def split: option.splits if_splits
        dest: call_with_sensitive_world)
qed

text \<open>The request that mines one block to a fresh address, after a committed transaction.\<close>

lemma show_one [simp]: "show_radix 10 (Suc 0) = ''1''"
  by code_simp

lemma mine_committed_transaction_Ok:
  assumes "mine_committed_transaction x client operation txid w = (Ok u, w')"
  shows "\<exists>address. w_sent w' = w_sent w @ [rpc_post (cl_config client) ''getnewaddress'' JNull,
    rpc_post (cl_config client) ''generatetoaddress'' (JArray [JNumber ''1'', JString address])]"
  using assms
  by (auto simp: mine_committed_transaction_def new_address_def generate_to_address_def result_simps
      dest!: call_world)

lemma mine_committed_transaction_Err:
  assumes "mine_committed_transaction x client operation txid w = (Err e, w')"
  shows "\<exists>source. e = PostTransactionMiningFailed operation txid source"
  using assms by (auto simp: mine_committed_transaction_def result_simps)

text \<open>What \<open>faucet\<close> and \<open>broadcast_tx\<close> share: a submission whose transaction is then mined.\<close>

lemma committed_then_mined:
  assumes "io_bind m (\<lambda>txid. io_bind (mine_committed_transaction x client op txid)
      (\<lambda>_. io_return txid)) w = (r, w')"
  obtains (submission) e where "m w = (Err e, w')" "r = Err e"
    | (mining) txid w1 source where "m w = (Ok txid, w1)"
        "r = Err (PostTransactionMiningFailed op txid source)"
    | (committed) txid w1 address where "m w = (Ok txid, w1)" "r = Ok txid"
        "w_sent w' = w_sent w1 @ [rpc_post (cl_config client) ''getnewaddress'' JNull,
           rpc_post (cl_config client) ''generatetoaddress'' (JArray [JNumber ''1'', JString address])]"
proof -
  obtain s w1 where m: "m w = (s, w1)"
    by fastforce
  show thesis
  proof (cases s)
    case (Inl e)
    then show ?thesis
      using assms m submission by (auto simp: io_bind_def)
  next
    case (Inr txid)
    obtain t w2 where mined: "mine_committed_transaction x client op txid w1 = (t, w2)"
      by fastforce
    show ?thesis
    proof (cases t)
      case (Inl e)
      then show ?thesis
        using assms m Inr mined mining mine_committed_transaction_Err
        by (fastforce simp: io_bind_def)
    next
      case t: (Inr u)
      then have "r = Ok txid" "w2 = w'"
        using assms m Inr mined by (auto simp: io_bind_def io_return_def)
      then show ?thesis
        using mine_committed_transaction_Ok [OF mined [unfolded t]] m Inr committed by blast
    qed
  qed
qed

definition faucet_submission where
  "faucet_submission x client address amount =
     io_bind (io_lift (amount_as_json_number (x_lib x) amount
                ''faucet amount could not be represented as JSON'')) (\<lambda>(amount_text, amount).
     io_bind (call_sensitive x client ''sendtoaddress''
                (net_native_send_params (cl_network client) address amount)
                [address, amount_text] decode_string) (\<lambda>value.
       io_lift (net_parse_txid (cl_network client) ''faucet'' value)))"

lemma io_bind_assoc: "io_bind (io_bind m f) g = io_bind m (\<lambda>a. io_bind (f a) g)"
  by (rule ext) (auto simp: io_bind_def split: prod.splits sum.splits)

lemma faucet_as_submission:
  "faucet x client address amount =
     io_bind (faucet_submission x client address (case amount of Some a \<Rightarrow> a | None \<Rightarrow> ONE_BTC))
       (\<lambda>txid. io_bind (mine_committed_transaction x client ''faucet'' txid) (\<lambda>_. io_return txid))"
  by (simp add: faucet_def faucet_submission_def io_bind_assoc case_prod_unfold)

lemma faucet_submission_Ok:
  assumes "faucet_submission x client address amount w = (Ok txid, w')"
  shows "\<exists>number. json_number (x_lib x) (amount_in_bitcoin (x_lib x) amount) = Some number
    \<and> w_sent w' = w_sent w @ [rpc_post (cl_config client) ''sendtoaddress''
         (net_native_send_params (cl_network client) address number)]"
  using assms
  by (auto simp: faucet_submission_def amount_as_json_number_def Let_def result_simps
      dest!: call_sensitive_world)

text \<open>
  C22: a faucet that succeeds sent exactly three requests in this order: the transfer of the amount to
  the address, a fresh address, one block to it. Once the transfer has committed, a failure
  is always reported as such with the transaction's identifier; any other failure means that the
  transfer itself was not confirmed to the caller.
\<close>

theorem faucet_reports_committed_transfer:
  assumes "faucet x client address (Some amount) w = (r, w')"
  shows "case r of
      Ok txid \<Rightarrow> \<exists>number mined_to. json_number (x_lib x) (amount_in_bitcoin (x_lib x) amount) = Some number
        \<and> w_sent w' = w_sent w @ [
            rpc_post (cl_config client) ''sendtoaddress''
              (net_native_send_params (cl_network client) address number),
            rpc_post (cl_config client) ''getnewaddress'' JNull,
            rpc_post (cl_config client) ''generatetoaddress''
              (JArray [JNumber ''1'', JString mined_to])]
    | Err e \<Rightarrow> (case fst (faucet_submission x client address amount w) of
        Ok txid \<Rightarrow> (\<exists>source. e = PostTransactionMiningFailed ''faucet'' txid source)
      | Err e' \<Rightarrow> e = e')"
proof -
  have "io_bind (faucet_submission x client address amount)
      (\<lambda>txid. io_bind (mine_committed_transaction x client ''faucet'' txid) (\<lambda>_. io_return txid)) w
      = (r, w')"
    using assms by (simp add: faucet_as_submission)
  then show ?thesis
  proof (cases rule: committed_then_mined)
    case (committed txid w1 a)
    then show ?thesis
      using faucet_submission_Ok [OF committed(1)] by auto
  qed simp_all
qed

text \<open>
  C23: minting is not atomic, and says so: once the asset is issued, the only failure is one that
  carries the asset and its issuance input, and success means issuing and then sending that same
  asset, in that order.
\<close>

theorem mint_keeps_issued_asset:
  assumes "call x client ''issueasset''
      (JArray [JNumber (show_radix 10 (unat quantity)), JNumber ''0'', JBool True, JString hash])
      (decode_issue_asset_response (x_lib x)) w = (Ok issued, w1)"
    and "contract_hash (asset_contract name ticker) = Some hash"
    and "mint x contract_hash client address quantity name ticker w = (r, w')"
  shows "w_sent w' = w_sent w1 @ [rpc_post (cl_config client) ''sendtoaddress''
        (asset_transfer_params address (show_radix 10 (unat quantity)) (ia_asset issued))]
    \<and> (case r of
        Ok m \<Rightarrow> mr_asset m = ia_asset issued
          \<and> mr_issuance_txin m = \<lparr>it_txid = ia_txid issued, it_vin = ia_vin issued\<rparr>
      | Err e \<Rightarrow> (\<exists>source. e = AssetTransferFailed (ia_asset issued)
          \<lparr>it_txid = ia_txid issued, it_vin = ia_vin issued\<rparr> source))"
  using assms
  by (cases r)
    (auto simp: mint_def io_lift_def result_simps Let_def dest!: call_world)

text \<open>
  C24: waiting for a confirmation always ends, no later than the deadline, after at most one request
  per half second and one more: with success only when some status said confirmed, with the
  timeout exactly at the deadline, and otherwise with an error other than a missing transaction.
\<close>

theorem confirmation_wait_ends:
  "\<exists>answer w'. wait_for_confirmation x client txid timeout w = Some (answer, w')
     \<and> w_now w' \<le> w_now w + as_nanos timeout
     \<and> length (w_sent w') \<le> length (w_sent w) + Suc (as_nanos timeout div 500000000)
     \<and> (case answer of
          Ok _ \<Rightarrow> (\<exists>v status. get_tx_status x client txid v = (Ok status, w') \<and> ts_confirmed status)
        | Err e \<Rightarrow> e = NTimeout ''wait for confirmation'' timeout
              \<and> w_now w' = w_now w + as_nanos timeout
            \<or> (\<exists>v. get_tx_status x client txid v = (Err e, w')) \<and> (\<forall>op body. e \<noteq> HttpStatus op 404 body))"
proof -
  let ?deadline = "w_now w + as_nanos timeout"
  let ?late = "NTimeout ''wait for confirmation'' timeout"
  obtain answer w' where run: "wait_for_confirmation x client txid timeout w = Some (answer, w')"
      "w_now w' \<le> ?deadline" "answer = Err ?late \<and> w_now w' = ?deadline
        \<or> (\<exists>v r. get_tx_status x client txid v = (r, w') \<and> confirmation_verdict r = Some answer)"
    using confirmation.returns [of x client txid ?deadline ?late w]
    unfolding wait_for_confirmation_def within_deadline_def by auto
  have "length (w_sent w') \<le> length (w_sent w)
      + 1 * Suc ((?deadline - w_now w) div as_nanos (from_millis 500))"
    by (rule confirmation.attempts_bounded [OF get_tx_status_sends])
      (use run(1) in \<open>auto simp: wait_for_confirmation_def within_deadline_def\<close>)
  moreover have "as_nanos (from_millis 500) = 500000000"
    by (simp add: as_nanos_def from_millis_def)
  moreover have "confirmation_verdict r = Some answer \<Longrightarrow>
      (case answer of Ok _ \<Rightarrow> \<exists>status. r = Ok status \<and> ts_confirmed status
       | Err e \<Rightarrow> r = Err e \<and> (\<forall>op body. e \<noteq> HttpStatus op 404 body))" for r
    by (cases r rule: confirmation_verdict.cases) (auto split: if_splits)
  ultimately show ?thesis
    using run by (fastforce split: sum.splits)
qed

section \<open>Witnesses\<close>

lemma and_then_Ok_return: "and_then r Ok = r"
  by (cases r) simp_all

text \<open>A node that answers the k-th request with the k-th text of a script.\<close>

definition scripted_json :: "(string \<times> json) list \<Rightarrow> string \<Rightarrow> json option" where
  "scripted_json table t = map_option
     (\<lambda>result. JObject [(''result'', result), (''error'', JNull), (''id'', JString ''nigiri-rs'')])
     (map_of table t)"

definition example_lib :: "(string \<times> json) list \<Rightarrow> chain_lib" where
  "example_lib table = \<lparr>parse_json_text = scripted_json table,
     bitcoin_txid = Some, bitcoin_block_hash = Some, bitcoin_address = Some,
     bitcoin_is_regtest = (\<lambda>_. True), elements_txid = Some, elements_block_hash = Some,
     elements_address = Some, elements_is_regtest = (\<lambda>_. True), elements_asset = Some,
     pedersen_commitment = Some, asset_generator = Some, amount_in_bitcoin = (\<lambda>_. ''0.00001''),
     amount_of_bitcoin = (\<lambda>_. Some 1000), json_number = Some\<rparr>"

definition example_externals :: "(string \<times> json) list \<Rightarrow> externals" where
  "example_externals table = \<lparr>x_lib = example_lib table,
     x_net = (\<lambda>w _. (Responded 200 [Ok (map fst table ! length (w_sent w))], 1)),
     x_extend_path = (\<lambda>u _. u)\<rparr>"

definition example_bitcoin :: "(string \<times> json) list \<Rightarrow> (bitcoin_utxo, bitcoin_address_info) nigiri_client"
where
  "example_bitcoin table =
     \<lparr>cl_config = NigiriConfig_bitcoin, cl_network = Bitcoin_network (example_lib table)\<rparr>"

definition example_world :: world where
  "example_world = \<lparr>w_sent = [], w_now = 0\<rparr>"

lemma decode_scripted [simp]:
  "decode_rpc_response (JObject [(''result'', result), (''error'', JNull),
      (''id'', JString ''nigiri-rs'')])
     = Some \<lparr>rs_result = as_value result, rs_error = JNull, rs_id = ''nigiri-rs''\<rparr>"
  by (simp add: decode_rpc_response_def struct_fields_def required_def)

lemma scripted_call:
  assumes "map_of table (map fst table ! length (w_sent w)) = Some result"
    and "length (map fst table ! length (w_sent w)) \<le> 65536"
    and "nc_max_response_bytes (cl_config client) = 65536"
  shows "call_with_sensitive (example_externals table) client method (Some params) sensitive decode w
     = (ok_or (decode (as_value result))
          (rpc_invalid_response method ''result did not match the requested type''),
        \<lparr>w_sent = w_sent w @ [rpc_post (cl_config client) method params], w_now = w_now w + 1\<rparr>)"
  using assms
  by (simp add: call_with_sensitive_def io_bind_def io_lift_def send_def Let_def example_externals_def
      example_lib_def scripted_json_def judge_response_def is_success_def into_body_def is_null_def)

lemma example_limit [simp]: "nc_max_response_bytes (cl_config (example_bitcoin table)) = 65536"
  by (simp add: example_bitcoin_def NigiriConfig_bitcoin_def NigiriConfig_defaults_def
      DEFAULT_MAX_RESPONSE_BYTES_def)

definition faucet_script :: "(string \<times> json) list" where
  "faucet_script = [(''1'', JString ''txid''), (''2'', JString ''address''), (''3'', JArray [])]"

lemma example_simps [simp]:
  "amount_in_bitcoin (x_lib (example_externals table)) = (\<lambda>_. ''0.00001'')"
  "amount_of_bitcoin (x_lib (example_externals table)) = (\<lambda>_. Some 1000)"
  "json_number (x_lib (example_externals table)) = Some"
  "elements_txid (x_lib (example_externals table)) = Some"
  "elements_asset (x_lib (example_externals table)) = Some"
  "bitcoin_address (x_lib (example_externals table)) = Some"
  "bitcoin_block_hash (x_lib (example_externals table)) = Some"
  "bitcoin_is_regtest (x_lib (example_externals table)) = (\<lambda>_. True)"
  "net_parse_txid (cl_network (example_bitcoin table)) op s = parse_string Some op s ''Bitcoin txid''"
  "net_parse_address (cl_network (example_bitcoin table)) op s
     = parse_string Some op s ''Bitcoin address''"
  "net_block_hash (cl_network (example_bitcoin table)) = Some"
  by (simp_all add: example_externals_def example_bitcoin_def example_lib_def Bitcoin_network_def
      Bitcoin_parse_address_def and_then_Ok_return)

lemmas example_steps = scripted_call io_bind_def io_lift_def io_return_def io_map_err_def
  call_def call_sensitive_def example_world_def

lemma parse_plain [simp]:
  "parse_string Some op ''txid'' e = Ok ''txid''"
  "parse_string Some op ''address'' e = Ok ''address''"
  by code_simp+

lemma example_faucet:
  "\<exists>w'. faucet (example_externals faucet_script) (example_bitcoin faucet_script) ''bcrt1q''
       (Some 1000) example_world = (Ok ''txid'', w')"
  by (simp add: faucet_def amount_as_json_number_def mine_committed_transaction_def new_address_def
      generate_to_address_def Let_def faucet_script_def example_steps)

lemma rpc_method_is_validated_witness:
  "\<exists>r w'. rpc (example_externals [(''a'', JNull)]) (example_bitcoin [(''a'', JNull)]) ''get block''
       (Some JNull) decode_unit example_world = (r, w') \<and> w_sent w' = []"
proof -
  obtain r w' where run: "rpc (example_externals [(''a'', JNull)]) (example_bitcoin [(''a'', JNull)])
      ''get block'' (Some JNull) decode_unit example_world = (r, w')"
    by fastforce
  have bad: "\<not> list_all (\<lambda>c. is_ascii_alphanumeric c \<or> c = CHR ''_'') ''get block''"
    by code_simp
  have "w_sent w' = []"
    using rpc_method_is_validated [OF run] bad by (simp add: example_world_def)
  then show ?thesis
    using run by blast
qed

lemma faucet_reports_committed_transfer_witness:
  "\<exists>w' mined_to. faucet (example_externals faucet_script) (example_bitcoin faucet_script) ''bcrt1q''
       (Some 1000) example_world = (Ok ''txid'', w')
     \<and> map (\<lambda>r. case r of HttpPost url user password body \<Rightarrow> body | HttpGet url \<Rightarrow> JNull) (w_sent w')
       ! 2 = request_json \<lparr>rq_jsonrpc = ''1.0'', rq_id = ''nigiri-rs'',
              rq_method = ''generatetoaddress'',
              rq_params = JArray [JNumber ''1'', JString mined_to]\<rparr>"
proof -
  obtain w' where run: "faucet (example_externals faucet_script) (example_bitcoin faucet_script)
      ''bcrt1q'' (Some 1000) example_world = (Ok ''txid'', w')"
    using example_faucet by blast
  then show ?thesis
    using faucet_reports_committed_transfer [OF run]
    by (auto simp: example_world_def rpc_post_def rpc_params_def is_null_def)
qed

definition mint_script :: "(string \<times> json) list" where
  "mint_script = [(''1'', JArray [JString ''txid'', JNumber ''7'', JString ''asset'']),
     (''2'', JNumber ''3'')]"

lemma mint_keeps_issued_asset_witness:
  "\<exists>w' source. mint (example_externals mint_script) (\<lambda>_. Some ''hash'') (example_bitcoin mint_script)
       ''ert1q'' 5 ''name'' ''TICK'' example_world
     = (Err (AssetTransferFailed ''asset'' \<lparr>it_txid = ''txid'', it_vin = 7\<rparr> source), w')"
proof -
  let ?x = "example_externals mint_script" and ?client = "example_bitcoin mint_script"
  have seven: "parse_u32 ''7'' = Some 7"
    by (simp add: parse_u32_def parse_unsigned_def digits_value_def is_digit_def to_digit_def)
  obtain w1 where issue: "call ?x ?client ''issueasset''
      (JArray [JNumber (show_radix 10 (unat (5 :: u64))), JNumber ''0'', JBool True, JString ''hash''])
      (decode_issue_asset_response (x_lib ?x)) example_world
      = (Ok \<lparr>ia_txid = ''txid'', ia_vin = 7, ia_asset = ''asset''\<rparr>, w1)"
    by (simp add: example_steps mint_script_def decode_issue_asset_response_def struct_fields_def
        required_def from_string_def decode_u32_def seven)
  obtain r w' where run: "mint ?x (\<lambda>_. Some ''hash'') ?client ''ert1q'' 5 ''name'' ''TICK''
      example_world = (r, w')"
    by fastforce
  moreover have "\<not> is_ok r"
    using run issue
    by (auto simp: mint_def example_steps mint_script_def decode_issue_asset_response_def
        struct_fields_def required_def from_string_def decode_u32_def seven Let_def)
  ultimately show ?thesis
    using mint_keeps_issued_asset [OF issue refl run] by (cases r) auto
qed

end
