(* ===== verification/Fix_Topology.thy ===== *)
theory Fix_Topology
  imports Fix_Diagnostics Core_Rpc Lnd_Types
begin

text \<open>
  What a fixture starts: \<open>error.rs\<close>, \<open>image.rs\<close>, \<open>chain.rs\<close> with
  \<open>chain/bitcoin.rs\<close> and \<open>chain/liquid.rs\<close>, the argument merge of \<open>node.rs\<close>, the constants
  of \<open>lnd.rs\<close> and the container specifications of \<open>runtime/spec.rs\<close>, all in the crate
  \<open>nigiri-rs-fixtures\<close>. Funding a wallet, which talks to a node, is in \<open>Fix_Node\<close>.
\<close>

section \<open>Errors\<close>

text \<open>
  A boxed source is its rendered text: the sources the fixtures build are flattened into one
  terminal text before they are stored.
\<close>

datatype fixture_error =
    InvalidConfiguration string
  | RuntimeFailed (fe_operation: string) (fe_resource: string) (fe_diagnostics: string) (fe_source: string)
  | Bootstrap (fe_chain: string) (fe_operation: string) (fe_diagnostics: string) (fe_source: string)
  | Probe (fe_service: string) (fe_operation: string) (fe_diagnostics: string) (fe_source: string)
  | ReadinessTimeout (fe_service: string) (fe_duration: duration) (fe_last_observation: string)
      (fe_diagnostics: string)
  | ClientFailed nigiri_error
  | Lightning lnd_error

text \<open>
  What reports of an error are made of: no credential in any of its redacted parts, each within
  its bound.
\<close>

definition credential_free :: "string \<Rightarrow> bool" where
  "credential_free s \<longleftrightarrow> list_all (\<lambda>a. \<not> sublist a s) fixture_credentials"

fun well_reported :: "fixture_error \<Rightarrow> bool" where
  "well_reported (RuntimeFailed _ _ d s) \<longleftrightarrow>
     credential_free d \<and> length d \<le> 16384 \<and> credential_free s \<and> length s \<le> 4096"
| "well_reported (Bootstrap _ _ d s) \<longleftrightarrow>
     credential_free d \<and> length d \<le> 16384 \<and> credential_free s \<and> length s \<le> 4096"
| "well_reported (Probe _ _ d s) \<longleftrightarrow>
     credential_free d \<and> length d \<le> 16384 \<and> credential_free s \<and> length s \<le> 4096"
| "well_reported (ReadinessTimeout _ _ o' d) \<longleftrightarrow>
     credential_free o' \<and> length o' \<le> 16384 \<and> credential_free d \<and> length d \<le> 16384"
| "well_reported _ \<longleftrightarrow> True"

lemma redacted_tail_reported [simp]:
  "credential_free (redacted_tail s)" "length (redacted_tail s) \<le> 16384"
  using redacted_texts_reported by (auto simp: credential_free_def)

lemma redacted_head_reported [simp]:
  "credential_free (redacted_head s n)" "length (redacted_head s n) \<le> n"
  using redacted_texts_reported by (auto simp: credential_free_def)

lemma redacted_source_reported [simp]:
  "credential_free (redacted_source s causes)" "length (redacted_source s causes) \<le> 4096"
  using redacted_texts_reported by (auto simp: credential_free_def)

lemma join_diagnostics_reported [simp]:
  "credential_free (join_diagnostics a b)" "length (join_diagnostics a b) \<le> 16384"
  by (auto simp: join_diagnostics_def)

lemma credential_free_Nil [simp]: "credential_free []"
  by (simp add: credential_free_def fixture_credentials_def redaction_patterns_def
      RPC_USER_def RPC_PASSWORD_def BASIC_AUTH_PATTERN_def)

section \<open>Images\<close>

record container_image =
  ci_name :: string
  ci_tag :: string
  ci_digest :: "string option"
  ci_entrypoint :: "string option"

definition ContainerImage_new :: "string \<Rightarrow> string \<Rightarrow> container_image" where
  "ContainerImage_new name tag =
     \<lparr>ci_name = name, ci_tag = tag, ci_digest = None, ci_entrypoint = None\<rparr>"

definition with_digest :: "container_image \<Rightarrow> string \<Rightarrow> container_image" where
  "with_digest img digest = img\<lparr>ci_digest := Some digest\<rparr>"

definition with_entrypoint :: "container_image \<Rightarrow> string \<Rightarrow> container_image" where
  "with_entrypoint img entrypoint = img\<lparr>ci_entrypoint := Some entrypoint\<rparr>"

definition is_sha256_digest :: "string \<Rightarrow> bool" where
  "is_sha256_digest digest =
     (case strip_prefix_of ''sha256:'' digest of
        None \<Rightarrow> False
      | Some hex \<Rightarrow> length hex = 64
          \<and> list_all (\<lambda>c. is_ascii_digit c \<or> c \<in> set ''abcdef'') hex)"

definition image_validate :: "container_image \<Rightarrow> fixture_error + unit" where
  "image_validate img =
     (if ci_name img = []
      then Err (InvalidConfiguration ''image name must not be empty'')
      else if ci_tag img = []
      then Err (InvalidConfiguration ''image tag must not be empty'')
      else if (case ci_digest img of None \<Rightarrow> False | Some d \<Rightarrow> \<not> is_sha256_digest d)
      then Err (InvalidConfiguration
        ''image digest must be sha256 followed by 64 lowercase hexadecimal characters'')
      else if (case ci_entrypoint img of None \<Rightarrow> False | Some e \<Rightarrow> trim e = [])
      then Err (InvalidConfiguration ''image entrypoint must not be blank'')
      else Ok ())"

definition reference_suffix :: "container_image \<Rightarrow> string" where
  "reference_suffix img =
     (case ci_digest img of
        Some digest \<Rightarrow> ci_tag img @ ''@'' @ digest
      | None \<Rightarrow> ci_tag img)"

definition bitcoind_default :: container_image where
  "bitcoind_default =
     with_digest (ContainerImage_new ''ghcr.io/getumbrel/docker-bitcoind'' ''v31.0'')
       ''sha256:89185fc2792a9824cbe18f7ad4ead02a3a9a14adf5b34eb42f60ebec36201fa0''"

definition electrs_default :: container_image where
  "electrs_default =
     with_digest (ContainerImage_new ''mempool/electrs'' ''v3.4.0-dev1'')
       ''sha256:35963870c36a8da5fff8310e94df15869d0e97788bdaa11e63901cdb26fd781a''"

definition elements_default :: container_image where
  "elements_default =
     with_entrypoint (with_digest (ContainerImage_new ''blockstream/elementsd'' ''23.3.3'')
       ''sha256:1abe3ae514662492279c9ba8adc94fea46a0fa60efdd62f4eb93d3e803adff37'') ''elementsd''"

definition electrs_liquid_default :: container_image where
  "electrs_liquid_default =
     with_digest (ContainerImage_new ''mempool/electrs-liquid'' ''v3.4.0-dev1'')
       ''sha256:4f26e7f2e8d837b79638881415f6cbe84c699855ae568162db986321442a4288''"

definition LND_PROTO_VERSION :: string where
  "LND_PROTO_VERSION = ''v0.21.1-beta''"

definition lnd_default :: container_image where
  "lnd_default =
     with_digest (ContainerImage_new ''lightninglabs/lnd'' LND_PROTO_VERSION)
       ''sha256:4af8f9bbf98c8b86b0e54b065d6ea45d1387256a43fa9270c11ef849511abae0''"

section \<open>Node arguments\<close>

definition argument_key :: "string \<Rightarrow> string" where
  "argument_key argument =
     (case split_once ''='' argument of None \<Rightarrow> argument | Some (key, _) \<Rightarrow> key)"

definition merge_node_args :: "string list \<Rightarrow> string list \<Rightarrow> string list" where
  "merge_node_args base extra =
     (let overridden = map argument_key extra
      in filter (\<lambda>argument. argument_key argument \<notin> set overridden) base @ extra)"

section \<open>Chains\<close>

definition LND_GRPC_PORT :: u16 where
  "LND_GRPC_PORT = 10009"

definition LND_PEER_PORT :: u16 where
  "LND_PEER_PORT = 9735"

definition BITCOIN_ZMQ_BLOCK_PORT :: u16 where
  "BITCOIN_ZMQ_BLOCK_PORT = 28332"

definition BITCOIN_ZMQ_TX_PORT :: u16 where
  "BITCOIN_ZMQ_TX_PORT = 28333"

definition TLS_CERT_PATH :: string where
  "TLS_CERT_PATH = ''/root/.lnd/tls.cert''"

definition show_port :: "u16 \<Rightarrow> string" where
  "show_port port = show_radix 10 (unat port)"

record fixture_chain =
  fc_node_service :: string
  fc_chain_name :: string
  fc_node_rpc_port :: u16
  fc_electrs_http_port :: u16
  fc_electrs_electrum_port :: u16
  fc_node_name_prefix :: string
  fc_node_image_default :: container_image
  fc_electrs_image_default :: container_image
  fc_node_cmd :: "string list"
  fc_electrs_cmd :: "string \<Rightarrow> string list"

definition bitcoin_zmq_args :: "string list" where
  "bitcoin_zmq_args =
     [''-zmqpubrawblock=tcp://0.0.0.0:'' @ show_port BITCOIN_ZMQ_BLOCK_PORT,
      ''-zmqpubrawtx=tcp://0.0.0.0:'' @ show_port BITCOIN_ZMQ_TX_PORT]"

definition Bitcoin_node_cmd :: "string list" where
  "Bitcoin_node_cmd =
     [''-regtest=1'', ''-server=1'', ''-txindex=1'', ''-rpcbind=0.0.0.0:'' @ show_port 18443,
      ''-rpcallowip=0.0.0.0/0'', ''-rpcuser='' @ RPC_USER, ''-rpcpassword='' @ RPC_PASSWORD,
      ''-fallbackfee=0.00001'', ''-printtoconsole=1'']"

definition Bitcoin_electrs_cmd :: "string \<Rightarrow> string list" where
  "Bitcoin_electrs_cmd node_container =
     [''-vvvv'', ''--network'', ''regtest'', ''--daemon-dir'', ''/tmp/bitcoin'',
      ''--db-dir'', ''/tmp/electrs'', ''--daemon-rpc-addr'', node_container @ '':'' @ show_port 18443,
      ''--cookie'', RPC_USER @ '':'' @ RPC_PASSWORD, ''--http-addr'', ''0.0.0.0:'' @ show_port 30000,
      ''--electrum-rpc-addr'', ''0.0.0.0:'' @ show_port 50000, ''--cors'', ''*'', ''--jsonrpc-import'']"

definition Bitcoin_chain :: fixture_chain where
  "Bitcoin_chain =
     \<lparr>fc_node_service = ''bitcoind'', fc_chain_name = ''Bitcoin'', fc_node_rpc_port = 18443,
      fc_electrs_http_port = 30000, fc_electrs_electrum_port = 50000,
      fc_node_name_prefix = ''nigiri-rs-bitcoind'', fc_node_image_default = bitcoind_default,
      fc_electrs_image_default = electrs_default, fc_node_cmd = Bitcoin_node_cmd,
      fc_electrs_cmd = Bitcoin_electrs_cmd\<rparr>"

definition INITIAL_FREE_COINS :: u64 where
  "INITIAL_FREE_COINS = 2100000000000000"

definition Liquid_node_cmd :: "string list" where
  "Liquid_node_cmd =
     [''-chain=liquidregtest'', ''-server=1'', ''-txindex=1'',
      ''-rpcbind=0.0.0.0:'' @ show_port 18884, ''-rpcallowip=0.0.0.0/0'',
      ''-rpcport='' @ show_port 18884, ''-rpcuser='' @ RPC_USER, ''-rpcpassword='' @ RPC_PASSWORD,
      ''-validatepegin=0'', ''-initialfreecoins='' @ show_radix 10 (unat INITIAL_FREE_COINS),
      ''-fallbackfee=0.000001'', ''-con_connect_genesis_outputs=1'', ''-printtoconsole=1'']"

definition Liquid_electrs_cmd :: "string \<Rightarrow> string list" where
  "Liquid_electrs_cmd node_container =
     [''-vvvv'', ''--parent-network'', ''regtest'', ''--network'', ''liquidregtest'',
      ''--daemon-dir'', ''/tmp/liquid'', ''--db-dir'', ''/tmp/electrs'',
      ''--daemon-rpc-addr'', node_container @ '':'' @ show_port 18884,
      ''--cookie'', RPC_USER @ '':'' @ RPC_PASSWORD, ''--http-addr'', ''0.0.0.0:'' @ show_port 30001,
      ''--electrum-rpc-addr'', ''0.0.0.0:'' @ show_port 50001, ''--cors'', ''*'', ''--jsonrpc-import'']"

definition Liquid_chain :: fixture_chain where
  "Liquid_chain =
     \<lparr>fc_node_service = ''elements'', fc_chain_name = ''Liquid'', fc_node_rpc_port = 18884,
      fc_electrs_http_port = 30001, fc_electrs_electrum_port = 50001,
      fc_node_name_prefix = ''nigiri-rs-elements'', fc_node_image_default = elements_default,
      fc_electrs_image_default = electrs_liquid_default, fc_node_cmd = Liquid_node_cmd,
      fc_electrs_cmd = Liquid_electrs_cmd\<rparr>"

section \<open>Container specifications\<close>

record container_spec =
  cs_service :: string
  cs_image :: container_image
  cs_entrypoint :: "string option"
  cs_name :: string
  cs_network :: string
  cs_command :: "string list"
  cs_exposed_ports :: "u16 list"

definition node_spec ::
  "fixture_chain \<Rightarrow> container_image \<Rightarrow> string \<Rightarrow> string \<Rightarrow> string list \<Rightarrow> fixture_error + container_spec"
where
  "node_spec chain img network name extra_args =
     and_then (image_validate img) (\<lambda>_. Ok
       \<lparr>cs_service = fc_node_service chain, cs_image = img, cs_entrypoint = ci_entrypoint img,
        cs_name = name, cs_network = network,
        cs_command = merge_node_args (fc_node_cmd chain) extra_args,
        cs_exposed_ports = [fc_node_rpc_port chain]\<rparr>)"

definition electrs_spec ::
  "fixture_chain \<Rightarrow> container_image \<Rightarrow> string \<Rightarrow> string \<Rightarrow> string \<Rightarrow> fixture_error + container_spec"
where
  "electrs_spec chain img network name node_name =
     and_then (image_validate img) (\<lambda>_. Ok
       \<lparr>cs_service = ''electrs'', cs_image = img, cs_entrypoint = ci_entrypoint img,
        cs_name = name, cs_network = network, cs_command = fc_electrs_cmd chain node_name,
        cs_exposed_ports = [fc_electrs_http_port chain, fc_electrs_electrum_port chain]\<rparr>)"

definition parses_as_ip_addr :: "string \<Rightarrow> bool" where
  "parses_as_ip_addr s \<longleftrightarrow> parse_ipv4 s \<noteq> None \<or> parse_ipv6 s \<noteq> None"

definition lnd_spec ::
  "container_image \<Rightarrow> string \<Rightarrow> string \<Rightarrow> string \<Rightarrow> string \<Rightarrow> fixture_error + container_spec"
where
  "lnd_spec img network name bitcoind_name endpoint_host =
     and_then (image_validate img) (\<lambda>_.
       let rpc_port = fc_node_rpc_port Bitcoin_chain;
           tls_extra = (if parses_as_ip_addr endpoint_host
                        then ''--tlsextraip='' @ endpoint_host
                        else ''--tlsextradomain='' @ endpoint_host)
       in Ok \<lparr>cs_service = ''lnd'', cs_image = img, cs_entrypoint = ci_entrypoint img,
         cs_name = name, cs_network = network,
         cs_command =
           [''--bitcoin.active'', ''--bitcoin.regtest'', ''--bitcoin.node=bitcoind'',
            ''--bitcoind.rpchost='' @ bitcoind_name @ '':'' @ show_port rpc_port,
            ''--bitcoind.rpcuser='' @ RPC_USER, ''--bitcoind.rpcpass='' @ RPC_PASSWORD,
            ''--bitcoind.zmqpubrawblock=tcp://'' @ bitcoind_name @ '':'' @ show_port BITCOIN_ZMQ_BLOCK_PORT,
            ''--bitcoind.zmqpubrawtx=tcp://'' @ bitcoind_name @ '':'' @ show_port BITCOIN_ZMQ_TX_PORT,
            ''--rpclisten=0.0.0.0:'' @ show_port LND_GRPC_PORT,
            ''--listen=0.0.0.0:'' @ show_port LND_PEER_PORT, tls_extra],
         cs_exposed_ports = [LND_GRPC_PORT]\<rparr>)"

lemma image_validate_Ok:
  "image_validate img = Ok () \<longleftrightarrow>
     ci_name img \<noteq> [] \<and> ci_tag img \<noteq> []
     \<and> (\<forall>d. ci_digest img = Some d \<longrightarrow> is_sha256_digest d)
     \<and> (\<forall>e. ci_entrypoint img = Some e \<longrightarrow> trim e \<noteq> [])"
  by (auto simp: image_validate_def split: option.splits if_splits)

lemma image_validate_Err: "image_validate img = Err e \<Longrightarrow> \<exists>detail. e = InvalidConfiguration detail"
  by (auto simp: image_validate_def split: if_splits)

section \<open>Properties\<close>

text \<open>
  C33: merging a composite's arguments into the chain's own leaves no contradiction: a setting the
  composite names occurs exactly as the composite wrote it, every other setting exactly as the
  chain did, and exact keys decide which is which.
\<close>

theorem merged_arguments_agree_on_every_key:
  "filter (\<lambda>a. argument_key a = key) (merge_node_args base extra) =
     (if key \<in> argument_key ` set extra
      then filter (\<lambda>a. argument_key a = key) extra
      else filter (\<lambda>a. argument_key a = key) base)"
proof (cases "key \<in> argument_key ` set extra")
  case True
  then have "filter (\<lambda>a. argument_key a = key)
      (filter (\<lambda>a. argument_key a \<notin> argument_key ` set extra) base) = []"
    by (auto simp: filter_empty_conv)
  then show ?thesis
    using True by (simp add: merge_node_args_def Let_def)
next
  case False
  then have "filter (\<lambda>a. argument_key a = key) extra = []"
    by (auto simp: filter_empty_conv)
  moreover have "filter (\<lambda>a. argument_key a = key)
      (filter (\<lambda>a. argument_key a \<notin> argument_key ` set extra) base)
      = filter (\<lambda>a. argument_key a = key) base"
    using False by (auto intro: filter_cong)
  ultimately show ?thesis
    using False by (simp add: merge_node_args_def Let_def)
qed

end
