(* ===== verification/Fix_Runtime.thy ===== *)
theory Fix_Runtime
  imports Fix_Topology
begin

text \<open>
  Owning containers and networks: \<open>deadline.rs\<close>, \<open>runtime/mod.rs\<close>,
  \<open>runtime/resources.rs\<close> and \<open>runtime/supervisor.rs\<close> of the crate
  \<open>nigiri-rs-fixtures\<close>, over the trait \<open>ContainerEngine\<close> of \<open>runtime/engine.rs\<close>.
  A future that its caller drops, at a deadline or at a cancellation, stops where it is: what it
  was waiting for is then abandoned, except a creation, which a task of its own completes.
\<close>

section \<open>Errors of a container engine\<close>

datatype io_kind =
    IoNotFound | IoWouldBlock | IoConnectionRefused | IoConnectionReset | IoConnectionAborted
  | IoNotConnected | IoInterrupted | IoInvalidData | IoInvalidInput | IoOther

text \<open>A source is an \<open>io::Error\<close> or another error, here its text and the texts of its causes.\<close>

datatype engine_source = IoSource io_kind string | ForeignSource string "string list"

record engine_error =
  en_operation :: string
  en_source :: engine_source

definition EngineError_new :: "string \<Rightarrow> engine_source \<Rightarrow> engine_error" where
  "EngineError_new operation source = \<lparr>en_operation = operation, en_source = source\<rparr>"

definition is_cancelled :: "engine_error \<Rightarrow> bool" where
  "is_cancelled e \<longleftrightarrow> en_operation e = ''start fixture''
     \<and> (case en_source e of IoSource kind _ \<Rightarrow> kind = IoInterrupted | _ \<Rightarrow> False)"

definition is_transient_file_unavailable :: "engine_error \<Rightarrow> bool" where
  "is_transient_file_unavailable e \<longleftrightarrow> en_operation e = ''read container file''
     \<and> (case en_source e of
          IoSource kind _ \<Rightarrow> kind \<in> {IoNotFound, IoWouldBlock, IoConnectionRefused,
            IoConnectionReset, IoConnectionAborted, IoNotConnected}
        | _ \<Rightarrow> False)"

fun source_texts :: "engine_source \<Rightarrow> string list" where
  "source_texts (IoSource _ t) = [t]"
| "source_texts (ForeignSource t causes) = t # causes"

definition show_engine_error :: "engine_error \<Rightarrow> string" where
  "show_engine_error e = en_operation e @ '': '' @ hd (source_texts (en_source e))"

definition cancelled_error :: engine_error where
  "cancelled_error = EngineError_new ''start fixture''
     (IoSource IoInterrupted ''fixture startup was cancelled'')"

definition runtime_error :: "string \<Rightarrow> engine_error \<Rightarrow> fixture_error" where
  "runtime_error resource e =
     RuntimeFailed (en_operation e) resource (redacted_tail (show_engine_error e))
       (redacted_source (show_engine_error e) (source_texts (en_source e)))"

definition cancelled_startup_error :: "string \<Rightarrow> fixture_error" where
  "cancelled_startup_error resource = runtime_error resource cancelled_error"

definition fixture_error_from :: "engine_error \<Rightarrow> fixture_error" where
  "fixture_error_from e = runtime_error ''fixture supervisor'' e"

fun attach_diagnostics :: "fixture_error \<Rightarrow> string \<Rightarrow> fixture_error" where
  "attach_diagnostics (RuntimeFailed operation resource diagnostics source) addition =
     RuntimeFailed operation resource (join_diagnostics diagnostics addition) source"
| "attach_diagnostics (ReadinessTimeout service duration last_observation diagnostics) addition =
     ReadinessTimeout service duration last_observation (join_diagnostics diagnostics addition)"
| "attach_diagnostics (Bootstrap chain operation diagnostics source) addition =
     Bootstrap chain operation (join_diagnostics diagnostics addition) source"
| "attach_diagnostics (Probe service operation diagnostics source) addition =
     Probe service operation (join_diagnostics diagnostics addition) source"
| "attach_diagnostics other addition = other"

fun render_log_diagnostics ::
  "string \<Rightarrow> fixture_error + engine_error + string \<Rightarrow> string"
where
  "render_log_diagnostics service (Ok (Ok logs)) =
     redacted_tail (service @ '' log:'' @ [CHR 0x0A] @ logs @ [CHR 0x0A] @ ''[end '' @ service @ '' log]'')"
| "render_log_diagnostics service (Ok (Err failure)) =
     redacted_tail (''could not read the '' @ service @ '' diagnostic log: '' @ show_engine_error failure)"
| "render_log_diagnostics service (Err _) =
     ''skipped the '' @ service @ '' diagnostic log: startup deadline exhausted''"

lemma runtime_error_reported [simp]: "well_reported (runtime_error resource e)"
  by (simp add: runtime_error_def)

lemma attach_diagnostics_reported:
  "well_reported e \<Longrightarrow> well_reported (attach_diagnostics e addition)"
  by (cases e) auto

section \<open>Resources\<close>

datatype owned_resource =
    Container (or_name: string) (or_id: "string option")
  | Network (or_name: string) (or_id: "string option")

fun confirm_resource :: "owned_resource \<Rightarrow> string \<Rightarrow> owned_resource" where
  "confirm_resource (Container name _) i = Container name (Some i)"
| "confirm_resource (Network name _) i = Network name (Some i)"

type_synonym resource_ledger = "owned_resource list"

definition expect_network :: "resource_ledger \<Rightarrow> string \<Rightarrow> resource_ledger" where
  "expect_network ledger name = ledger @ [Network name None]"

definition expect_container :: "resource_ledger \<Rightarrow> string \<Rightarrow> resource_ledger" where
  "expect_container ledger name = ledger @ [Container name None]"

text \<open>\<open>iter_mut().rev().find(..)\<close>: the latest entry of the name, of either kind.\<close>

fun confirm_latest :: "owned_resource list \<Rightarrow> string \<Rightarrow> string \<Rightarrow> owned_resource list" where
  "confirm_latest [] name i = []"
| "confirm_latest (r # rs) name i =
     (if or_name r = name then confirm_resource r i # rs else r # confirm_latest rs name i)"

definition confirm :: "resource_ledger \<Rightarrow> string \<Rightarrow> string \<Rightarrow> resource_ledger" where
  "confirm ledger name i = rev (confirm_latest (rev ledger) name i)"

definition take_cleanup_order :: "resource_ledger \<Rightarrow> owned_resource list \<times> resource_ledger" where
  "take_cleanup_order ledger = (rev ledger, [])"

section \<open>Container engines\<close>

text \<open>
  A request to a container engine, with the daemon's state made explicit: the answer, the state
  the daemon is left in, and the nanoseconds taken. \<open>ce_abandoned\<close> is the state after a request
  whose caller went away, which the daemon may have served or not.
\<close>

type_synonym ('d, 'a) engine_request = "'d \<Rightarrow> (engine_error + 'a) \<times> 'd \<times> nat"

type_synonym labels = "(string \<times> string) list"

record 'd container_engine =
  ce_endpoint_host :: string
  ce_create_network :: "string \<Rightarrow> labels \<Rightarrow> ('d, string) engine_request"
  ce_ensure_image :: "container_spec \<Rightarrow> ('d, unit) engine_request"
  ce_create_container :: "container_spec \<Rightarrow> labels \<Rightarrow> ('d, string) engine_request"
  ce_start_container :: "string \<Rightarrow> ('d, unit) engine_request"
  ce_mapped_port :: "string \<Rightarrow> u16 \<Rightarrow> ('d, u16) engine_request"
  ce_logs :: "string \<Rightarrow> ('d, string) engine_request"
  ce_read_container_file :: "string \<Rightarrow> string \<Rightarrow> nat \<Rightarrow> ('d, string) engine_request"
  ce_remove_container :: "string \<Rightarrow> ('d, unit) engine_request"
  ce_remove_network :: "string \<Rightarrow> ('d, unit) engine_request"
  ce_abandoned :: "'d \<Rightarrow> 'd \<Rightarrow> 'd"

section \<open>Futures\<close>

text \<open>
  The creations a task of their own carries out. \<open>rt_mutations\<close> holds the tasks that have not
  finished, \<open>rt_limit\<close> the time at which the future being polled is dropped, \<open>rt_cancel_at\<close> the
  time at which the caller's cancellation arrives.
\<close>

datatype mutation = CreateNetwork string | CreateContainer container_spec

record 'd runtime =
  rt_world :: world
  rt_daemon :: 'd
  rt_ledger :: resource_ledger
  rt_mutations :: "mutation list"
  rt_labels :: labels
  rt_limit :: "nat option"
  rt_cancel_at :: "nat option"

definition rt_now :: "'d runtime \<Rightarrow> nat" where
  "rt_now s = w_now (rt_world s)"

definition at_time :: "nat \<Rightarrow> 'd runtime \<Rightarrow> 'd runtime" where
  "at_time t s = s\<lparr>rt_world := (rt_world s)\<lparr>w_now := t\<rparr>\<rparr>"

text \<open>The value of a future, or \<open>None\<close> when it is dropped before it has one.\<close>

type_synonym ('d, 'a) fut = "'d runtime \<Rightarrow> 'a option \<times> 'd runtime"

definition fut_return :: "'a \<Rightarrow> ('d, 'a) fut" where
  "fut_return a s = (Some a, s)"

definition fut_bind :: "('d, 'a) fut \<Rightarrow> ('a \<Rightarrow> ('d, 'b) fut) \<Rightarrow> ('d, 'b) fut" where
  "fut_bind m f s = (case m s of (None, s') \<Rightarrow> (None, s') | (Some a, s') \<Rightarrow> f a s')"

text \<open>\<open>await?\<close>\<close>

definition fut_try :: "('d, 'e + 'a) fut \<Rightarrow> ('a \<Rightarrow> ('d, 'e + 'b) fut) \<Rightarrow> ('d, 'e + 'b) fut" where
  "fut_try m f =
     fut_bind m (\<lambda>r. case r of Err e \<Rightarrow> fut_return (Err e) | Ok a \<Rightarrow> f a)"

definition fut_map :: "('a \<Rightarrow> 'b) \<Rightarrow> ('d, 'a) fut \<Rightarrow> ('d, 'b) fut" where
  "fut_map g m = fut_bind m (\<lambda>a. fut_return (g a))"

definition in_time :: "'d runtime \<Rightarrow> nat \<Rightarrow> bool" where
  "in_time s taken =
     (case rt_limit s of None \<Rightarrow> True | Some l \<Rightarrow> taken = 0 \<or> rt_now s + taken \<le> l)"

definition dropped_at :: "'d runtime \<Rightarrow> nat" where
  "dropped_at s = (case rt_limit s of None \<Rightarrow> rt_now s | Some l \<Rightarrow> max (rt_now s) l)"

definition sleep :: "nat \<Rightarrow> ('d, unit) fut" where
  "sleep taken s =
     (if in_time s taken then (Some (), at_time (rt_now s + taken) s)
      else (None, at_time (dropped_at s) s))"

definition engine_call ::
  "'d container_engine \<Rightarrow> ('d, 'a) engine_request \<Rightarrow> ('d, engine_error + 'a) fut"
where
  "engine_call E q s =
     (let (r, d', taken) = q (rt_daemon s)
      in if in_time s taken then (Some r, at_time (rt_now s + taken) (s\<lparr>rt_daemon := d'\<rparr>))
         else (None, at_time (dropped_at s) (s\<lparr>rt_daemon := ce_abandoned E (rt_daemon s) d'\<rparr>)))"

text \<open>A client's request over the network takes the time the network takes.\<close>

definition client_call :: "(world \<Rightarrow> 'a \<times> world) \<Rightarrow> ('d, 'a) fut" where
  "client_call m s =
     (let (r, w') = m (rt_world s)
      in if in_time s (w_now w' - rt_now s)
         then (Some r, at_time (max (rt_now s) (w_now w')) (s\<lparr>rt_world := w'\<rparr>))
         else (None, at_time (dropped_at s) (s\<lparr>rt_world := w'\<rparr>)))"

definition earlier_limit :: "nat option \<Rightarrow> nat option \<Rightarrow> nat option" where
  "earlier_limit a b =
     (case (a, b) of (None, _) \<Rightarrow> b | (_, None) \<Rightarrow> a | (Some x, Some y) \<Rightarrow> Some (min x y))"

text \<open>
  A future raced against a point in time, as \<open>timeout_at\<close> and \<open>select!\<close> do: \<open>Err\<close> when that
  point comes first, dropped as a whole when an enclosing race is lost before it.
\<close>

definition race :: "nat option \<Rightarrow> 'e \<Rightarrow> ('d, 'a) fut \<Rightarrow> ('d, 'e + 'a) fut" where
  "race t late m s =
     (let (r, s1) = m (s\<lparr>rt_limit := earlier_limit (rt_limit s) t\<rparr>);
          s' = s1\<lparr>rt_limit := rt_limit s\<rparr>
      in case r of
           Some a \<Rightarrow> (Some (Ok a), s')
         | None \<Rightarrow> if t \<noteq> None \<and> earlier_limit (rt_limit s) t = t then (Some (Err late), s')
                  else (None, s'))"

section \<open>Deadlines\<close>

record deadline =
  dl_expires_at :: nat
  dl_duration :: duration

text \<open>\<open>Instant::checked_add\<close> fails beyond the platform's last instant, here \<open>last_instant\<close>.\<close>

definition absolute_instant :: "nat \<Rightarrow> nat \<Rightarrow> duration \<Rightarrow> fixture_error + nat" where
  "absolute_instant last_instant now d =
     (if is_zero d
      then Err (InvalidConfiguration ''startup deadline must be greater than zero'')
      else if last_instant < now + as_nanos d
      then Err (InvalidConfiguration
        ''startup deadline exceeds the supported absolute instant range'')
      else Ok (now + as_nanos d))"

definition Deadline_new :: "nat \<Rightarrow> nat \<Rightarrow> duration \<Rightarrow> fixture_error + deadline" where
  "Deadline_new last_instant now d =
     and_then (absolute_instant last_instant now d) (\<lambda>expires_at.
       Ok \<lparr>dl_expires_at = expires_at, dl_duration = d\<rparr>)"

definition validate_duration :: "nat \<Rightarrow> nat \<Rightarrow> duration \<Rightarrow> fixture_error + unit" where
  "validate_duration last_instant now d =
     map_ok (\<lambda>_. ()) (absolute_instant last_instant now d)"

definition remaining :: "deadline \<Rightarrow> nat \<Rightarrow> nat" where
  "remaining d now = dl_expires_at d - now"

definition readiness_timeout :: "deadline \<Rightarrow> string \<Rightarrow> string \<Rightarrow> fixture_error" where
  "readiness_timeout d service last_observation =
     ReadinessTimeout service (dl_duration d) (redacted_tail last_observation) []"

definition remaining_or_expired :: "deadline \<Rightarrow> nat \<Rightarrow> string \<Rightarrow> string \<Rightarrow> fixture_error + nat" where
  "remaining_or_expired d now service last_observation =
     (if remaining d now = 0 then Err (readiness_timeout d service last_observation)
      else Ok (remaining d now))"

definition deadline_run ::
  "deadline \<Rightarrow> string \<Rightarrow> string \<Rightarrow> ('d, 'a) fut \<Rightarrow> ('d, fixture_error + 'a) fut"
where
  "deadline_run d service last_observation m =
     race (Some (dl_expires_at d)) (readiness_timeout d service last_observation) m"

section \<open>Startup\<close>

definition cancelled :: "'d runtime \<Rightarrow> bool" where
  "cancelled s = (case rt_cancel_at s of None \<Rightarrow> False | Some t \<Rightarrow> t \<le> rt_now s)"

definition run_until_cancelled :: "('d, 'a) fut \<Rightarrow> ('d, engine_error + 'a) fut" where
  "run_until_cancelled operation s =
     (if cancelled s then (Some (Err cancelled_error), s)
      else race (rt_cancel_at s) cancelled_error operation s)"

definition run :: "('d, engine_error + 'a) fut \<Rightarrow> ('d, engine_error + 'a) fut" where
  "run operation = fut_try (run_until_cancelled operation) fut_return"

text \<open>The body of a creation's task: the request, then the confirmation in the ledger.\<close>

fun creation :: "'d container_engine \<Rightarrow> labels \<Rightarrow> mutation \<Rightarrow> ('d, string) engine_request" where
  "creation E labels (CreateNetwork name) = ce_create_network E name labels"
| "creation E labels (CreateContainer spec) = ce_create_container E spec labels"

fun target :: "mutation \<Rightarrow> string" where
  "target (CreateNetwork name) = name"
| "target (CreateContainer spec) = cs_name spec"

definition finish_mutation ::
  "'d container_engine \<Rightarrow> mutation \<Rightarrow> 'd runtime \<Rightarrow> (engine_error + string) \<times> 'd runtime"
where
  "finish_mutation E m s =
     (let (r, d', taken) = creation E (rt_labels s) m (rt_daemon s);
          ledger = (case r of Err _ \<Rightarrow> rt_ledger s | Ok i \<Rightarrow> confirm (rt_ledger s) (target m) i)
      in (r, at_time (rt_now s + taken) (s\<lparr>rt_daemon := d', rt_ledger := ledger\<rparr>)))"

text \<open>Waiting for a creation's task: when the wait is given up the task goes on.\<close>

definition await_mutation :: "'d container_engine \<Rightarrow> mutation \<Rightarrow> ('d, engine_error + string) fut" where
  "await_mutation E m s =
     (let (r, s') = finish_mutation E m s
      in if in_time s (rt_now s' - rt_now s) then (Some r, s')
         else (None, at_time (dropped_at s) (s\<lparr>rt_mutations := rt_mutations s @ [m]\<rparr>)))"

definition settle_mutation :: "'d container_engine \<Rightarrow> mutation \<Rightarrow> ('d, engine_error + string) fut" where
  "settle_mutation E m s =
     (if cancelled s then (Some (Err cancelled_error), s)
      else fut_try (run_until_cancelled (await_mutation E m)) fut_return s)"

definition create_network :: "'d container_engine \<Rightarrow> string \<Rightarrow> ('d, engine_error + unit) fut" where
  "create_network E name s =
     fut_try (settle_mutation E (CreateNetwork name)) (\<lambda>_. fut_return (Ok ()))
       (s\<lparr>rt_ledger := expect_network (rt_ledger s) name\<rparr>)"

record running_container =
  rc_id :: string
  rc_host :: string
  rc_ports :: "u16 \<Rightarrow> u16 option"

primrec map_ports ::
  "'d container_engine \<Rightarrow> string \<Rightarrow> u16 list \<Rightarrow> (u16 \<Rightarrow> u16 option)
     \<Rightarrow> ('d, engine_error + (u16 \<Rightarrow> u16 option)) fut"
where
  "map_ports E i [] ports = fut_return (Ok ports)"
| "map_ports E i (container_port # rest) ports =
     fut_try (run (engine_call E (ce_mapped_port E i container_port))) (\<lambda>mapped.
       map_ports E i rest (ports(container_port \<mapsto> mapped)))"

definition start_expected_container ::
  "'d container_engine \<Rightarrow> container_spec \<Rightarrow> ('d, engine_error + running_container) fut"
where
  "start_expected_container E spec =
     fut_try (run (engine_call E (ce_ensure_image E spec))) (\<lambda>_.
     fut_try (settle_mutation E (CreateContainer spec)) (\<lambda>i.
     fut_try (run (engine_call E (ce_start_container E i))) (\<lambda>_.
     fut_try (map_ports E i (cs_exposed_ports spec) Map.empty) (\<lambda>ports.
       fut_return (Ok \<lparr>rc_id = i, rc_host = ce_endpoint_host E, rc_ports = ports\<rparr>)))))"

definition expecting :: "string \<Rightarrow> 'd runtime \<Rightarrow> 'd runtime" where
  "expecting name s = s\<lparr>rt_ledger := expect_container (rt_ledger s) name\<rparr>"

definition start_container ::
  "'d container_engine \<Rightarrow> container_spec \<Rightarrow> ('d, engine_error + running_container) fut"
where
  "start_container E spec s = start_expected_container E spec (expecting (cs_name spec) s)"

definition logs :: "'d container_engine \<Rightarrow> string \<Rightarrow> ('d, engine_error + string) fut" where
  "logs E id_or_name = run (engine_call E (ce_logs E id_or_name))"

definition read_container_file ::
  "'d container_engine \<Rightarrow> string \<Rightarrow> string \<Rightarrow> nat \<Rightarrow> ('d, engine_error + string) fut"
where
  "read_container_file E i path max_bytes =
     fut_try (run (engine_call E (ce_read_container_file E i path max_bytes))) (\<lambda>contents.
       fut_return (if max_bytes < length contents
         then Err (EngineError_new ''read container file''
                (IoSource IoInvalidData ''container file exceeds requested byte limit''))
         else Ok contents))"

definition attach_container_log ::
  "'d container_engine \<Rightarrow> deadline \<Rightarrow> string \<Rightarrow> string \<Rightarrow> fixture_error \<Rightarrow> ('d, fixture_error) fut"
where
  "attach_container_log E d service id_or_name e =
     fut_map (\<lambda>diagnostics. attach_diagnostics e (render_log_diagnostics service diagnostics))
       (deadline_run d service ''reading bounded startup diagnostics'' (logs E id_or_name))"

subsection \<open>Two containers at a time\<close>

text \<open>
  \<open>tokio::join!\<close> of two starts on one thread. A start is cut at its awaits; each of the two has a
  clock of its own, and the one whose clock is behind makes the next request, the first one on a
  tie, so the daemon sees the requests in the order in which they are sent. A start dropped at the
  limit stays \<open>None\<close>, and drops the pair.
\<close>

datatype container_phase =
    Expected
  | ImageReady
  | Created string
  | Mapping string "u16 list" "u16 \<Rightarrow> u16 option"
  | Finished "engine_error + running_container"

definition advance ::
  "('a \<Rightarrow> container_phase) \<Rightarrow> ('d, engine_error + 'a) fut \<Rightarrow> ('d, container_phase) fut"
where
  "advance f m = fut_map (\<lambda>r. case r of Err e \<Rightarrow> Finished (Err e) | Ok a \<Rightarrow> f a) m"

fun container_step ::
  "'d container_engine \<Rightarrow> container_spec \<Rightarrow> container_phase \<Rightarrow> ('d, container_phase) fut"
where
  "container_step E spec Expected =
     advance (\<lambda>_. ImageReady) (run (engine_call E (ce_ensure_image E spec)))"
| "container_step E spec ImageReady = advance Created (settle_mutation E (CreateContainer spec))"
| "container_step E spec (Created i) =
     advance (\<lambda>_. Mapping i (cs_exposed_ports spec) Map.empty)
       (run (engine_call E (ce_start_container E i)))"
| "container_step E spec (Mapping i [] ports) =
     fut_return (Finished (Ok \<lparr>rc_id = i, rc_host = ce_endpoint_host E, rc_ports = ports\<rparr>))"
| "container_step E spec (Mapping i (p # ps) ports) =
     advance (\<lambda>mapped. Mapping i ps (ports(p \<mapsto> mapped)))
       (run (engine_call E (ce_mapped_port E i p)))"
| "container_step E spec (Finished r) = fut_return (Finished r)"

fun phase_left :: "container_spec \<Rightarrow> container_phase option \<Rightarrow> nat" where
  "phase_left spec None = 0"
| "phase_left spec (Some Expected) = length (cs_exposed_ports spec) + 4"
| "phase_left spec (Some ImageReady) = length (cs_exposed_ports spec) + 3"
| "phase_left spec (Some (Created _)) = length (cs_exposed_ports spec) + 2"
| "phase_left spec (Some (Mapping _ ps _)) = length ps + 1"
| "phase_left spec (Some (Finished _)) = 0"

record start_branch =
  sb_spec :: container_spec
  sb_clock :: nat
  sb_phase :: "container_phase option"

definition branch_left :: "start_branch \<Rightarrow> nat" where
  "branch_left b = phase_left (sb_spec b) (sb_phase b)"

definition branch_step ::
  "'d container_engine \<Rightarrow> start_branch \<Rightarrow> 'd runtime \<Rightarrow> start_branch \<times> 'd runtime"
where
  "branch_step E b s =
     (case sb_phase b of
        None \<Rightarrow> (b, s)
      | Some phase \<Rightarrow>
          (let (r, s') = container_step E (sb_spec b) phase (at_time (sb_clock b) s)
           in (b\<lparr>sb_phase := r, sb_clock := rt_now s'\<rparr>, s')))"

lemma advance_result:
  "advance f m s = (r, s') \<Longrightarrow>
     r = None \<or> (\<exists>e. r = Some (Finished (Err e))) \<or> (\<exists>a. r = Some (f a))"
  by (auto simp: advance_def fut_map_def fut_bind_def fut_return_def split: prod.splits
      option.splits sum.splits)

lemma container_step_left:
  assumes "container_step E spec phase s = (r, s')" and "phase_left spec (Some phase) \<noteq> 0"
  shows "phase_left spec r < phase_left spec (Some phase)"
  using assms
  by (cases "(E, spec, phase)" rule: container_step.cases)
    (auto simp: fut_return_def dest!: advance_result)

lemma branch_step_left:
  assumes "branch_left b \<noteq> 0"
  shows "branch_left (fst (branch_step E b s)) < branch_left b"
proof (cases "sb_phase b")
  case None
  then show ?thesis
    using assms by (simp add: branch_left_def)
next
  case (Some phase)
  obtain r s' where "container_step E (sb_spec b) phase (at_time (sb_clock b) s) = (r, s')"
    by fastforce
  then show ?thesis
    using assms Some container_step_left by (fastforce simp: branch_left_def branch_step_def)
qed

function join_branches ::
  "'d container_engine \<Rightarrow> start_branch \<Rightarrow> start_branch \<Rightarrow> 'd runtime
     \<Rightarrow> (start_branch \<times> start_branch) \<times> 'd runtime"
where
  "join_branches E b1 b2 s =
     (if branch_left b1 = 0 \<and> branch_left b2 = 0 then ((b1, b2), s)
      else if branch_left b2 = 0 \<or> branch_left b1 \<noteq> 0 \<and> sb_clock b1 \<le> sb_clock b2
      then (let (b1', s') = branch_step E b1 s in join_branches E b1' b2 s')
      else (let (b2', s') = branch_step E b2 s in join_branches E b1 b2' s'))"
  by pat_completeness auto
termination
  by (relation "measure (\<lambda>(E, b1, b2, s). branch_left b1 + branch_left b2)")
    (simp_all add: split_beta,
      (metis branch_step_left fst_conv neq0_conv)+)

declare join_branches.simps [simp del]

fun joined :: "container_phase option \<Rightarrow> container_phase option
  \<Rightarrow> ((engine_error + running_container) \<times> (engine_error + running_container)) option" where
  "joined (Some (Finished r1)) (Some (Finished r2)) = Some (r1, r2)"
| "joined _ _ = None"

definition start_container_pair ::
  "'d container_engine \<Rightarrow> container_spec \<Rightarrow> container_spec
     \<Rightarrow> ('d, (engine_error + running_container) \<times> (engine_error + running_container)) fut"
where
  "start_container_pair E first second s =
     (let branch = (\<lambda>spec. \<lparr>sb_spec = spec, sb_clock = rt_now s, sb_phase = Some Expected\<rparr>);
          ((b1, b2), s') = join_branches E (branch first) (branch second)
             (expecting (cs_name second) (expecting (cs_name first) s))
      in (joined (sb_phase b1) (sb_phase b2), at_time (max (sb_clock b1) (sb_clock b2)) s'))"

section \<open>Cleanup\<close>

fun join_mutations :: "'d container_engine \<Rightarrow> mutation list \<Rightarrow> 'd runtime \<Rightarrow> 'd runtime" where
  "join_mutations E [] s = s"
| "join_mutations E (m # ms) s = join_mutations E ms (snd (finish_mutation E m s))"

definition removal_key :: "owned_resource \<Rightarrow> string" where
  "removal_key r = (case or_id r of Some i \<Rightarrow> i | None \<Rightarrow> or_name r)"

definition remove_resource ::
  "'d container_engine \<Rightarrow> owned_resource \<Rightarrow> ('d, unit) engine_request"
where
  "remove_resource E r =
     (case r of Container name i \<Rightarrow> ce_remove_container E (removal_key r)
      | Network name i \<Rightarrow> ce_remove_network E (removal_key r))"

fun remove_all ::
  "'d container_engine \<Rightarrow> owned_resource list \<Rightarrow> engine_error option \<Rightarrow> 'd runtime
     \<Rightarrow> engine_error option \<times> 'd runtime"
where
  "remove_all E [] first_error s = (first_error, s)"
| "remove_all E (r # rs) first_error s =
     (let (result, d', taken) = remove_resource E r (rt_daemon s);
          first_error = (case first_error of
             None \<Rightarrow> (case result of Err e \<Rightarrow> Some e | Ok _ \<Rightarrow> None) | Some e \<Rightarrow> Some e)
      in remove_all E rs first_error (at_time (rt_now s + taken) (s\<lparr>rt_daemon := d'\<rparr>)))"

definition cleanup :: "'d container_engine \<Rightarrow> 'd runtime \<Rightarrow> (engine_error + unit) \<times> 'd runtime" where
  "cleanup E s =
     (let pending = rt_mutations s;
          s1 = join_mutations E pending (s\<lparr>rt_mutations := []\<rparr>);
          (resources, ledger) = take_cleanup_order (rt_ledger s1);
          (first_error, s2) = remove_all E resources None (s1\<lparr>rt_ledger := ledger\<rparr>)
      in (case first_error of None \<Rightarrow> Ok () | Some e \<Rightarrow> Err e, s2))"

end
