(* ===== verification/Fix_Ownership.thy ===== *)
theory Fix_Ownership
  imports Fix_Runtime
begin

text \<open>
  What the ledger of \<open>Fix_Runtime\<close> is for: whatever a fixture created on the daemon, cleanup
  finds. The contract a container engine has to meet is the locale \<open>owning_engine\<close>; every
  operation of a startup keeps the invariant \<open>owned\<close> that ties the ledger and the unfinished
  creations to what the daemon holds, and cleanup uses it up.
\<close>

section \<open>The contract of an engine\<close>

datatype held =
    HeldContainer (h_id: string) (h_name: string)
  | HeldNetwork (h_id: string) (h_name: string)

text \<open>A daemon takes a reference for a resource's identifier, a prefix of it, or its name.\<close>

definition addresses :: "string \<Rightarrow> held \<Rightarrow> bool" where
  "addresses key h \<longleftrightarrow> prefix key (h_id h) \<or> key = h_name h"

definition is_container :: "held \<Rightarrow> bool" where
  "is_container h = (case h of HeldContainer _ _ \<Rightarrow> True | _ \<Rightarrow> False)"

fun held_as :: "mutation \<Rightarrow> string \<Rightarrow> held" where
  "held_as (CreateNetwork name) i = HeldNetwork i name"
| "held_as (CreateContainer spec) i = HeldContainer i (cs_name spec)"

section \<open>The invariant\<close>

text \<open>A ledger entry answers for a resource by its identifier, or by its name until it has one.\<close>

fun answers_for :: "owned_resource \<Rightarrow> held \<Rightarrow> bool" where
  "answers_for (Container name i) h \<longleftrightarrow>
     is_container h \<and> h_name h = name \<and> (i = None \<or> i = Some (h_id h))"
| "answers_for (Network name i) h \<longleftrightarrow>
     \<not> is_container h \<and> h_name h = name \<and> (i = None \<or> i = Some (h_id h))"

lemma answers_for_name: "answers_for r h \<Longrightarrow> or_name r = h_name h"
  by (cases r) auto

fun ledger_entry :: "mutation \<Rightarrow> owned_resource" where
  "ledger_entry (CreateNetwork name) = Network name None"
| "ledger_entry (CreateContainer spec) = Container (cs_name spec) None"

definition safe_key :: "held set \<Rightarrow> string \<Rightarrow> bool" where
  "safe_key base key \<longleftrightarrow> (\<forall>h \<in> base. \<not> addresses key h)"

text \<open>
  \<open>base\<close> is what the daemon held before, \<open>names\<close> the names still to be used, \<open>pending\<close> the
  creations that were announced in the ledger and have not run.
\<close>

definition owned :: "('d \<Rightarrow> held set) \<Rightarrow> held set \<Rightarrow> string set \<Rightarrow> mutation list \<Rightarrow> 'd runtime \<Rightarrow> bool" where
  "owned held base names pending s \<longleftrightarrow>
     base \<subseteq> held (rt_daemon s)
     \<and> (\<forall>h \<in> held (rt_daemon s) - base. \<exists>r \<in> set (rt_ledger s). answers_for r h)
     \<and> (\<forall>r \<in> set (rt_ledger s). safe_key base (removal_key r))
     \<and> distinct (map or_name (rt_ledger s))
     \<and> distinct (map target pending)
     \<and> (\<forall>m \<in> set pending. ledger_entry m \<in> set (rt_ledger s)
          \<and> (\<forall>h \<in> held (rt_daemon s) - base. h_name h \<noteq> target m))
     \<and> (\<forall>n \<in> names. safe_key base n \<and> n \<notin> or_name ` set (rt_ledger s))"

lemma owned_cong:
  "rt_daemon s' = rt_daemon s \<Longrightarrow> rt_ledger s' = rt_ledger s \<Longrightarrow>
     owned held base names pending s' = owned held base names pending s"
  by (simp add: owned_def)

lemma at_time_simps [simp]:
  "rt_daemon (at_time t s) = rt_daemon s" "rt_ledger (at_time t s) = rt_ledger s"
  "rt_mutations (at_time t s) = rt_mutations s" "rt_limit (at_time t s) = rt_limit s"
  "rt_labels (at_time t s) = rt_labels s" "rt_cancel_at (at_time t s) = rt_cancel_at s"
  "rt_now (at_time t s) = t"
  by (simp_all add: at_time_def rt_now_def)

lemma owned_at_time [simp]:
  "owned held base names pending (at_time t s) = owned held base names pending s"
  by (rule owned_cong) simp_all

lemma owned_limit [simp]:
  "owned held base names pending (s\<lparr>rt_limit := l\<rparr>) = owned held base names pending s"
  by (rule owned_cong) simp_all

lemma owned_mutations [simp]:
  "owned held base names pending (s\<lparr>rt_mutations := ms\<rparr>) = owned held base names pending s"
  by (rule owned_cong) simp_all

lemma ownedD:
  assumes "owned held base names pending s"
  shows "base \<subseteq> held (rt_daemon s)"
    and "h \<in> held (rt_daemon s) - base \<Longrightarrow> \<exists>r \<in> set (rt_ledger s). answers_for r h"
    and "r \<in> set (rt_ledger s) \<Longrightarrow> safe_key base (removal_key r)"
    and "distinct (map or_name (rt_ledger s))"
    and "distinct (map target pending)"
    and "m \<in> set pending \<Longrightarrow> ledger_entry m \<in> set (rt_ledger s)"
    and "m \<in> set pending \<Longrightarrow> h \<in> held (rt_daemon s) - base \<Longrightarrow> h_name h \<noteq> target m"
    and "n \<in> names \<Longrightarrow> safe_key base n"
    and "n \<in> names \<Longrightarrow> n \<notin> or_name ` set (rt_ledger s)"
  using assms unfolding owned_def by blast+

lemma owned_pending:
  "owned held base names pending s \<Longrightarrow> set pending' \<subseteq> set pending \<Longrightarrow> distinct (map target pending') \<Longrightarrow>
     owned held base names pending' s"
  unfolding owned_def by blast

lemma owned_fewer: "owned held base names (m # pending) s \<Longrightarrow> owned held base names pending s"
  by (simp add: owned_def)

lemma owned_swap:
  "owned held base names (xs @ m # ys) s \<longleftrightarrow> owned held base names (m # xs @ ys) s"
  unfolding owned_def by (simp only: set_append list.set distinct_append list.map map_append) auto

lemma owned_names: "names' \<subseteq> names \<Longrightarrow> owned held base names pending s \<Longrightarrow> owned held base names' pending s"
  by (auto simp: owned_def)

text \<open>Announcing a creation under a name not used before.\<close>

lemma target_entry [simp]:
  "or_name (ledger_entry m) = target m" "removal_key (ledger_entry m) = target m"
  by (cases m; simp add: removal_key_def)+

lemma owned_announce:
  assumes own: "owned held base (insert (target m) names) pending s" and new: "target m \<notin> names"
    and ledger: "rt_ledger s' = rt_ledger s @ [ledger_entry m]" and daemon: "rt_daemon s' = rt_daemon s"
  shows "owned held base names (m # pending) s'"
proof -
  note own = ownedD [OF own]
  have unused: "target m \<notin> or_name ` set (rt_ledger s)"
    by (rule own(9)) simp
  have apart: "target m' \<noteq> target m" if "m' \<in> set pending" for m'
    using own(6) [OF that] unused target_entry(1) by (metis image_eqI)
  have unheld: "h_name h \<noteq> target m" if "h \<in> held (rt_daemon s) - base" for h
    using own(2) [OF that] unused answers_for_name by (metis image_eqI)
  show ?thesis
    unfolding owned_def ledger daemon
  proof (intro conjI ballI)
    show "\<exists>r \<in> set (rt_ledger s @ [ledger_entry m]). answers_for r h"
      if "h \<in> held (rt_daemon s) - base" for h
      using own(2) [OF that] by auto
    show "safe_key base (removal_key r)" if "r \<in> set (rt_ledger s @ [ledger_entry m])" for r
      using that own(3) own(8) [of "target m"] by auto
    show "distinct (map or_name (rt_ledger s @ [ledger_entry m]))"
      using own(4) unused by simp
    show "distinct (map target (m # pending))"
      using own(5) apart by force
    show "ledger_entry m' \<in> set (rt_ledger s @ [ledger_entry m])" if "m' \<in> set (m # pending)" for m'
      using that own(6) by auto
    show "h_name h \<noteq> target m'" if "m' \<in> set (m # pending)" "h \<in> held (rt_daemon s) - base" for m' h
      using that own(7) unheld by auto
    show "n \<notin> or_name ` set (rt_ledger s @ [ledger_entry m])" if "n \<in> names" for n
      using that own(9) new by auto
  qed (use own(1,8) in auto)
qed

text \<open>Confirming a name that occurs once changes that one entry.\<close>

lemma confirm_latest_map:
  "distinct (map or_name rs) \<Longrightarrow>
     confirm_latest rs name i = map (\<lambda>r. if or_name r = name then confirm_resource r i else r) rs"
proof (induction rs)
  case (Cons r rs)
  show ?case
  proof (cases "or_name r = name")
    case True
    then have "map (\<lambda>r. if or_name r = name then confirm_resource r i else r) rs = rs"
      using Cons.prems by (intro map_idI) (metis distinct.simps(2) image_eqI list.map(2) list.set_map)
    then show ?thesis
      using True by simp
  qed (use Cons in simp)
qed simp

lemma confirm_map:
  "distinct (map or_name ledger) \<Longrightarrow>
     confirm ledger name i = map (\<lambda>r. if or_name r = name then confirm_resource r i else r) ledger"
  using confirm_latest_map [of "rev ledger" name i] by (simp add: confirm_def flip: rev_map)

lemma confirm_resource_simps [simp]:
  "or_name (confirm_resource r i) = or_name r" "removal_key (confirm_resource r i) = i"
  by (cases r; simp add: removal_key_def)+

section \<open>Futures and state predicates\<close>

definition leads :: "('d runtime \<Rightarrow> bool) \<Rightarrow> ('d, 'a) fut \<Rightarrow> ('d runtime \<Rightarrow> bool) \<Rightarrow> bool" where
  "leads P m Q \<longleftrightarrow> (\<forall>s r s'. P s \<longrightarrow> m s = (r, s') \<longrightarrow> Q s')"

text \<open>Predicates that do not speak of the limit under which a future is polled.\<close>

definition limitless :: "('d runtime \<Rightarrow> bool) \<Rightarrow> bool" where
  "limitless P \<longleftrightarrow> (\<forall>s l. P (s\<lparr>rt_limit := l\<rparr>) = P s)"

lemma leadsD: "leads P m Q \<Longrightarrow> P s \<Longrightarrow> m s = (r, s') \<Longrightarrow> Q s'"
  by (simp add: leads_def)

lemma leads_weaken: "leads P m Q \<Longrightarrow> (\<And>s. Q s \<Longrightarrow> R s) \<Longrightarrow> leads P m R"
  by (auto simp: leads_def)

lemma leads_return: "(\<And>s. P s \<Longrightarrow> Q s) \<Longrightarrow> leads P (fut_return a) Q"
  by (auto simp: leads_def fut_return_def)

lemma leads_bind:
  "leads P m R \<Longrightarrow> (\<And>s. R s \<Longrightarrow> Q s) \<Longrightarrow> (\<And>a. leads R (f a) Q) \<Longrightarrow> leads P (fut_bind m f) Q"
  unfolding leads_def fut_bind_def by (simp split: prod.split option.split) metis

lemma leads_try:
  "leads P m R \<Longrightarrow> (\<And>s. R s \<Longrightarrow> Q s) \<Longrightarrow> (\<And>a. leads R (f a) Q) \<Longrightarrow> leads P (fut_try m f) Q"
  unfolding fut_try_def by (rule leads_bind [where R = R]) (auto intro: leads_return split: sum.split)

lemma leads_map: "leads P m Q \<Longrightarrow> leads P (fut_map g m) Q"
  unfolding fut_map_def by (rule leads_bind) (auto intro: leads_return)

lemma leads_race:
  "leads P m Q \<Longrightarrow> limitless P \<Longrightarrow> limitless Q \<Longrightarrow> leads P (race t late m) Q"
  unfolding leads_def limitless_def race_def
  by (auto simp: Let_def split: prod.splits option.splits if_splits)

lemma leads_run_until_cancelled:
  "leads P m Q \<Longrightarrow> limitless P \<Longrightarrow> limitless Q \<Longrightarrow> (\<And>s. P s \<Longrightarrow> Q s) \<Longrightarrow>
     leads P (run_until_cancelled m) Q"
  unfolding leads_def [where m = "run_until_cancelled m"] run_until_cancelled_def
  by (auto split: if_splits dest: leadsD [OF leads_race])

lemma leads_run:
  "leads P m Q \<Longrightarrow> limitless P \<Longrightarrow> limitless Q \<Longrightarrow> (\<And>s. P s \<Longrightarrow> Q s) \<Longrightarrow> leads P (run m) Q"
  unfolding run_def by (rule leads_try [where R = Q]) (auto intro: leads_run_until_cancelled leads_return)

lemma leads_deadline_run:
  "leads P m Q \<Longrightarrow> limitless P \<Longrightarrow> limitless Q \<Longrightarrow> leads P (deadline_run d service obs m) Q"
  unfolding deadline_run_def by (rule leads_race)

text \<open>The invariant of a running supervisor, and with one creation announced and not yet run.\<close>

definition owning :: "('d \<Rightarrow> held set) \<Rightarrow> held set \<Rightarrow> string set \<Rightarrow> 'd runtime \<Rightarrow> bool" where
  "owning held base names s \<longleftrightarrow> owned held base names (rt_mutations s) s"

definition about_to :: "mutation list \<Rightarrow> ('d \<Rightarrow> held set) \<Rightarrow> held set \<Rightarrow> string set \<Rightarrow> 'd runtime \<Rightarrow> bool" where
  "about_to ms held base names s \<longleftrightarrow> owned held base names (ms @ rt_mutations s) s"

lemma limitless_owning [simp]: "limitless (owning held base names)"
  by (simp add: limitless_def owning_def)

lemma limitless_about_to [simp]: "limitless (about_to ms held base names)"
  by (simp add: limitless_def about_to_def)

lemma about_to_Nil: "about_to [] = owning"
  by (simp add: about_to_def owning_def fun_eq_iff)

lemma about_to_fewer: "about_to (m # ms) held base names s \<Longrightarrow> about_to ms held base names s"
  by (simp add: about_to_def owned_fewer)

text \<open>The creation a branch of a pair has announced and not yet made.\<close>

definition outstanding_at :: "container_spec \<Rightarrow> container_phase option \<Rightarrow> mutation list" where
  "outstanding_at spec phase =
     (if phase = Some Expected \<or> phase = Some ImageReady then [CreateContainer spec] else [])"

definition outstanding :: "start_branch \<Rightarrow> mutation list" where
  "outstanding b = outstanding_at (sb_spec b) (sb_phase b)"

lemma advance_keeps: "leads P m Q \<Longrightarrow> leads P (advance f m) Q"
  unfolding advance_def by (rule leads_map)

lemma about_to_outstanding:
  "about_to (outstanding b @ ms) held base names s \<Longrightarrow> about_to ms held base names s"
  by (auto simp: outstanding_def outstanding_at_def dest: about_to_fewer split: if_splits)

lemma about_to_commute:
  "about_to (outstanding b @ outstanding c) held base names s \<longleftrightarrow>
     about_to (outstanding c @ outstanding b) held base names s"
  using owned_swap [of held base names "outstanding b" _ "rt_mutations s" s]
  by (auto simp: about_to_def outstanding_def outstanding_at_def)

text \<open>
  What a composite does with its startup: any sequence of its operations, each new name taken from
  those not used so far, with anything that leaves daemon and ledger alone in between, such as
  requests to the services started, waiting, and the limits under which it is polled.
\<close>

inductive startup_run ::
  "'d container_engine \<Rightarrow> string set \<Rightarrow> 'd runtime \<Rightarrow> string set \<Rightarrow> 'd runtime \<Rightarrow> bool"
  for E :: "'d container_engine" and names :: "string set" and s :: "'d runtime"
where
  run_start: "startup_run E names s names s"
| run_network: "startup_run E names s (insert n left) s1 \<Longrightarrow> n \<notin> left \<Longrightarrow>
    create_network E n s1 = (r, s2) \<Longrightarrow> startup_run E names s left s2"
| run_container: "startup_run E names s (insert (cs_name spec) left) s1 \<Longrightarrow> cs_name spec \<notin> left \<Longrightarrow>
    start_container E spec s1 = (rc, s2) \<Longrightarrow> startup_run E names s left s2"
| run_pair: "startup_run E names s (insert (cs_name first) (insert (cs_name second) left)) s1 \<Longrightarrow>
    cs_name first \<notin> insert (cs_name second) left \<Longrightarrow> cs_name second \<notin> left \<Longrightarrow>
    start_container_pair E first second s1 = (rp, s2) \<Longrightarrow> startup_run E names s left s2"
| run_logs: "startup_run E names s left s1 \<Longrightarrow> logs E i s1 = (rl, s2) \<Longrightarrow> startup_run E names s left s2"
| run_file: "startup_run E names s left s1 \<Longrightarrow> read_container_file E i path n s1 = (rl, s2) \<Longrightarrow>
    startup_run E names s left s2"
| run_other: "startup_run E names s left s1 \<Longrightarrow> rt_daemon s2 = rt_daemon s1 \<Longrightarrow>
    rt_ledger s2 = rt_ledger s1 \<Longrightarrow> rt_mutations s2 = rt_mutations s1 \<Longrightarrow> left' \<subseteq> left \<Longrightarrow>
    startup_run E names s left' s2"

text \<open>
  A creation that answers created that one resource, under an identifier that addresses nothing
  else; one that fails created it or not. A removal that answers leaves nothing of its kind under
  the reference, one that fails may have removed it or not, and neither touches anything else.
\<close>
locale owning_engine =
  fixes E :: "'d container_engine"
    and held :: "'d \<Rightarrow> held set"
  assumes creation_Ok: "creation E ls m d = (Ok i, d', t) \<Longrightarrow>
      held d' = insert (held_as m i) (held d) \<and> (\<forall>h \<in> held d. \<not> addresses i h)"
    and creation_Err: "creation E ls m d = (Err e, d', t) \<Longrightarrow>
      held d' = held d \<or> (\<exists>i. held d' = insert (held_as m i) (held d))"
    and ensure_image_keeps: "ce_ensure_image E spec d = (ru, d', t) \<Longrightarrow> held d' = held d"
    and start_keeps: "ce_start_container E i d = (ru, d', t) \<Longrightarrow> held d' = held d"
    and mapped_port_keeps: "ce_mapped_port E i p d = (rp, d', t) \<Longrightarrow> held d' = held d"
    and logs_keeps: "ce_logs E i d = (rs, d', t) \<Longrightarrow> held d' = held d"
    and read_file_keeps: "ce_read_container_file E i path n d = (rs, d', t) \<Longrightarrow> held d' = held d"
    and abandoned_keeps: "held d' = held d \<Longrightarrow> held (ce_abandoned E d d') = held d"
    and remove_container_Ok: "ce_remove_container E key d = (Ok (), d', t) \<Longrightarrow>
      h \<in> held d' \<Longrightarrow> is_container h \<Longrightarrow> h_id h \<noteq> key \<and> h_name h \<noteq> key"
    and remove_network_Ok: "ce_remove_network E key d = (Ok (), d', t) \<Longrightarrow>
      h \<in> held d' \<Longrightarrow> \<not> is_container h \<Longrightarrow> h_id h \<noteq> key \<and> h_name h \<noteq> key"
    and remove_container_others: "ce_remove_container E key d = (ru, d', t) \<Longrightarrow>
      held d' \<subseteq> held d \<and> (\<forall>h \<in> held d. \<not> addresses key h \<longrightarrow> h \<in> held d')"
    and remove_network_others: "ce_remove_network E key d = (ru, d', t) \<Longrightarrow>
      held d' \<subseteq> held d \<and> (\<forall>h \<in> held d. \<not> addresses key h \<longrightarrow> h \<in> held d')"
begin

section \<open>Creations\<close>

lemma owned_finish:
  assumes "owned held base names (m # pending) s" and "finish_mutation E m s = (r, s')"
  shows "owned held base names pending s'"
proof -
  note own = ownedD [OF assms(1)]
  obtain q d' t where q: "creation E (rt_labels s) m (rt_daemon s) = (q, d', t)"
    by (metis prod_cases3)
  have entry: "ledger_entry m \<in> set (rt_ledger s)"
    using own(6) by simp
  have answers: "answers_for (ledger_entry m) (held_as m i)" "h_name (held_as m i) = target m" for i
    by (cases m; simp add: is_container_def)+
  have others: "h_name h \<noteq> target m" if "h \<in> held (rt_daemon s) - base" for h
    using own(7) [OF _ that] by simp
  have apart: "target m' \<noteq> target m" if "m' \<in> set pending" for m'
    using own(5) that by (metis distinct.simps(2) image_eqI list.map(2) list.set_map)
  show ?thesis
  proof (cases q)
    case (Inl e)
    then have s': "rt_daemon s' = d'" "rt_ledger s' = rt_ledger s"
      using assms(2) q by (auto simp: finish_mutation_def)
    have "held d' = held (rt_daemon s) \<or> (\<exists>i. held d' = insert (held_as m i) (held (rt_daemon s)))"
      using creation_Err q Inl by metis
    then obtain extra where d': "held d' = extra \<union> held (rt_daemon s)"
      and extra: "\<And>h. h \<in> extra \<Longrightarrow> \<exists>i. h = held_as m i"
      by (metis Un_empty_left empty_iff insert_is_Un singletonD)
    show ?thesis
      unfolding owned_def s' d'
    proof (intro conjI ballI)
      show "\<exists>r \<in> set (rt_ledger s). answers_for r h" if "h \<in> extra \<union> held (rt_daemon s) - base" for h
        using that extra own(2) entry answers(1) by blast
      show "h_name h \<noteq> target m'"
        if "m' \<in> set pending" "h \<in> extra \<union> held (rt_daemon s) - base" for m' h
        using that extra own(7) [of m' h] apart answers(2) by (metis Diff_iff Un_iff list.set_intros(2))
    qed (use own in auto)
  next
    case (Inr i)
    let ?mark = "\<lambda>r. if or_name r = target m then confirm_resource r i else r"
    have s': "rt_daemon s' = d'" "rt_ledger s' = map ?mark (rt_ledger s)"
      using assms(2) q Inr confirm_map [OF own(4)] by (auto simp: finish_mutation_def)
    have created: "held d' = insert (held_as m i) (held (rt_daemon s))"
      and fresh: "\<forall>h \<in> held (rt_daemon s). \<not> addresses i h"
      using creation_Ok q Inr by metis+
    have base: "safe_key base i"
      using fresh own(1) by (auto simp: safe_key_def)
    have marked: "answers_for (?mark (ledger_entry m)) (held_as m i)"
      by (cases m) (simp_all add: is_container_def)
    have kept: "?mark r = r" if "answers_for r h" "h \<in> held (rt_daemon s) - base" for r h
      using answers_for_name [OF that(1)] others [OF that(2)] by simp
    have names: "map or_name (rt_ledger s') = map or_name (rt_ledger s)"
      by (simp add: s'(2))
    then have image: "or_name ` set (rt_ledger s') = or_name ` set (rt_ledger s)"
      by (metis list.set_map)
    have marked_in: "?mark r \<in> set (rt_ledger s')" if "r \<in> set (rt_ledger s)" for r
      using that unfolding s'(2) list.set_map by (rule imageI)
    have still: "?mark (ledger_entry m') = ledger_entry m'" if "m' \<in> set pending" for m'
      using apart [OF that] by simp
    show ?thesis
      unfolding owned_def
    proof (intro conjI ballI)
      show "base \<subseteq> held (rt_daemon s')"
        using own(1) created s'(1) by auto
      show "\<exists>r \<in> set (rt_ledger s'). answers_for r h" if "h \<in> held (rt_daemon s') - base" for h
      proof (cases "h = held_as m i")
        case True
        then show ?thesis
          using marked marked_in [OF entry] by blast
      next
        case False
        then have there: "h \<in> held (rt_daemon s) - base"
          using that created s'(1) by auto
        then obtain r where r: "r \<in> set (rt_ledger s)" "answers_for r h"
          using own(2) by blast
        then show ?thesis
          using marked_in [OF r(1)] kept [OF r(2) there] by auto
      qed
      show "safe_key base (removal_key r)" if "r \<in> set (rt_ledger s')" for r
        using that own(3) base s'(2) by auto
      show "distinct (map or_name (rt_ledger s'))"
        using own(4) names by simp
      show "ledger_entry m' \<in> set (rt_ledger s')" if "m' \<in> set pending" for m'
        using marked_in [OF own(6) [of m']] still [OF that] that by simp
      show "h_name h \<noteq> target m'" if "m' \<in> set pending" "h \<in> held (rt_daemon s') - base" for m' h
      proof (cases "h = held_as m i")
        case True
        then show ?thesis
          using apart [OF that(1)] answers(2) by simp
      next
        case False
        then have there: "h \<in> held (rt_daemon s) - base"
          using that(2) created s'(1) by auto
        show ?thesis
          by (rule own(7) [OF _ there]) (simp add: that(1))
      qed
      show "n \<notin> or_name ` set (rt_ledger s')" if "n \<in> names" for n
        using own(9) [OF that] image by simp
    qed (use own in auto)
  qed
qed

text \<open>Requests that create and remove nothing keep the invariant, served or abandoned.\<close>

lemma engine_call_keeps:
  assumes "\<And>d r d' t. q d = (r, d', t) \<Longrightarrow> held d' = held d"
  shows "leads (about_to ms held base names) (engine_call E q) (about_to ms held base names)"
  unfolding leads_def
proof (intro allI impI)
  fix s s' r
  assume own: "about_to ms held base names s" and call: "engine_call E q s = (r, s')"
  obtain r1 d' t where q: "q (rt_daemon s) = (r1, d', t)"
    by (metis prod_cases3)
  then have "held (rt_daemon s') = held (rt_daemon s)" "rt_ledger s' = rt_ledger s"
    "rt_mutations s' = rt_mutations s"
    using assms [OF q] abandoned_keeps [OF assms [OF q]] call
    by (auto simp: engine_call_def split: if_splits)
  then show "about_to ms held base names s'"
    using own by (simp add: about_to_def owned_def)
qed

lemma await_mutation_owned:
  "leads (about_to (m # ms) held base names) (await_mutation E m) (about_to ms held base names)"
  unfolding leads_def
proof (intro allI impI)
  fix s s' r
  assume own: "about_to (m # ms) held base names s" and run: "await_mutation E m s = (r, s')"
  obtain r1 s1 where fin: "finish_mutation E m s = (r1, s1)"
    by fastforce
  then have "rt_mutations s1 = rt_mutations s"
    by (auto simp: finish_mutation_def split: prod.splits)
  moreover have "owned held base names (ms @ rt_mutations s) s1"
    using own owned_finish [OF _ fin] by (simp add: about_to_def)
  ultimately show "about_to ms held base names s'"
    using run fin own owned_swap [of held base names "ms @ rt_mutations s" m "[]" s]
    by (auto simp: await_mutation_def about_to_def split: if_splits)
qed

lemma settle_mutation_owned:
  "leads (about_to (m # ms) held base names) (settle_mutation E m) (about_to ms held base names)"
proof -
  have "leads (about_to (m # ms) held base names)
      (fut_try (run_until_cancelled (await_mutation E m)) fut_return) (about_to ms held base names)"
    by (rule leads_try [where R = "about_to ms held base names"])
      (auto intro!: leads_run_until_cancelled await_mutation_owned leads_return
        dest: about_to_fewer)
  then show ?thesis
    unfolding leads_def settle_mutation_def by (auto dest: about_to_fewer)
qed

lemma owning_announce:
  "owning held base (insert (target m) names) s \<Longrightarrow> target m \<notin> names \<Longrightarrow>
     about_to [m] held base names (s\<lparr>rt_ledger := rt_ledger s @ [ledger_entry m]\<rparr>)"
  unfolding owning_def about_to_def
  by (simp add: owned_announce [where s = s])

section \<open>Operations of a startup\<close>

lemma create_network_owned:
  assumes "name \<notin> names"
  shows "leads (owning held base (insert name names)) (create_network E name)
    (owning held base names)"
  unfolding leads_def
proof (intro allI impI)
  fix s s' r
  assume own: "owning held base (insert name names) s" and run: "create_network E name s = (r, s')"
  have "leads (about_to [CreateNetwork name] held base names)
      (fut_try (settle_mutation E (CreateNetwork name)) (\<lambda>_. fut_return (Ok ())))
      (about_to [] held base names)"
    by (rule leads_try [OF settle_mutation_owned]) (auto intro: leads_return)
  then show "owning held base names s'"
    using owning_announce [of base "CreateNetwork name" names s] own assms run
    by (auto simp: create_network_def expect_network_def about_to_Nil dest: leadsD)
qed

lemma map_ports_owned:
  "leads (about_to ms held base names) (map_ports E i ps ports) (about_to ms held base names)"
proof (induction ps arbitrary: ports)
  case (Cons p ps)
  then show ?case
    by (auto intro!: leads_try [where R = "about_to ms held base names"] leads_run
        engine_call_keeps mapped_port_keeps)
qed (simp add: leads_return)

lemma start_expected_container_owned:
  "leads (about_to (CreateContainer spec # ms) held base names) (start_expected_container E spec)
     (about_to ms held base names)"
  unfolding start_expected_container_def
  by (rule leads_try [where R = "about_to (CreateContainer spec # ms) held base names"];
      (rule leads_run | rule leads_try [where R = "about_to ms held base names"])?)
    (auto intro!: leads_run engine_call_keeps settle_mutation_owned map_ports_owned leads_return
       leads_try [where R = "about_to ms held base names"]
       dest: about_to_fewer ensure_image_keeps start_keeps)

lemma logs_owned: "leads (about_to ms held base names) (logs E i) (about_to ms held base names)"
  unfolding logs_def by (auto intro!: leads_run engine_call_keeps logs_keeps)

lemma read_container_file_owned:
  "leads (about_to ms held base names) (read_container_file E i path n) (about_to ms held base names)"
  unfolding read_container_file_def
  by (rule leads_try [where R = "about_to ms held base names"])
    (auto intro!: leads_run engine_call_keeps read_file_keeps leads_return)

lemma attach_container_log_owned:
  "leads (about_to ms held base names) (attach_container_log E d service i e)
     (about_to ms held base names)"
  unfolding attach_container_log_def
  by (intro leads_map leads_deadline_run logs_owned limitless_about_to)

lemma start_container_owned:
  assumes "cs_name spec \<notin> names"
  shows "leads (owning held base (insert (cs_name spec) names)) (start_container E spec)
    (owning held base names)"
  unfolding leads_def start_container_def expecting_def expect_container_def
  using owning_announce [of base "CreateContainer spec" names] assms
    leadsD [OF start_expected_container_owned [of spec "[]" base names]]
  by (auto simp: about_to_Nil)

lemma container_step_owned:
  assumes "container_step E spec phase s = (r, s')"
    and "about_to (outstanding_at spec (Some phase) @ ms) held base names s"
  shows "about_to (outstanding_at spec r @ ms) held base names s'"
proof (cases phase)
  case Expected
  have "leads (about_to (CreateContainer spec # ms) held base names) (container_step E spec Expected)
      (about_to (CreateContainer spec # ms) held base names)"
    by (auto intro!: advance_keeps leads_run engine_call_keeps ensure_image_keeps)
  then have "about_to (CreateContainer spec # ms) held base names s'"
    using assms Expected by (auto simp: outstanding_at_def dest: leadsD)
  then show ?thesis
    by (auto simp: outstanding_at_def dest: about_to_fewer)
next
  case ImageReady
  have "leads (about_to (CreateContainer spec # ms) held base names) (container_step E spec ImageReady)
      (about_to ms held base names)"
    by (auto intro!: advance_keeps settle_mutation_owned)
  moreover have "r \<noteq> Some Expected \<and> r \<noteq> Some ImageReady"
    using assms(1) ImageReady by (auto dest!: advance_result)
  ultimately show ?thesis
    using assms ImageReady by (auto simp: outstanding_at_def dest: leadsD)
next
  case (Created i)
  have "leads (about_to ms held base names) (container_step E spec (Created i)) (about_to ms held base names)"
    by (auto intro!: advance_keeps leads_run engine_call_keeps start_keeps)
  moreover have "r \<noteq> Some Expected \<and> r \<noteq> Some ImageReady"
    using assms(1) Created by (auto dest!: advance_result)
  ultimately show ?thesis
    using assms Created by (auto simp: outstanding_at_def dest: leadsD)
next
  case (Mapping i ps ports)
  have "leads (about_to ms held base names) (container_step E spec (Mapping i ps ports))
      (about_to ms held base names)"
    by (cases ps) (auto intro!: advance_keeps leads_run leads_return engine_call_keeps mapped_port_keeps)
  moreover have "r \<noteq> Some Expected \<and> r \<noteq> Some ImageReady"
    using assms(1) Mapping by (cases ps) (auto simp: fut_return_def dest!: advance_result)
  ultimately show ?thesis
    using assms Mapping by (auto simp: outstanding_at_def dest: leadsD)
qed (use assms in \<open>auto simp: fut_return_def outstanding_at_def\<close>)

lemma branch_step_owned:
  assumes "branch_step E b s = (b', s')" and "about_to (outstanding b @ ms) held base names s"
  shows "about_to (outstanding b' @ ms) held base names s'"
proof (cases "sb_phase b")
  case None
  then show ?thesis
    using assms by (simp add: branch_step_def)
next
  case (Some phase)
  obtain r s1 where run: "container_step E (sb_spec b) phase (at_time (sb_clock b) s) = (r, s1)"
    by fastforce
  have "about_to (outstanding b @ ms) held base names (at_time (sb_clock b) s)"
    using assms(2) by (simp add: about_to_def)
  then have "about_to (outstanding_at (sb_spec b) r @ ms) held base names s1"
    using container_step_owned [OF run] Some by (simp add: outstanding_def)
  then show ?thesis
    using assms(1) Some run by (auto simp: branch_step_def outstanding_def)
qed

lemma join_branches_owned:
  "join_branches E b1 b2 s = (q, s') \<Longrightarrow>
     about_to (outstanding b1 @ outstanding b2) held base names s \<Longrightarrow> owning held base names s'"
proof (induction "branch_left b1 + branch_left b2" arbitrary: b1 b2 s rule: less_induct)
  case less
  let ?done = "branch_left b1 = 0 \<and> branch_left b2 = 0"
  let ?first = "branch_left b2 = 0 \<or> branch_left b1 \<noteq> 0 \<and> sb_clock b1 \<le> sb_clock b2"
  consider ?done | "\<not> ?done" ?first | "\<not> ?done" "\<not> ?first"
    by blast
  then show ?case
  proof cases
    case 1
    then show ?thesis
      using less.prems by (auto simp: join_branches.simps [of E b1 b2 s] about_to_Nil
          dest!: about_to_outstanding [where ms = "outstanding b2"]
            about_to_outstanding [where ms = "[]", unfolded append_Nil2])
  next
    case 2
    obtain b1' s1 where step: "branch_step E b1 s = (b1', s1)"
      by fastforce
    then have "join_branches E b1 b2 s = join_branches E b1' b2 s1"
      by (subst join_branches.simps) (simp only: if_not_P [OF 2(1)] if_P [OF 2(2)], simp)
    then show ?thesis
      using less.hyps [of b1' b2 s1] branch_step_left [of b1 E s] less.prems
        branch_step_owned [OF step] 2 step by auto
  next
    case 3
    obtain b2' s1 where step: "branch_step E b2 s = (b2', s1)"
      by fastforce
    then have "join_branches E b1 b2 s = join_branches E b1 b2' s1"
      by (subst join_branches.simps) (simp only: if_not_P [OF 3(1)] if_not_P [OF 3(2)], simp)
    then show ?thesis
      using less.hyps [of b1 b2' s1] branch_step_left [of b2 E s] less.prems
        branch_step_owned [OF step, of "outstanding b1"] 3 step
      by (auto simp: about_to_commute [of b1])
  qed
qed

lemma start_container_pair_owned:
  assumes "cs_name first \<notin> insert (cs_name second) names" and "cs_name second \<notin> names"
  shows "leads (owning held base (insert (cs_name first) (insert (cs_name second) names)))
    (start_container_pair E first second) (owning held base names)"
  unfolding leads_def
proof (intro allI impI)
  fix s s' r
  assume own: "owning held base (insert (cs_name first) (insert (cs_name second) names)) s"
    and run: "start_container_pair E first second s = (r, s')"
  let ?branch = "\<lambda>spec. \<lparr>sb_spec = spec, sb_clock = rt_now s, sb_phase = Some Expected\<rparr>"
  let ?s2 = "expecting (cs_name second) (expecting (cs_name first) s)"
  obtain b1 b2 s3 where join: "join_branches E (?branch first) (?branch second) ?s2 = ((b1, b2), s3)"
    by (metis prod.collapse)
  have "about_to [CreateContainer first] held base (insert (cs_name second) names)
      (expecting (cs_name first) s)"
    using owning_announce [of base "CreateContainer first" "insert (cs_name second) names" s] own assms
    by (simp add: expecting_def expect_container_def)
  then have "about_to [CreateContainer second, CreateContainer first] held base names ?s2"
    using owned_announce [of held base "CreateContainer second" names
        "CreateContainer first # rt_mutations s" "expecting (cs_name first) s" ?s2] assms
    by (simp add: about_to_def expecting_def expect_container_def)
  then have "about_to (outstanding (?branch second) @ outstanding (?branch first)) held base names ?s2"
    by (simp add: outstanding_def outstanding_at_def)
  then have "owning held base names s3"
    using join_branches_owned [OF join] about_to_commute by blast
  then show "owning held base names s'"
    using run join by (auto simp: start_container_pair_def Let_def owning_def)
qed

lemma startup_run_owned:
  "startup_run E names s left s' \<Longrightarrow> owning held base names s \<Longrightarrow> owning held base left s'"
proof (induction rule: startup_run.induct)
  case (run_pair first second left s1 rp s2)
  then show ?case
    using leadsD [OF start_container_pair_owned] by metis
next
  case (run_other left s1 s2 left')
  then show ?case
    using owned_names [of left' left held base "rt_mutations s1" s2]
    by (simp add: owning_def owned_cong [of s2 s1])
qed (auto dest: leadsD [OF create_network_owned] leadsD [OF start_container_owned]
    leadsD [OF logs_owned, of "[]", unfolded about_to_Nil]
    leadsD [OF read_container_file_owned, of "[]", unfolded about_to_Nil])

section \<open>Cleanup\<close>

lemma join_mutations_owned:
  "owned held base names ms s \<Longrightarrow> owned held base names [] (join_mutations E ms s)"
proof (induction ms arbitrary: s)
  case (Cons m ms)
  then show ?case
    using owned_finish [OF Cons.prems prod.collapse [symmetric]] by simp
qed simp

lemma remove_resource_effect:
  assumes "remove_resource E r d = (q, d', t)"
  shows "held d' \<subseteq> held d"
    and "h \<in> held d \<Longrightarrow> \<not> addresses (removal_key r) h \<Longrightarrow> h \<in> held d'"
    and "q = Ok () \<Longrightarrow> h \<in> held d' \<Longrightarrow> \<not> answers_for r h"
proof -
  consider (container) name i where "r = Container name i" "ce_remove_container E (removal_key r) d = (q, d', t)"
    | (network) name i where "r = Network name i" "ce_remove_network E (removal_key r) d = (q, d', t)"
    using assms by (cases r) (simp_all add: remove_resource_def)
  note cases = this
  have others: "held d' \<subseteq> held d \<and> (\<forall>h \<in> held d. \<not> addresses (removal_key r) h \<longrightarrow> h \<in> held d')"
    by (cases rule: cases) (rule remove_container_others remove_network_others, assumption)+
  then show "held d' \<subseteq> held d"
    by (rule conjunct1)
  show "h \<in> held d \<Longrightarrow> \<not> addresses (removal_key r) h \<Longrightarrow> h \<in> held d'"
    using others by simp
  show "\<not> answers_for r h" if "q = Ok ()" "h \<in> held d'"
  proof (cases rule: cases)
    case container
    then show ?thesis
      using remove_container_Ok [of "removal_key r" d d' t h] that
      by (cases i) (auto simp: removal_key_def)
  next
    case network
    then show ?thesis
      using remove_network_Ok [of "removal_key r" d d' t h] that
      by (cases i) (auto simp: removal_key_def)
  qed
qed

lemma remove_all_effect:
  assumes "remove_all E rs e s = (e', s')" and "base \<subseteq> held (rt_daemon s)"
    and "\<forall>r \<in> set rs. safe_key base (removal_key r)"
  shows "held (rt_daemon s') \<subseteq> held (rt_daemon s) \<and> base \<subseteq> held (rt_daemon s')
    \<and> (e' = None \<longrightarrow> e = None \<and> (\<forall>r \<in> set rs. \<forall>h \<in> held (rt_daemon s'). \<not> answers_for r h))"
  using assms
proof (induction rs arbitrary: e s)
  case (Cons r rs)
  obtain q d' t where q: "remove_resource E r (rt_daemon s) = (q, d', t)"
    by (metis prod_cases3)
  let ?e = "case e of None \<Rightarrow> (case q of Err x \<Rightarrow> Some x | Ok _ \<Rightarrow> None) | Some x \<Rightarrow> Some x"
  let ?s = "at_time (rt_now s + t) (s\<lparr>rt_daemon := d'\<rparr>)"
  have "remove_all E rs ?e ?s = (e', s')"
    using Cons.prems(1) by (simp add: q)
  moreover have "base \<subseteq> held (rt_daemon ?s)"
    using Cons.prems(2,3) remove_resource_effect(2) [OF q] by (auto simp: safe_key_def)
  ultimately have IH: "held (rt_daemon s') \<subseteq> held d'" "base \<subseteq> held (rt_daemon s')"
    "e' = None \<Longrightarrow> ?e = None \<and> (\<forall>r \<in> set rs. \<forall>h \<in> held (rt_daemon s'). \<not> answers_for r h)"
    using Cons.IH [of ?e ?s] Cons.prems(3) by auto
  have "e = None \<and> q = Ok ()" if "e' = None"
    using IH(3) [OF that] by (auto split: option.splits sum.splits)
  then show ?case
    using IH remove_resource_effect(1,3) [OF q] by auto
qed auto

lemma cleanup_effect:
  assumes "owning held base names s" and "cleanup E s = (r, s')"
  shows "base \<subseteq> held (rt_daemon s')" and "r = Ok () \<Longrightarrow> held (rt_daemon s') = base"
proof -
  let ?s1 = "join_mutations E (rt_mutations s) (s\<lparr>rt_mutations := []\<rparr>)"
  obtain e s2 where removed: "remove_all E (rev (rt_ledger ?s1)) None (?s1\<lparr>rt_ledger := []\<rparr>) = (e, s2)"
    by fastforce
  have result: "s' = s2" "r = (case e of None \<Rightarrow> Ok () | Some x \<Rightarrow> Err x)"
    using assms(2) removed by (auto simp: cleanup_def take_cleanup_order_def Let_def)
  have own: "owned held base names [] ?s1"
    using assms(1) by (intro join_mutations_owned) (simp add: owning_def)
  note effect = remove_all_effect [OF removed, of base]
  have before: "base \<subseteq> held (rt_daemon (?s1\<lparr>rt_ledger := []\<rparr>))"
    "\<forall>r \<in> set (rev (rt_ledger ?s1)). safe_key base (removal_key r)"
    using ownedD(1,3) [OF own] by simp_all
  show "base \<subseteq> held (rt_daemon s')"
    using effect [OF before] result by simp
  show "held (rt_daemon s') = base" if "r = Ok ()"
  proof -
    have gone: "\<forall>r \<in> set (rt_ledger ?s1). \<forall>h \<in> held (rt_daemon s2). \<not> answers_for r h"
      using effect [OF before] that result by (auto split: option.splits)
    have "held (rt_daemon s2) \<subseteq> held (rt_daemon ?s1)"
      using effect [OF before] by simp
    then show ?thesis
      using effect [OF before] ownedD(2) [OF own] gone result by blast
  qed
qed

end

end
