(* ===== verification/Fix_Engine.thy ===== *)
theory Fix_Engine
  imports Fix_Ownership
begin

text \<open>
  \<open>runtime/engine.rs\<close> of the crate \<open>nigiri-rs-fixtures\<close>: the container engine over Docker's
  API. The bollard client, and with it the daemon, is the parameter \<open>docker\<close>; the tar crate is a
  parameter of the archive decoder, the url crate one of the check of the configured endpoint.
\<close>

section \<open>Docker's API\<close>

text \<open>\<open>DockerResponseServerError\<close> carries a status code, other errors do not.\<close>

record bollard_error =
  be_status_code :: "nat option"
  be_text :: string
  be_causes :: "string list"

record port_binding =
  pb_host_ip :: "string option"
  pb_host_port :: "string option"

record container_create_body =
  cb_image :: string
  cb_entrypoint :: "string list option"
  cb_cmd :: "string list"
  cb_labels :: labels
  cb_exposed_ports :: "string list"
  cb_network_mode :: string
  cb_port_bindings :: "(string \<times> port_binding list option) list"

record path_stat =
  ps_name :: string
  ps_size :: int
  ps_file_mode :: u32
  ps_link_target :: string

type_synonym ('d, 'a) docker_request = "'d \<Rightarrow> (bollard_error + 'a) \<times> 'd \<times> nat"

type_synonym port_map = "string \<Rightarrow> port_binding list option option"

record 'd docker =
  dk_create_network :: "string \<Rightarrow> labels \<Rightarrow> ('d, string) docker_request"
  dk_inspect_image :: "string \<Rightarrow> ('d, unit) docker_request"
  dk_create_image :: "string \<Rightarrow> 'd \<Rightarrow> (bollard_error + unit) list \<times> 'd \<times> nat"
  dk_create_container :: "string \<Rightarrow> container_create_body \<Rightarrow> ('d, string) docker_request"
  dk_start_container :: "string \<Rightarrow> ('d, unit) docker_request"
  dk_inspect_container :: "string \<Rightarrow> ('d, port_map option option) docker_request"
  dk_logs :: "string \<Rightarrow> 'd \<Rightarrow> (bollard_error + string) list \<times> 'd \<times> nat"
  dk_archive_info :: "string \<Rightarrow> string \<Rightarrow> ('d, path_stat) docker_request"
  dk_download :: "string \<Rightarrow> string \<Rightarrow> 'd \<Rightarrow> (bollard_error + string) list \<times> 'd \<times> nat"
  dk_remove_container :: "string \<Rightarrow> ('d, unit) docker_request"
  dk_remove_network :: "string \<Rightarrow> ('d, unit) docker_request"
  dk_abandoned :: "'d \<Rightarrow> 'd \<Rightarrow> 'd"

definition is_not_found :: "bollard_error \<Rightarrow> bool" where
  "is_not_found e \<longleftrightarrow> be_status_code e = Some 404"

definition docker_error :: "string \<Rightarrow> bollard_error \<Rightarrow> engine_error" where
  "docker_error operation e = EngineError_new operation (ForeignSource (be_text e) (be_causes e))"

definition docker_call :: "string \<Rightarrow> ('d, 'a) docker_request \<Rightarrow> ('d, 'a) engine_request" where
  "docker_call operation q d =
     (let (r, d', t) = q d in (map_err (docker_error operation) r, d', t))"

section \<open>Images, bodies and ports\<close>

definition image_descriptor :: "container_spec \<Rightarrow> string" where
  "image_descriptor spec = ci_name (cs_image spec) @ '':'' @ reference_suffix (cs_image spec)"

definition tcp_port :: "u16 \<Rightarrow> string" where
  "tcp_port port = show_port port @ ''/tcp''"

definition container_body :: "container_spec \<Rightarrow> labels \<Rightarrow> container_create_body" where
  "container_body spec labels =
     (let exposed_ports = map tcp_port (cs_exposed_ports spec)
      in \<lparr>cb_image = image_descriptor spec,
          cb_entrypoint = map_option (\<lambda>e. [e]) (cs_entrypoint spec),
          cb_cmd = cs_command spec, cb_labels = labels, cb_exposed_ports = exposed_ports,
          cb_network_mode = cs_network spec,
          cb_port_bindings = map (\<lambda>port. (port,
            Some [\<lparr>pb_host_ip = Some ''127.0.0.1'', pb_host_port = None\<rparr>])) exposed_ports\<rparr>)"

definition first_host_port :: "port_map option option \<Rightarrow> string \<Rightarrow> u16 option" where
  "first_host_port settings key =
     Option.bind settings (\<lambda>ports. Option.bind ports (\<lambda>ports. Option.bind (ports key) (\<lambda>bindings.
     Option.bind bindings (\<lambda>bindings. Option.bind (case bindings of [] \<Rightarrow> None | b # _ \<Rightarrow> Some b)
     (\<lambda>binding. Option.bind (pb_host_port binding) (\<lambda>port. Option.bind (parse_u16 port) (\<lambda>port.
       if port \<noteq> 0 then Some port else None)))))))"

definition bollard_mapped_port :: "'d docker \<Rightarrow> string \<Rightarrow> u16 \<Rightarrow> ('d, u16) engine_request" where
  "bollard_mapped_port docker i container_port d =
     (let (inspected, d', t) = docker_call ''inspect container ports'' (dk_inspect_container docker i) d
      in (and_then inspected (\<lambda>settings. ok_or (first_host_port settings (tcp_port container_port))
            (EngineError_new ''inspect container ports'' (IoSource IoNotFound
               (''container has no mapped '' @ show_port container_port @ ''/tcp port'')))), d', t))"

text \<open>\<open>while let\<close> over the progress of a pull: its first error ends it.\<close>

fun first_error :: "(bollard_error + unit) list \<Rightarrow> bollard_error + unit" where
  "first_error [] = Ok ()"
| "first_error (Err e # rest) = Err e"
| "first_error (Ok _ # rest) = first_error rest"

definition bollard_ensure_image :: "'d docker \<Rightarrow> container_spec \<Rightarrow> ('d, unit) engine_request" where
  "bollard_ensure_image docker spec d =
     (let descriptor = image_descriptor spec;
          (inspected, d1, t1) = dk_inspect_image docker descriptor d
      in case inspected of
           Ok _ \<Rightarrow> (Ok (), d1, t1)
         | Err e \<Rightarrow>
             if is_not_found e
             then (let (progress, d2, t2) = dk_create_image docker descriptor d1
                   in (map_err (docker_error ''pull image'') (first_error progress), d2, t1 + t2))
             else (Err (docker_error ''inspect image'' e), d1, t1))"

section \<open>Log samples\<close>

definition MAX_LOG_SAMPLE_BYTES :: nat where
  "MAX_LOG_SAMPLE_BYTES = 64 * 1024"

definition MAX_LOG_SAMPLE_CHUNKS :: nat where
  "MAX_LOG_SAMPLE_CHUNKS = 1024"

definition LF :: char where
  "LF = CHR 0x0A"

text \<open>The loop over the chunks: what was read, and whether the stream had ended.\<close>

fun collect_chunks ::
  "nat \<Rightarrow> string \<Rightarrow> (engine_error + string) list \<Rightarrow> engine_error + string \<times> bool"
where
  "collect_chunks 0 bytes chunks = Ok (bytes, False)"
| "collect_chunks (Suc n) bytes [] = Ok (bytes, True)"
| "collect_chunks (Suc n) bytes (Err e # chunks) = Err e"
| "collect_chunks (Suc n) bytes (Ok chunk # chunks) =
     (let remaining = MAX_LOG_SAMPLE_BYTES - length bytes;
          bytes = bytes @ take (min (length chunk) remaining) chunk
      in if length bytes = MAX_LOG_SAMPLE_BYTES then Ok (bytes, False)
         else collect_chunks n bytes chunks)"

text \<open>\<open>truncate\<close> after the last line feed.\<close>

definition whole_lines :: "string \<Rightarrow> string" where
  "whole_lines bytes = rev (dropWhile (\<lambda>c. c \<noteq> LF) (rev bytes))"

definition LOG_TRUNCATED :: string where
  "LOG_TRUNCATED = LF # ''[TRUNCATED: initial log sample only; later logs were not collected]''"

definition collect_log_sample :: "(engine_error + string) list \<Rightarrow> engine_error + string" where
  "collect_log_sample stream =
     and_then (collect_chunks MAX_LOG_SAMPLE_CHUNKS [] stream) (\<lambda>(bytes, ended).
       Ok (if ended then redacted_tail (from_utf8_lossy bytes)
           else redacted_tail (from_utf8_lossy (whole_lines bytes)) @ LOG_TRUNCATED))"

definition bollard_logs :: "'d docker \<Rightarrow> string \<Rightarrow> ('d, string) engine_request" where
  "bollard_logs docker i d =
     (let (stream, d', t) = dk_logs docker i d
      in (collect_log_sample (map (map_err (docker_error ''read container logs'')) stream), d', t))"

section \<open>Reading a file\<close>

definition TAR_ARCHIVE_OVERHEAD_BYTES :: nat where
  "TAR_ARCHIVE_OVERHEAD_BYTES = 64 * 1024"

definition TAR_BLOCK_BYTES :: nat where
  "TAR_BLOCK_BYTES = 512"

definition TAR_END_BLOCKS :: nat where
  "TAR_END_BLOCKS = 2"

definition DOCKER_FILE_MODE_TYPE_MASK :: u32 where
  "DOCKER_FILE_MODE_TYPE_MASK = 0x8f280000"

definition USIZE_MAX :: nat where
  "USIZE_MAX = 2 ^ 64 - 1"

definition usize_checked_add :: "nat \<Rightarrow> nat \<Rightarrow> nat option" where
  "usize_checked_add a b = (if a + b \<le> USIZE_MAX then Some (a + b) else None)"

definition usize_checked_mul :: "nat \<Rightarrow> nat \<Rightarrow> nat option" where
  "usize_checked_mul a b = (if a * b \<le> USIZE_MAX then Some (a * b) else None)"

text \<open>Errors are \<open>io::Error\<close>s.\<close>

definition invalid_archive :: "string \<Rightarrow> engine_source" where
  "invalid_archive message = IoSource IoInvalidData message"

definition read_file_error :: "string \<Rightarrow> engine_error" where
  "read_file_error message = EngineError_new ''read container file'' (invalid_archive message)"

definition sanitized_read_file_api_error :: "bollard_error \<Rightarrow> engine_error" where
  "sanitized_read_file_api_error e =
     (if is_not_found e
      then EngineError_new ''read container file''
             (IoSource IoNotFound ''container file is not available yet'')
      else read_file_error ''container file archive request failed'')"

definition append_archive_chunk :: "string \<Rightarrow> string \<Rightarrow> nat \<Rightarrow> engine_source + string" where
  "append_archive_chunk archive chunk maximum_bytes =
     (let remaining = maximum_bytes - length archive in
      if maximum_bytes < length archive \<or> remaining < length chunk
      then Err (IoSource IoInvalidData ''container file archive exceeds its bounded overhead'')
      else Ok (archive @ chunk))"

fun last_component :: "string list \<Rightarrow> string option \<Rightarrow> engine_source + string option" where
  "last_component [] basename = Ok basename"
| "last_component (component # rest) basename =
     (if component = [] \<or> component = ''.'' \<or> component = ''..''
      then Err (invalid_archive ''container file path is not canonical'')
      else last_component rest (Some component))"

definition expected_archive_basename :: "string \<Rightarrow> engine_source + string" where
  "expected_archive_basename path =
     (case strip_prefix_of ''/'' path of
        None \<Rightarrow> Err (invalid_archive ''container file path is not canonical'')
      | Some relative \<Rightarrow>
          if relative = [] \<or> CHR 0x5C \<in> set path \<or> CHR 0x00 \<in> set path
          then Err (invalid_archive ''container file path is not canonical'')
          else and_then (last_component (split_on (CHR ''/'') relative) None) (\<lambda>basename.
                 ok_or basename (invalid_archive ''container file path is not canonical'')))"

definition validate_container_file_stat :: "path_stat \<Rightarrow> string \<Rightarrow> nat \<Rightarrow> engine_source + nat" where
  "validate_container_file_stat stat expected_basename max_bytes =
     (if ps_name stat \<noteq> expected_basename
      then Err (invalid_archive ''container file metadata name is invalid'')
      else if ps_link_target stat \<noteq> [] \<or> and (ps_file_mode stat) DOCKER_FILE_MODE_TYPE_MASK \<noteq> 0
      then Err (invalid_archive ''container file metadata is not a regular file'')
      else if ps_size stat < 0 \<or> int USIZE_MAX < ps_size stat
      then Err (invalid_archive ''container file metadata size is invalid'')
      else if max_bytes < nat (ps_size stat)
      then Err (invalid_archive ''container file exceeds requested byte limit'')
      else Ok (nat (ps_size stat)))"

definition validate_strict_tar_framing :: "string \<Rightarrow> nat \<Rightarrow> engine_source + unit" where
  "validate_strict_tar_framing archive_bytes file_size =
     and_then (ok_or (map_option (\<lambda>size. size div TAR_BLOCK_BYTES * TAR_BLOCK_BYTES)
                 (usize_checked_add file_size (TAR_BLOCK_BYTES - 1)))
        (invalid_archive ''container file archive size is invalid'')) (\<lambda>padded_file_size.
     and_then (ok_or (usize_checked_add TAR_BLOCK_BYTES file_size)
        (invalid_archive ''container file archive size is invalid'')) (\<lambda>content_end.
     and_then (ok_or (usize_checked_add TAR_BLOCK_BYTES padded_file_size)
        (invalid_archive ''container file archive size is invalid'')) (\<lambda>padding_end.
     and_then (ok_or (Option.bind (usize_checked_mul TAR_BLOCK_BYTES TAR_END_BLOCKS)
                 (usize_checked_add padding_end))
        (invalid_archive ''container file archive size is invalid'')) (\<lambda>termination_end.
       if length archive_bytes < termination_end \<or> length archive_bytes mod TAR_BLOCK_BYTES \<noteq> 0
       then Err (invalid_archive ''container file archive framing is truncated'')
       else if \<not> list_all (\<lambda>c. c = CHR 0x00)
                 (take (padding_end - content_end) (drop content_end archive_bytes))
       then Err (invalid_archive ''container file archive padding is invalid'')
       else if \<not> list_all (\<lambda>c. c = CHR 0x00) (drop padding_end archive_bytes)
       then Err (invalid_archive ''container file archive termination is invalid'')
       else Ok ()))))"

text \<open>
  What the tar crate makes of the bytes: no iterator, or its raw entries. The content of an entry
  is read to a limit, and reading it may fail.
\<close>

record tar_entry =
  te_is_file :: bool
  te_path :: string
  te_size :: "nat option"
  te_content :: "nat \<Rightarrow> string option"

type_synonym tar_reader = "string \<Rightarrow> (unit + tar_entry) list option"

text \<open>
  The layout of a tar archive, as far as the reader relies on it: the content of the first entry is
  what follows its header block, as far as its declared size goes.
\<close>

definition tar_reads_contents :: "tar_reader \<Rightarrow> bool" where
  "tar_reads_contents tar \<longleftrightarrow>
     (\<forall>bytes entry rest n limit. tar bytes = Some (Ok entry # rest) \<longrightarrow> te_size entry = Some n \<longrightarrow>
        te_content entry limit = Some (take limit (take n (drop 512 bytes))))"

definition read_first_entry :: "tar_entry \<Rightarrow> string \<Rightarrow> nat \<Rightarrow> engine_source + string" where
  "read_first_entry entry expected_basename expected_size =
     (if \<not> te_is_file entry
      then Err (invalid_archive ''container file archive entry is not a regular file'')
      else if te_path entry \<noteq> expected_basename
      then Err (invalid_archive ''container file archive entry name is invalid'')
      else and_then (ok_or (te_size entry) (invalid_archive ''container file archive size is invalid''))
        (\<lambda>declared_size.
           if declared_size \<noteq> expected_size
           then Err (invalid_archive ''container file archive size does not match metadata'')
           else and_then (ok_or (te_content entry (expected_size + 1))
                  (invalid_archive ''container file archive content is invalid'')) (\<lambda>contents.
                  if length contents \<noteq> expected_size
                  then Err (invalid_archive ''container file archive content is truncated'')
                  else Ok contents)))"

fun no_more_entries :: "(unit + tar_entry) list \<Rightarrow> string \<Rightarrow> engine_source + string" where
  "no_more_entries [] contents = Ok contents"
| "no_more_entries (Ok _ # _) contents =
     Err (invalid_archive ''container file archive contains multiple entries'')"
| "no_more_entries (Err _ # _) contents =
     Err (invalid_archive ''container file archive entry is invalid'')"

fun read_only_entry :: "(unit + tar_entry) list \<Rightarrow> string \<Rightarrow> nat \<Rightarrow> engine_source + string" where
  "read_only_entry [] expected_basename expected_size =
     Err (invalid_archive ''container file archive is empty'')"
| "read_only_entry (Err _ # rest) expected_basename expected_size =
     Err (invalid_archive ''container file archive entry is invalid'')"
| "read_only_entry (Ok first # rest) expected_basename expected_size =
     and_then (read_first_entry first expected_basename expected_size) (no_more_entries rest)"

definition decode_single_file_archive ::
  "tar_reader \<Rightarrow> string \<Rightarrow> string \<Rightarrow> nat \<Rightarrow> nat \<Rightarrow> engine_source + string"
where
  "decode_single_file_archive tar archive_bytes expected_basename expected_size max_bytes =
     (if max_bytes < expected_size
      then Err (invalid_archive ''container file exceeds requested byte limit'')
      else and_then (validate_strict_tar_framing archive_bytes expected_size) (\<lambda>_.
        and_then (ok_or (tar archive_bytes) (invalid_archive ''container file archive is invalid''))
          (\<lambda>entries. read_only_entry entries expected_basename expected_size)))"

fun download_archive ::
  "(bollard_error + string) list \<Rightarrow> string \<Rightarrow> nat \<Rightarrow> engine_error + string"
where
  "download_archive [] archive limit = Ok archive"
| "download_archive (Err e # rest) archive limit = Err (sanitized_read_file_api_error e)"
| "download_archive (Ok chunk # rest) archive limit =
     and_then (map_err (EngineError_new ''read container file'') (append_archive_chunk archive chunk limit))
       (\<lambda>archive. download_archive rest archive limit)"

definition bollard_read_container_file ::
  "tar_reader \<Rightarrow> 'd docker \<Rightarrow> string \<Rightarrow> string \<Rightarrow> nat \<Rightarrow> ('d, string) engine_request"
where
  "bollard_read_container_file tar docker i path max_bytes d =
     (case map_err (EngineError_new ''read container file'') (expected_archive_basename path) of
        Err e \<Rightarrow> (Err e, d, 0)
      | Ok expected_basename \<Rightarrow>
          (let (stat, d1, t1) = dk_archive_info docker i path d
           in case and_then (map_err sanitized_read_file_api_error stat) (\<lambda>stat.
                     and_then (map_err (EngineError_new ''read container file'')
                         (validate_container_file_stat stat expected_basename max_bytes)) (\<lambda>expected_size.
                     and_then (ok_or (usize_checked_add max_bytes TAR_ARCHIVE_OVERHEAD_BYTES)
                         (read_file_error ''container file byte limit is too large'')) (\<lambda>archive_limit.
                       Ok (expected_size, archive_limit)))) of
                Err e \<Rightarrow> (Err e, d1, t1)
              | Ok (expected_size, archive_limit) \<Rightarrow>
                  (let (stream, d2, t2) = dk_download docker i path d1
                   in (and_then (download_archive stream [] archive_limit) (\<lambda>archive.
                         map_err (EngineError_new ''read container file'')
                           (decode_single_file_archive tar archive expected_basename expected_size
                              max_bytes)), d2, t1 + t2))))"

section \<open>The engine\<close>

definition removed :: "string \<Rightarrow> bollard_error + unit \<Rightarrow> engine_error + unit" where
  "removed operation r =
     (case r of Ok _ \<Rightarrow> Ok ()
      | Err e \<Rightarrow> if is_not_found e then Ok () else Err (docker_error operation e))"

definition bollard_remove_container :: "'d docker \<Rightarrow> string \<Rightarrow> ('d, unit) engine_request" where
  "bollard_remove_container docker id_or_name d =
     (let (r, d', t) = dk_remove_container docker id_or_name d in (removed ''remove container'' r, d', t))"

definition bollard_remove_network :: "'d docker \<Rightarrow> string \<Rightarrow> ('d, unit) engine_request" where
  "bollard_remove_network docker id_or_name d =
     (let (r, d', t) = dk_remove_network docker id_or_name d in (removed ''remove network'' r, d', t))"

definition BollardEngine :: "tar_reader \<Rightarrow> 'd docker \<Rightarrow> string \<Rightarrow> 'd container_engine" where
  "BollardEngine tar docker host =
     \<lparr>ce_endpoint_host = host,
      ce_create_network = (\<lambda>name labels. docker_call ''create network'' (dk_create_network docker name labels)),
      ce_ensure_image = bollard_ensure_image docker,
      ce_create_container = (\<lambda>spec labels. docker_call ''create container''
        (dk_create_container docker (cs_name spec) (container_body spec labels))),
      ce_start_container = (\<lambda>i. docker_call ''start container'' (dk_start_container docker i)),
      ce_mapped_port = bollard_mapped_port docker,
      ce_logs = bollard_logs docker,
      ce_read_container_file = bollard_read_container_file tar docker,
      ce_remove_container = bollard_remove_container docker,
      ce_remove_network = bollard_remove_network docker,
      ce_abandoned = dk_abandoned docker\<rparr>"

text \<open>The url crate's view of \<open>DOCKER_HOST\<close>.\<close>

datatype url_host = UrlDomain string | UrlIpv4 ipv4_addr | UrlIpv6 ipv6_addr

record docker_url =
  du_scheme :: string
  du_host :: "url_host option"
  du_host_str :: "string option"

definition is_loopback_v4 :: "ipv4_addr \<Rightarrow> bool" where
  "is_loopback_v4 a \<longleftrightarrow> take 1 a = [127]"

definition is_loopback_v6 :: "ipv6_addr \<Rightarrow> bool" where
  "is_loopback_v6 a \<longleftrightarrow> a = [0, 0, 0, 0, 0, 0, 0, 1]"

definition parses_as_loopback :: "string \<Rightarrow> bool" where
  "parses_as_loopback host =
     (case parse_ipv4 host of
        Some a \<Rightarrow> is_loopback_v4 a
      | None \<Rightarrow> (case parse_ipv6 host of Some a \<Rightarrow> is_loopback_v6 a | None \<Rightarrow> False))"

fun host_is_loopback :: "url_host \<Rightarrow> bool" where
  "host_is_loopback (UrlDomain host) \<longleftrightarrow> host = ''localhost'' \<or> parses_as_loopback host"
| "host_is_loopback (UrlIpv4 a) \<longleftrightarrow> is_loopback_v4 a"
| "host_is_loopback (UrlIpv6 a) \<longleftrightarrow> is_loopback_v6 a"

definition endpoint_host :: "(string \<Rightarrow> docker_url option) \<Rightarrow> string option \<Rightarrow> engine_error + string" where
  "endpoint_host parse_url configured_host =
     (let supported = (case configured_host of
            None \<Rightarrow> True
          | Some host \<Rightarrow> (case parse_url host of
              None \<Rightarrow> False
            | Some url \<Rightarrow>
                if du_scheme url = ''unix'' then du_host_str url = None
                else if du_scheme url = ''npipe''
                then du_host_str url = None \<or> du_host_str url = Some ''.''
                else if du_scheme url = ''tcp'' \<or> du_scheme url = ''http'' \<or> du_scheme url = ''https''
                then (case du_host url of None \<Rightarrow> False | Some h \<Rightarrow> host_is_loopback h)
                else False))
      in if \<not> supported
         then Err (EngineError_new ''connect to container engine'' (IoSource IoInvalidInput
           ''unsupported Docker endpoint: fixtures require a local socket or loopback daemon because service ports bind to 127.0.0.1''))
         else Ok ''127.0.0.1'')"

text \<open>\<open>connect\<close>, with the outcomes of opening the client and of its ping.\<close>

definition BollardEngine_connect ::
  "(string \<Rightarrow> docker_url option) \<Rightarrow> tar_reader \<Rightarrow> string option \<Rightarrow> bollard_error + 'd docker
     \<Rightarrow> bollard_error + unit \<Rightarrow> engine_error + 'd container_engine"
where
  "BollardEngine_connect parse_url tar docker_host opened ping =
     and_then (endpoint_host parse_url docker_host) (\<lambda>host.
     and_then (map_err (docker_error ''connect to container engine'') opened) (\<lambda>docker.
     and_then (map_err (docker_error ''ping container engine'') ping) (\<lambda>_.
       Ok (BollardEngine tar docker host))))"

section \<open>Facts about samples and archives\<close>

text \<open>What was collected is the log's beginning, all of it exactly when the stream ended.\<close>

lemma collect_chunks_prefix:
  assumes "collect_chunks n bytes chunks = Ok (sample, ended)" and "length bytes \<le> MAX_LOG_SAMPLE_BYTES"
  shows "length sample \<le> MAX_LOG_SAMPLE_BYTES
    \<and> (\<exists>received. map Ok received = take (length received) chunks \<and> prefix sample (bytes @ concat received)
         \<and> (ended \<longrightarrow> sample = bytes @ concat received \<and> length received = length chunks))"
  using assms
proof (induction n bytes chunks rule: collect_chunks.induct)
  case (4 n bytes chunk chunks)
  let ?bytes = "bytes @ take (min (length chunk) (MAX_LOG_SAMPLE_BYTES - length bytes)) chunk"
  have part: "prefix ?bytes (bytes @ chunk)"
    by (simp add: take_is_prefix)
  show ?case
  proof (cases "length ?bytes = MAX_LOG_SAMPLE_BYTES")
    case True
    then have "sample = ?bytes" "\<not> ended"
      using "4.prems"(1) by (auto simp: Let_def)
    then show ?thesis
      using True part by (intro conjI exI [of _ "[chunk]"]) simp_all
  next
    case False
    have fits: "length ?bytes \<le> MAX_LOG_SAMPLE_BYTES"
      using "4.prems"(2) by simp
    then have "?bytes = bytes @ chunk"
      using False by (simp split: nat_diff_split)
    moreover have "collect_chunks n ?bytes chunks = Ok (sample, ended)"
      using "4.prems"(1) False by (simp add: Let_def)
    ultimately obtain received where "length sample \<le> MAX_LOG_SAMPLE_BYTES"
      "map Ok received = take (length received) chunks" "prefix sample (bytes @ chunk @ concat received)"
      "ended \<longrightarrow> sample = bytes @ chunk @ concat received \<and> length received = length chunks"
      using "4.IH" [OF refl refl] False fits by (auto simp: Let_def)
    then show ?thesis
      by (intro conjI exI [of _ "chunk # received"]) simp_all
  qed
qed (auto intro: exI [of _ "[]"])

lemma whole_lines_prefix: "prefix (whole_lines s) s \<and> (whole_lines s = [] \<or> last (whole_lines s) = LF)"
proof -
  have "s = whole_lines s @ rev (takeWhile (\<lambda>c. c \<noteq> LF) (rev s))"
    unfolding whole_lines_def by (metis rev_append rev_rev_ident takeWhile_dropWhile_id)
  then have "prefix (whole_lines s) s"
    by (metis prefixI)
  moreover have "last (whole_lines s) = LF" if "whole_lines s \<noteq> []"
    using hd_dropWhile [of "\<lambda>c. c \<noteq> LF" "rev s"] that by (auto simp: whole_lines_def last_rev)
  ultimately show ?thesis
    by blast
qed

text \<open>A credential has no line feed, so none crosses from the redacted sample into the notice.\<close>

lemma log_notice_credential_free:
  assumes "credential_free s"
  shows "credential_free (s @ LOG_TRUNCATED)"
proof -
  have marks: "\<forall>a \<in> set fixture_credentials. a \<noteq> [] \<and> LF \<notin> set a"
    by code_simp
  have notice: "\<forall>a \<in> set fixture_credentials. \<not> sublist a LOG_TRUNCATED"
    by code_simp
  have "\<not> sublist a (s @ LOG_TRUNCATED)" if a: "a \<in> set fixture_credentials" for a
  proof
    assume "sublist a (s @ LOG_TRUNCATED)"
    moreover have "\<not> sublist a s"
      using assms a by (simp add: credential_free_def list_all_iff)
    ultimately obtain p q where split: "a = p @ q" "suffix p s" "prefix q LOG_TRUNCATED"
      using notice a by (auto simp: sublist_append)
    then have "q = []"
      using marks a by (cases q) (auto simp: LOG_TRUNCATED_def)
    then show False
      using split \<open>\<not> sublist a s\<close> by (simp add: suffix_imp_sublist)
  qed
  then show ?thesis
    by (simp add: credential_free_def list_all_iff)
qed

text \<open>Strict framing: one header block, the file, and nothing but zeros up to the end.\<close>

lemma strict_tar_framing:
  assumes "validate_strict_tar_framing archive n = Ok ()"
  shows "\<exists>header contents k. archive = header @ contents @ replicate k (CHR 0x00)
    \<and> length header = 512 \<and> length contents = n \<and> 1024 \<le> k \<and> length archive mod 512 = 0"
proof -
  let ?padded = "(n + 511) div 512 * 512"
  have bounds: "512 + ?padded + 1024 \<le> length archive" "length archive mod 512 = 0"
    and padding: "list_all (\<lambda>c. c = CHR 0x00) (take (512 + ?padded - (512 + n)) (drop (512 + n) archive))"
    and ending: "list_all (\<lambda>c. c = CHR 0x00) (drop (512 + ?padded) archive)"
    using assms
    by (auto simp: validate_strict_tar_framing_def result_simps TAR_BLOCK_BYTES_def TAR_END_BLOCKS_def
        usize_checked_add_def usize_checked_mul_def split: if_splits)
  have padded: "n \<le> ?padded"
    using div_mult_mod_eq [of "n + 511" 512] mod_less_divisor [of 512 "n + 511"] by linarith
  let ?rest = "drop (512 + n) archive"
  have "drop (512 + ?padded) archive = drop (?padded - n) ?rest"
    using padded by (simp add: add.commute)
  then have "list_all (\<lambda>c. c = CHR 0x00) (take (?padded - n) ?rest @ drop (?padded - n) ?rest)"
    using padding ending by simp
  then have "list_all (\<lambda>c. c = CHR 0x00) ?rest"
    by (simp only: append_take_drop_id)
  then have zeros: "?rest = replicate (length ?rest) (CHR 0x00)"
    by (simp add: list_all_iff replicate_eqI)
  have "drop n (drop 512 archive) = ?rest"
    by (simp add: add.commute)
  then have "archive = take 512 archive @ take n (drop 512 archive) @ ?rest"
    by (metis append_take_drop_id)
  then show ?thesis
    using zeros bounds padded
    by (intro exI [of _ "take 512 archive"] exI [of _ "take n (drop 512 archive)"]
        exI [of _ "length ?rest"]) auto
qed

lemma no_more_entries_Ok: "no_more_entries rest c = Ok contents \<longleftrightarrow> rest = [] \<and> c = contents"
  by (cases "(rest, c)" rule: no_more_entries.cases) auto

lemma read_only_entry_Ok:
  "read_only_entry entries name n = Ok contents \<longleftrightarrow>
     (\<exists>entry. entries = [Ok entry] \<and> read_first_entry entry name n = Ok contents)"
  by (cases "(entries, name, n)" rule: read_only_entry.cases)
    (auto simp: result_simps no_more_entries_Ok)

lemma decode_single_file_archive_Ok:
  "decode_single_file_archive tar bytes name n max_bytes = Ok contents \<Longrightarrow>
     \<exists>entry. tar bytes = Some [Ok entry] \<and> read_first_entry entry name n = Ok contents
       \<and> validate_strict_tar_framing bytes n = Ok ()"
  by (auto simp: decode_single_file_archive_def result_simps read_only_entry_Ok)

lemma download_archive_Ok:
  "download_archive stream archive limit = Ok bytes \<Longrightarrow>
     \<exists>chunks. stream = map Ok chunks \<and> bytes = archive @ concat chunks
       \<and> (length archive \<le> limit \<longrightarrow> length bytes \<le> limit)"
proof (induction stream archive limit rule: download_archive.induct)
  case (3 chunk rest archive limit)
  then obtain chunks where "rest = map Ok chunks" "bytes = (archive @ chunk) @ concat chunks"
    "length (archive @ chunk) \<le> limit \<longrightarrow> length bytes \<le> limit" "length (archive @ chunk) \<le> limit"
    by (auto simp: result_simps append_archive_chunk_def split: if_splits)
  then show ?case
    by (intro exI [of _ "chunk # chunks"]) auto
qed auto

lemma last_component_Ok:
  "last_component comps b = Ok (Some c) \<Longrightarrow> comps \<noteq> [] \<Longrightarrow>
     c = last comps \<and> list_all (\<lambda>x. x \<noteq> [] \<and> x \<noteq> ''.'' \<and> x \<noteq> ''..'') comps"
  by (induction comps b rule: last_component.induct) (auto split: if_splits)

section \<open>What Docker promises\<close>

text \<open>
  The documented behaviour of the daemon's API that cleanup relies on: creations give identifiers
  that are unique, a removal that answers has removed what the reference names, and 404 says that
  the reference names nothing. Nothing is said of a failed creation but that it created the
  resource or did not.
\<close>

locale docker_daemon =
  fixes docker :: "'d docker"
    and held :: "'d \<Rightarrow> held set"
  assumes network_Ok: "dk_create_network docker n ls d = (Ok i, d', t) \<Longrightarrow>
      held d' = insert (HeldNetwork i n) (held d) \<and> (\<forall>h \<in> held d. \<not> addresses i h)"
    and network_Err: "dk_create_network docker n ls d = (Err e, d', t) \<Longrightarrow>
      held d' = held d \<or> (\<exists>i. held d' = insert (HeldNetwork i n) (held d))"
    and container_Ok: "dk_create_container docker n body d = (Ok i, d', t) \<Longrightarrow>
      held d' = insert (HeldContainer i n) (held d) \<and> (\<forall>h \<in> held d. \<not> addresses i h)"
    and container_Err: "dk_create_container docker n body d = (Err e, d', t) \<Longrightarrow>
      held d' = held d \<or> (\<exists>i. held d' = insert (HeldContainer i n) (held d))"
    and inspect_image_keeps: "dk_inspect_image docker n d = (ru, d', t) \<Longrightarrow> held d' = held d"
    and pull_keeps: "dk_create_image docker n d = (rl, d', t) \<Longrightarrow> held d' = held d"
    and start_keeps: "dk_start_container docker i d = (ru, d', t) \<Longrightarrow> held d' = held d"
    and inspect_keeps: "dk_inspect_container docker i d = (rp, d', t) \<Longrightarrow> held d' = held d"
    and logs_keeps: "dk_logs docker i d = (rs, d', t) \<Longrightarrow> held d' = held d"
    and stat_keeps: "dk_archive_info docker i path d = (rt, d', t) \<Longrightarrow> held d' = held d"
    and download_keeps: "dk_download docker i path d = (rs, d', t) \<Longrightarrow> held d' = held d"
    and abandoned_keeps: "held d' = held d \<Longrightarrow> held (dk_abandoned docker d d') = held d"
    and remove_container_gone: "dk_remove_container docker key d = (ru, d', t) \<Longrightarrow>
      ru = Ok () \<or> ru = Err e \<and> is_not_found e \<Longrightarrow> h \<in> held d' \<Longrightarrow> is_container h \<Longrightarrow>
      h_id h \<noteq> key \<and> h_name h \<noteq> key"
    and remove_network_gone: "dk_remove_network docker key d = (ru, d', t) \<Longrightarrow>
      ru = Ok () \<or> ru = Err e \<and> is_not_found e \<Longrightarrow> h \<in> held d' \<Longrightarrow> \<not> is_container h \<Longrightarrow>
      h_id h \<noteq> key \<and> h_name h \<noteq> key"
    and remove_container_others: "dk_remove_container docker key d = (ru, d', t) \<Longrightarrow>
      held d' \<subseteq> held d \<and> (\<forall>h \<in> held d. \<not> addresses key h \<longrightarrow> h \<in> held d')"
    and remove_network_others: "dk_remove_network docker key d = (ru, d', t) \<Longrightarrow>
      held d' \<subseteq> held d \<and> (\<forall>h \<in> held d. \<not> addresses key h \<longrightarrow> h \<in> held d')"

lemma docker_call_eq:
  "docker_call operation q d = (r, d', t) \<longleftrightarrow>
     (\<exists>r0. q d = (r0, d', t) \<and> map_err (docker_error operation) r0 = r)"
  by (auto simp: docker_call_def split: prod.splits)

lemma removed_Ok: "removed operation r = Ok () \<longleftrightarrow> r = Ok () \<or> (\<exists>e. r = Err e \<and> is_not_found e)"
  by (auto simp: removed_def split: sum.splits)

sublocale docker_daemon \<subseteq> bollard: owning_engine "BollardEngine tar docker host" held for tar host
proof unfold_locales
  fix ls m d i d' t
  assume "creation (BollardEngine tar docker host) ls m d = (Ok i, d', t)"
  then show "held d' = insert (held_as m i) (held d) \<and> (\<forall>h \<in> held d. \<not> addresses i h)"
    using network_Ok container_Ok
    by (cases m) (auto simp: BollardEngine_def docker_call_eq result_simps)
next
  fix ls m d e d' t
  assume "creation (BollardEngine tar docker host) ls m d = (Err e, d', t)"
  then show "held d' = held d \<or> (\<exists>i. held d' = insert (held_as m i) (held d))"
    by (cases m) (auto simp: BollardEngine_def docker_call_eq result_simps
        dest!: network_Err container_Err)
next
  fix spec d ru d' t
  assume "ce_ensure_image (BollardEngine tar docker host) spec d = (ru, d', t)"
  then show "held d' = held d"
    using inspect_image_keeps pull_keeps
    by (auto simp: BollardEngine_def bollard_ensure_image_def Let_def
        split: prod.splits sum.splits if_splits)
next
  fix i d ru d' t
  assume "ce_start_container (BollardEngine tar docker host) i d = (ru, d', t)"
  then show "held d' = held d"
    using start_keeps by (auto simp: BollardEngine_def docker_call_eq)
next
  fix i p d rp d' t
  assume "ce_mapped_port (BollardEngine tar docker host) i p d = (rp, d', t)"
  then show "held d' = held d"
    using inspect_keeps
    by (auto simp: BollardEngine_def bollard_mapped_port_def docker_call_def split: prod.splits)
next
  fix i d rs d' t
  assume "ce_logs (BollardEngine tar docker host) i d = (rs, d', t)"
  then show "held d' = held d"
    using logs_keeps by (auto simp: BollardEngine_def bollard_logs_def split: prod.splits)
next
  fix i path n d rs d' t
  assume "ce_read_container_file (BollardEngine tar docker host) i path n d = (rs, d', t)"
  then show "held d' = held d"
    using stat_keeps download_keeps
    by (auto simp: BollardEngine_def bollard_read_container_file_def Let_def
        split: prod.splits sum.splits)
next
  fix d d'
  assume "held d' = held d"
  then show "held (ce_abandoned (BollardEngine tar docker host) d d') = held d"
    using abandoned_keeps by (simp add: BollardEngine_def)
next
  fix key d d' t h
  assume "ce_remove_container (BollardEngine tar docker host) key d = (Ok (), d', t)"
    and "h \<in> held d'" and "is_container h"
  then show "h_id h \<noteq> key \<and> h_name h \<noteq> key"
    using remove_container_gone [of key d _ d' t]
    by (simp add: BollardEngine_def bollard_remove_container_def split: prod.splits)
      (metis removed_Ok)
next
  fix key d d' t h
  assume "ce_remove_network (BollardEngine tar docker host) key d = (Ok (), d', t)"
    and "h \<in> held d'" and "\<not> is_container h"
  then show "h_id h \<noteq> key \<and> h_name h \<noteq> key"
    using remove_network_gone [of key d _ d' t]
    by (simp add: BollardEngine_def bollard_remove_network_def split: prod.splits)
      (metis removed_Ok)
next
  fix key d ru d' t
  assume "ce_remove_container (BollardEngine tar docker host) key d = (ru, d', t)"
  then show "held d' \<subseteq> held d \<and> (\<forall>h \<in> held d. \<not> addresses key h \<longrightarrow> h \<in> held d')"
    using remove_container_others
    by (auto simp: BollardEngine_def bollard_remove_container_def split: prod.splits)
next
  fix key d ru d' t
  assume "ce_remove_network (BollardEngine tar docker host) key d = (ru, d', t)"
  then show "held d' \<subseteq> held d \<and> (\<forall>h \<in> held d. \<not> addresses key h \<longrightarrow> h \<in> held d')"
    using remove_network_others
    by (auto simp: BollardEngine_def bollard_remove_network_def split: prod.splits)
qed

text \<open>A daemon that keeps a list of what it holds, and answers for every port it is asked about.\<close>

definition fresh_id :: "held list \<Rightarrow> string" where
  "fresh_id hs = replicate (Suc (sum_list (map (\<lambda>h. length (h_id h) + length (h_name h)) hs))) (CHR ''f'')"

definition example_remove :: "(held \<Rightarrow> bool) \<Rightarrow> string \<Rightarrow> held list \<Rightarrow> (bollard_error + unit) \<times> held list \<times> nat" where
  "example_remove kind key hs =
     (let named = (\<lambda>h. kind h \<and> (h_id h = key \<or> h_name h = key))
      in if filter named hs = []
         then (Err \<lparr>be_status_code = Some 404, be_text = ''no such resource'', be_causes = []\<rparr>, hs, 1)
         else (Ok (), filter (\<lambda>h. \<not> named h) hs, 1))"

definition example_docker :: "held list docker" where
  "example_docker =
     \<lparr>dk_create_network = (\<lambda>n ls hs. (Ok (fresh_id hs), HeldNetwork (fresh_id hs) n # hs, 1)),
      dk_inspect_image = (\<lambda>n hs. (Ok (), hs, 1)),
      dk_create_image = (\<lambda>n hs. ([], hs, 1)),
      dk_create_container = (\<lambda>n body hs. (Ok (fresh_id hs), HeldContainer (fresh_id hs) n # hs, 5)),
      dk_start_container = (\<lambda>i hs. (Ok (), hs, 1)),
      dk_inspect_container = (\<lambda>i hs. (Ok (Some (Some (\<lambda>key.
        Some (Some [\<lparr>pb_host_ip = None, pb_host_port = Some ''40000''\<rparr>])))), hs, 1)),
      dk_logs = (\<lambda>i hs. ([], hs, 1)),
      dk_archive_info = (\<lambda>i path hs.
        (Err \<lparr>be_status_code = Some 404, be_text = ''no such file'', be_causes = []\<rparr>, hs, 1)),
      dk_download = (\<lambda>i path hs. ([], hs, 1)),
      dk_remove_container = example_remove is_container,
      dk_remove_network = example_remove (\<lambda>h. \<not> is_container h),
      dk_abandoned = (\<lambda>d d'. d)\<rparr>"

lemma fresh_id_longer:
  "h \<in> set hs \<Longrightarrow> length (h_id h) < length (fresh_id hs) \<and> length (h_name h) < length (fresh_id hs)"
  by (induction hs) (auto simp: fresh_id_def)

lemma fresh_id_fresh: "h \<in> set hs \<Longrightarrow> \<not> addresses (fresh_id hs) h"
  using fresh_id_longer by (fastforce simp: addresses_def dest: prefix_length_le)

interpretation example: docker_daemon example_docker set
proof unfold_locales
qed (use fresh_id_fresh in \<open>auto simp: example_docker_def example_remove_def is_container_def Let_def
    filter_empty_conv addresses_def split: held.splits if_splits\<close>)

context docker_daemon
begin

text \<open>A supervisor that starts with nothing of its own owns all it adds.\<close>

lemma owning_initially:
  "rt_ledger s = [] \<Longrightarrow> rt_mutations s = [] \<Longrightarrow> \<forall>n \<in> names. \<forall>h \<in> held (rt_daemon s). \<not> addresses n h \<Longrightarrow>
     owning held (held (rt_daemon s)) names s"
  by (simp add: owning_def owned_def safe_key_def)

lemma leaves_nothing:
  assumes "rt_ledger s = []" and "rt_mutations s = []"
    and "\<forall>n \<in> names. \<forall>h \<in> held (rt_daemon s). \<not> addresses n h"
    and "startup_run (BollardEngine tar docker host) names s left s1"
    and "cleanup (BollardEngine tar docker host) s1 = (r, s2)"
  shows "held (rt_daemon s) \<subseteq> held (rt_daemon s2)
    \<and> (r = Ok () \<longrightarrow> held (rt_daemon s2) = held (rt_daemon s))"
  using bollard.cleanup_effect [OF bollard.startup_run_owned [OF assms(4) owning_initially [OF assms(1-3)]] assms(5)]
  by blast

end

section \<open>Properties\<close>

text \<open>
  C30: whatever a composite starts, in whatever order, alone or in pairs, and wherever a deadline or
  a cancellation cuts it short, even between a creation and its answer: a cleanup that succeeds
  leaves the daemon holding exactly what it held before, and one that fails still removes nothing
  that was there.
\<close>

theorem cleanup_leaves_nothing:
  assumes "docker_daemon docker held"
    and "rt_ledger s = []" and "rt_mutations s = []"
    and "\<forall>n \<in> names. \<forall>h \<in> held (rt_daemon s). \<not> addresses n h"
    and "startup_run (BollardEngine tar docker host) names s left s1"
    and "cleanup (BollardEngine tar docker host) s1 = (r, s2)"
  shows "held (rt_daemon s) \<subseteq> held (rt_daemon s2)
    \<and> (r = Ok () \<longrightarrow> held (rt_daemon s2) = held (rt_daemon s))"
  using docker_daemon.leaves_nothing [OF assms] .

text \<open>
  A run on the daemon above: a network, then a container whose creation is cut at its deadline. The
  creation's task is still pending when cleanup begins, which finishes it and removes both.
\<close>

definition example_spec :: container_spec where
  "example_spec = \<lparr>cs_service = ''electrs'', cs_image = electrs_default, cs_entrypoint = None,
     cs_name = ''box'', cs_network = ''net'', cs_command = [], cs_exposed_ports = [30000]\<rparr>"

definition example_start :: "held list runtime" where
  "example_start = \<lparr>rt_world = \<lparr>w_sent = [], w_now = 0\<rparr>, rt_daemon = [HeldNetwork ''f'' ''bridge''],
     rt_ledger = [], rt_mutations = [], rt_labels = [], rt_limit = Some 4, rt_cancel_at = None\<rparr>"

definition example_engine :: "held list container_engine" where
  "example_engine = BollardEngine (\<lambda>bytes. None) example_docker ''127.0.0.1''"

definition example_cut :: "held list runtime" where
  "example_cut = snd (start_container example_engine example_spec
     (snd (create_network example_engine ''net'' example_start)))"

lemma example_cut_pending:
  "rt_mutations example_cut = [CreateContainer example_spec] \<and> length (rt_daemon example_cut) = 2
   \<and> fst (cleanup example_engine example_cut) = Ok ()"
  by code_simp

lemma cleanup_leaves_nothing_witness:
  "rt_daemon (snd (cleanup example_engine example_cut)) \<noteq> []
   \<and> set (rt_daemon (snd (cleanup example_engine example_cut))) = {HeldNetwork ''f'' ''bridge''}"
proof -
  let ?s1 = "snd (create_network example_engine ''net'' example_start)"
  have "startup_run example_engine {''net'', ''box''} example_start {''net'', ''box''} example_start"
    by (rule run_start)
  then have "startup_run example_engine {''net'', ''box''} example_start {''box''} ?s1"
    by (rule run_network [where r = "fst (create_network example_engine ''net'' example_start)"])
      (simp_all add: prod_eq_iff)
  then have run: "startup_run example_engine {''net'', ''box''} example_start {} example_cut"
    unfolding example_cut_def
    by (intro run_container [where spec = example_spec and left = "{}"
          and rc = "fst (start_container example_engine example_spec ?s1)"])
      (simp_all add: prod_eq_iff example_spec_def)
  have kept: "\<forall>n \<in> {''net'', ''box''}. \<forall>h \<in> set (rt_daemon example_start). \<not> addresses n h"
    "rt_ledger example_start = []" "rt_mutations example_start = []"
    by (simp_all add: example_start_def addresses_def)
  obtain r s2 where fin: "cleanup example_engine example_cut = (r, s2)" "r = Ok ()"
    using example_cut_pending by (metis prod.collapse)
  have "set (rt_daemon s2) = set (rt_daemon example_start)"
    using cleanup_leaves_nothing [OF example.docker_daemon_axioms kept(2,3,1)
        run [unfolded example_engine_def] fin(1) [unfolded example_engine_def]] fin(2) by simp
  then have "set (rt_daemon s2) = {HeldNetwork ''f'' ''bridge''}"
    by (simp only: example_start_def runtime.simps list.set)
  then show ?thesis
    unfolding fin(1) snd_conv by (metis empty_not_insert list.set(1))
qed

text \<open>
  C32: a log sample is the redacted beginning of the container's log. Whatever was logged, it contains
  no fixture credential and is bounded; it is the whole log when the stream ended within the limits,
  and otherwise a part of it that ends with a line, marked as cut.
\<close>

theorem log_sample_is_safe:
  assumes "collect_log_sample stream = Ok sample"
  shows "credential_free sample \<and> length sample \<le> 16384 + length LOG_TRUNCATED
    \<and> (\<exists>received kept. map Ok received = take (length received) stream \<and> length kept \<le> 65536
        \<and> (sample = redacted_tail (from_utf8_lossy kept) \<and> kept = concat received
             \<and> length received = length stream
           \<or> sample = redacted_tail (from_utf8_lossy kept) @ LOG_TRUNCATED
             \<and> prefix kept (concat received) \<and> (kept = [] \<or> last kept = LF)))"
proof -
  obtain bytes ended where collected: "collect_chunks MAX_LOG_SAMPLE_CHUNKS [] stream = Ok (bytes, ended)"
    and sample: "sample = (if ended then redacted_tail (from_utf8_lossy bytes)
      else redacted_tail (from_utf8_lossy (whole_lines bytes)) @ LOG_TRUNCATED)"
    using assms by (auto simp: collect_log_sample_def result_simps)
  obtain received where received: "length bytes \<le> 65536" "map Ok received = take (length received) stream"
    "prefix bytes (concat received)" "ended \<longrightarrow> bytes = concat received \<and> length received = length stream"
    using collect_chunks_prefix [OF collected] by (auto simp: MAX_LOG_SAMPLE_BYTES_def)
  have lines: "prefix (whole_lines bytes) (concat received)" "length (whole_lines bytes) \<le> 65536"
    "whole_lines bytes = [] \<or> last (whole_lines bytes) = LF"
    using whole_lines_prefix [of bytes] received(1,3)
    by (auto dest: prefix_length_le intro: prefix_order.order_trans)
  have safe: "credential_free sample" "length sample \<le> 16384 + length LOG_TRUNCATED"
    unfolding sample using log_notice_credential_free by (auto simp: trans_le_add1)
  show ?thesis
  proof (cases ended)
    case True
    then show ?thesis
      using safe received sample by (intro conjI exI [of _ received] exI [of _ bytes]) auto
  next
    case False
    then show ?thesis
      using safe received lines sample by (intro conjI exI [of _ received] exI [of _ "whole_lines bytes"]) auto
  qed
qed

lemma log_sample_is_safe_witness:
  "credential_free (redacted_tail (from_utf8_lossy ''-rpcuser=admin1''))"
proof -
  have "collect_chunks MAX_LOG_SAMPLE_CHUNKS [] [Ok ''-rpcuser='', Ok ''admin1''] = Ok (''-rpcuser=admin1'', True)"
  proof -
    have chunks: "MAX_LOG_SAMPLE_CHUNKS = Suc (Suc (Suc 1021))"
      by (simp add: MAX_LOG_SAMPLE_CHUNKS_def)
    show ?thesis
      unfolding chunks by (simp add: MAX_LOG_SAMPLE_BYTES_def Let_def del: Suc_numeral Suc_eq_numeral)
  qed
  then have "collect_log_sample [Ok ''-rpcuser='', Ok ''admin1''] = Ok (redacted_tail (from_utf8_lossy ''-rpcuser=admin1''))"
    by (simp add: collect_log_sample_def)
  from log_sample_is_safe [OF this] show ?thesis
    by blast
qed


text \<open>A daemon with one file of two bytes, archived in the block layout.\<close>

definition example_archive :: string where
  "example_archive = replicate 512 (CHR ''h'') @ ''ok'' @ replicate 1534 (CHR 0x00)"

definition example_entry :: "string \<Rightarrow> tar_entry" where
  "example_entry bytes = \<lparr>te_is_file = True, te_path = ''tls.cert'', te_size = Some 2,
     te_content = (\<lambda>limit. Some (take limit (take 2 (drop 512 bytes))))\<rparr>"

definition example_file_docker :: "held list docker" where
  "example_file_docker = example_docker\<lparr>
     dk_archive_info := (\<lambda>i path hs.
       (Ok \<lparr>ps_name = ''tls.cert'', ps_size = 2, ps_file_mode = 0x1a4, ps_link_target = []\<rparr>, hs, 1)),
     dk_download := (\<lambda>i path hs. ([Ok example_archive], hs, 1))\<rparr>"

lemma example_file_read:
  "bollard_read_container_file (\<lambda>bytes. Some [Ok (example_entry bytes)]) example_file_docker ''f''
     ''/root/.lnd/tls.cert'' 4096 [] = (Ok ''ok'', [], 2)"
proof -
  have path: "expected_archive_basename ''/root/.lnd/tls.cert'' = Ok ''tls.cert''"
    by code_simp
  have framing: "validate_strict_tar_framing example_archive 2 = Ok ()"
    by (simp add: validate_strict_tar_framing_def usize_checked_add_def usize_checked_mul_def
        TAR_BLOCK_BYTES_def TAR_END_BLOCKS_def USIZE_MAX_def example_archive_def list_all_iff)
  have mode: "and (0x1a4 :: u32) DOCKER_FILE_MODE_TYPE_MASK = 0"
    by (simp add: DOCKER_FILE_MODE_TYPE_MASK_def)
  have entry: "read_first_entry (example_entry example_archive) ''tls.cert'' 2 = Ok ''ok''"
    by (simp add: read_first_entry_def example_entry_def example_archive_def)
  have decoded: "decode_single_file_archive (\<lambda>bytes. Some [Ok (example_entry bytes)]) example_archive
      ''tls.cert'' 2 4096 = Ok ''ok''"
    by (simp add: decode_single_file_archive_def framing entry)
  have size: "length example_archive = 2048"
    by (simp add: example_archive_def)
  show ?thesis
    by (simp add: bollard_read_container_file_def path example_file_docker_def decoded size mode
        validate_container_file_stat_def usize_checked_add_def USIZE_MAX_def TAR_ARCHIVE_OVERHEAD_BYTES_def
        append_archive_chunk_def)
qed


end
