(* ===== verification/Fix_Supervisor.thy ===== *)
theory Fix_Supervisor
  imports Fix_Engine
begin

text \<open>
  The threads of \<open>runtime/supervisor.rs\<close>: the supervisor that runs a startup, hands its value over
  and cleans up, the handle that asks for the cleanup, and the coordinator of a composite with the
  handoff of its value to a caller that may go away at any moment.
\<close>

section \<open>The supervisor\<close>

datatype cancellation_wait = WaitDeadline deadline | WaitComplete

text \<open>What the supervisor's thread does that others see, in order.\<close>

datatype ('x, 't) supervisor_event =
    Published "'x + 't"
  | ShutdownAwaited
  | CleanedUp "engine_error + unit"

definition publish_before_cleanup :: "cancellation_wait \<Rightarrow> bool" where
  "publish_before_cleanup wait = (case wait of WaitDeadline _ \<Rightarrow> True | WaitComplete \<Rightarrow> False)"

text \<open>
  \<open>work\<close> yields its result, or the message of its panic. It is raced against the cancellation of
  the caller; \<open>listens\<close> says whether the caller still waits for the value when it is sent.
\<close>

definition supervisor_thread ::
  "'d container_engine \<Rightarrow> (engine_error \<Rightarrow> 'x) \<Rightarrow> cancellation_wait \<Rightarrow> bool
     \<Rightarrow> ('d, string + ('x + 't)) fut \<Rightarrow> 'd runtime \<Rightarrow> ('x, 't) supervisor_event list \<times> 'd runtime"
where
  "supervisor_thread E from_engine wait listens work s =
     (let (outcome, s1) = race (rt_cancel_at s) (from_engine cancelled_error) work s;
          (cleaned, s2) = cleanup E s1;
          failed = (\<lambda>e. if publish_before_cleanup wait then [Published (Err e), CleanedUp cleaned]
                         else [CleanedUp cleaned, Published (Err e)])
      in (case outcome of
            None \<Rightarrow> [CleanedUp cleaned]
          | Some (Err e) \<Rightarrow> failed e
          | Some (Ok (Ok (Err e))) \<Rightarrow> failed e
          | Some (Ok (Ok (Ok v))) \<Rightarrow>
              (if listens then [Published (Ok v), ShutdownAwaited] else []) @ [CleanedUp cleaned]
          | Some (Ok (Err message)) \<Rightarrow>
              [CleanedUp cleaned, Published (Err (from_engine
                 (EngineError_new ''run fixture startup'' (IoSource IoOther message))))], s2))"

text \<open>The caller's side: the published result, or the error when none was.\<close>

fun published :: "('x, 't) supervisor_event list \<Rightarrow> ('x + 't) option" where
  "published [] = None"
| "published (Published r # events) = Some r"
| "published (_ # events) = published events"

definition supervise_with_wait ::
  "'d container_engine \<Rightarrow> (engine_error \<Rightarrow> 'x) \<Rightarrow> cancellation_wait \<Rightarrow> engine_source option \<Rightarrow> bool
     \<Rightarrow> ('d, string + ('x + 't)) fut \<Rightarrow> 'd runtime
     \<Rightarrow> ('x + 't) \<times> ('x, 't) supervisor_event list \<times> 'd runtime"
where
  "supervise_with_wait E from_engine wait runtime_failure listens work s =
     (case runtime_failure of
        Some source \<Rightarrow>
          (let e = from_engine (EngineError_new ''start fixture supervisor'' source)
           in (Err e, [Published (Err e)], s))
      | None \<Rightarrow>
          (let (events, s') = supervisor_thread E from_engine wait listens work s
           in (case published events of
                 Some r \<Rightarrow> r
               | None \<Rightarrow> Err (from_engine (EngineError_new ''wait for fixture supervisor''
                   (IoSource IoOther ''fixture supervisor stopped before startup completed''))),
               events, s')))"

text \<open>\<open>RuntimeHandle::shutdown\<close>: the reported cleanup, if any, and whether the thread was joined.\<close>

definition runtime_shutdown :: "(engine_error + unit) option \<Rightarrow> bool \<Rightarrow> engine_error + unit" where
  "runtime_shutdown completion thread_panicked =
     and_then (ok_or completion (EngineError_new ''wait for fixture cleanup''
         (IoSource IoOther ''fixture supervisor stopped without reporting cleanup''))) (\<lambda>reported.
       let joined = (if thread_panicked
             then Err (EngineError_new ''join fixture supervisor''
               (IoSource IoOther ''fixture supervisor thread panicked''))
             else Ok ())
       in and_then reported (\<lambda>_. joined))"

text \<open>
  \<open>CallerCancellation::join_within_deadline\<close>: whether a caller that gives up waits for the thread,
  which ends at \<open>finishes_at\<close>, and until when it waits.
\<close>

definition join_within_deadline :: "cancellation_wait \<Rightarrow> nat \<Rightarrow> nat \<Rightarrow> bool \<times> nat" where
  "join_within_deadline wait finishes_at now =
     (case wait of
        WaitComplete \<Rightarrow> (True, max now finishes_at)
      | WaitDeadline d \<Rightarrow>
          if finishes_at \<le> now then (True, now)
          else if remaining d now = 0 then (False, now)
          else if finishes_at \<le> now + remaining d now then (True, finishes_at)
          else (False, now + remaining d now))"

section \<open>Handing a composite over\<close>

text \<open>
  \<open>coordinate_startup\<close> after its work succeeded: the value lies in a slot that both threads can
  take it from. The caller takes it when it acknowledges; the coordinator takes it, and drops it,
  when the handoff cannot be sent, when the acknowledgement is closed without being sent, and when
  the caller's cancellation arrives first. A caller that is dropped closes both.
\<close>

datatype handoff_caller = Waiting | Received | Holding | Gone

datatype handoff_coordinator = Offering | AwaitingAck | Finished_coordinator

record 't handoff =
  ho_slot :: "'t option"
  ho_caller :: handoff_caller
  ho_coordinator :: handoff_coordinator
  ho_acknowledged :: bool
  ho_held :: "'t list"
  ho_dropped :: "'t list"

definition offer :: "'t \<Rightarrow> 't handoff" where
  "offer v = \<lparr>ho_slot = Some v, ho_caller = Waiting, ho_coordinator = Offering,
     ho_acknowledged = False, ho_held = [], ho_dropped = []\<rparr>"

text \<open>\<open>drop(take_handoff_value(..))\<close>, the last action of the coordinator.\<close>

definition drop_slot :: "'t handoff \<Rightarrow> 't handoff" where
  "drop_slot h = h\<lparr>ho_slot := None, ho_coordinator := Finished_coordinator,
     ho_dropped := ho_dropped h @ (case ho_slot h of None \<Rightarrow> [] | Some v \<Rightarrow> [v])\<rparr>"

inductive handoff_step :: "'t handoff \<Rightarrow> 't handoff \<Rightarrow> bool" where
  sent: "ho_coordinator h = Offering \<Longrightarrow> ho_caller h = Waiting \<Longrightarrow>
    handoff_step h (h\<lparr>ho_coordinator := AwaitingAck, ho_caller := Received\<rparr>)"
| unsent: "ho_coordinator h = Offering \<Longrightarrow> ho_caller h = Gone \<Longrightarrow> handoff_step h (drop_slot h)"
| acknowledge: "ho_caller h = Received \<Longrightarrow> ho_slot h = Some v \<Longrightarrow>
    handoff_step h (h\<lparr>ho_slot := None, ho_caller := Holding, ho_acknowledged := True, ho_held := ho_held h @ [v]\<rparr>)"
| caller_dropped: "ho_caller h = Waiting \<or> ho_caller h = Received \<Longrightarrow>
    handoff_step h (h\<lparr>ho_caller := Gone\<rparr>)"
| saw_ack: "ho_coordinator h = AwaitingAck \<Longrightarrow> ho_acknowledged h \<Longrightarrow>
    handoff_step h (h\<lparr>ho_coordinator := Finished_coordinator\<rparr>)"
| saw_closed: "ho_coordinator h = AwaitingAck \<Longrightarrow> \<not> ho_acknowledged h \<Longrightarrow> ho_caller h = Gone \<Longrightarrow>
    handoff_step h (drop_slot h)"

inductive_cases handoff_stepE: "handoff_step h h'"

text \<open>The value is in one place: the slot, the caller's hands, or dropped by the coordinator.\<close>

definition handoff_invariant :: "'t \<Rightarrow> 't handoff \<Rightarrow> bool" where
  "handoff_invariant v h \<longleftrightarrow>
     (case ho_slot h of None \<Rightarrow> [] | Some x \<Rightarrow> [x]) @ ho_held h @ ho_dropped h = [v]
     \<and> (ho_caller h = Holding \<longleftrightarrow> ho_held h = [v])
     \<and> (ho_acknowledged h \<longleftrightarrow> ho_caller h = Holding)
     \<and> (ho_caller h = Waiting \<longrightarrow> ho_coordinator h = Offering)
     \<and> (ho_coordinator h = Offering \<longrightarrow> ho_caller h = Waiting \<or> ho_caller h = Gone)
     \<and> (ho_dropped h \<noteq> [] \<longrightarrow> ho_coordinator h = Finished_coordinator \<and> ho_caller h = Gone)
     \<and> (ho_coordinator h = Finished_coordinator \<longrightarrow> ho_slot h = None)"

lemma handoff_invariant_offer: "handoff_invariant v (offer v)"
  by (simp add: handoff_invariant_def offer_def)

lemma handoff_invariant_step:
  "handoff_step h h' \<Longrightarrow> handoff_invariant v h \<Longrightarrow> handoff_invariant v h'"
  by (induction rule: handoff_step.induct)
    (auto simp: handoff_invariant_def drop_slot_def split: option.splits)

lemma handoff_invariant_reachable:
  "handoff_step\<^sup>*\<^sup>* (offer v) h \<Longrightarrow> handoff_invariant v h"
  by (induction rule: rtranclp_induct) (auto intro: handoff_invariant_offer handoff_invariant_step)

section \<open>Facts about supervised work\<close>

text \<open>Any use of the startup that a composite may make: nothing but its operations.\<close>

definition uses_startup ::
  "'d container_engine \<Rightarrow> string set \<Rightarrow> ('d, 'a) fut \<Rightarrow> 'd runtime \<Rightarrow> bool"
where
  "uses_startup E names work s \<longleftrightarrow>
     (\<forall>l. startup_run E names s {} (snd (work (s\<lparr>rt_limit := l\<rparr>))))"

lemma race_uses_startup:
  assumes "uses_startup E names work s" and "race t late work s = (r, s')"
  shows "startup_run E names s {} s'"
proof -
  let ?s1 = "snd (work (s\<lparr>rt_limit := earlier_limit (rt_limit s) t\<rparr>))"
  have "startup_run E names s {} ?s1"
    using assms(1) by (simp add: uses_startup_def)
  moreover have "s' = ?s1\<lparr>rt_limit := rt_limit s\<rparr>"
    using assms(2) by (auto simp: race_def Let_def split: prod.splits option.splits if_splits)
  ultimately show ?thesis
    by (auto intro: run_other)
qed

fun is_cleanup :: "('x, 't) supervisor_event \<Rightarrow> bool" where
  "is_cleanup (CleanedUp _) = True"
| "is_cleanup _ = False"

section \<open>Properties\<close>

text \<open>
  A supervised startup always cleans up, exactly once, and when it reports success the daemon
  holds what it held before, however the work ended: with a value, an error, a panic, or cut by the
  caller's cancellation. A value is published before the shutdown is awaited and the cleanup
  begins; an error only after the cleanup when a coordinator waits for it.
\<close>

theorem supervised_startup_cleans_up:
  assumes "docker_daemon docker held" and "rt_ledger s = []" and "rt_mutations s = []"
    and "\<forall>n \<in> names. \<forall>h \<in> held (rt_daemon s). \<not> addresses n h"
    and "uses_startup (BollardEngine tar docker host) names work s"
    and "supervisor_thread (BollardEngine tar docker host) from_engine wait listens work s = (events, s')"
  shows "\<exists>cleaned. filter is_cleanup events = [CleanedUp cleaned]
    \<and> (cleaned = Ok () \<longrightarrow> held (rt_daemon s') = held (rt_daemon s))
    \<and> (ShutdownAwaited \<in> set events \<longrightarrow> (\<exists>v. events = [Published (Ok v), ShutdownAwaited, CleanedUp cleaned]))
    \<and> (wait = WaitComplete \<longrightarrow> (\<forall>e. published events = Some (Err e) \<longrightarrow> hd events = CleanedUp cleaned))"
proof -
  let ?E = "BollardEngine tar docker host"
  obtain outcome s1 where raced: "race (rt_cancel_at s) (from_engine cancelled_error) work s = (outcome, s1)"
    by fastforce
  obtain cleaned s2 where clean: "cleanup ?E s1 = (cleaned, s2)"
    by fastforce
  have "cleaned = Ok () \<longrightarrow> held (rt_daemon s2) = held (rt_daemon s)"
    using docker_daemon.leaves_nothing [OF assms(1-4) race_uses_startup [OF assms(5) raced] clean] ..
  moreover have "s2 = s'" and events: "events = fst (supervisor_thread ?E from_engine wait listens work s)"
    using assms(6) raced clean by (auto simp: supervisor_thread_def Let_def)
  ultimately have "cleaned = Ok () \<longrightarrow> held (rt_daemon s') = held (rt_daemon s)"
    by simp
  then show ?thesis
    using events raced clean
    by (intro exI [of _ cleaned])
      (auto simp: supervisor_thread_def Let_def publish_before_cleanup_def
        split: option.splits sum.splits cancellation_wait.splits)
qed

text \<open>
  C34: a value handed over ends in one place. In every state the two threads can reach the caller
  finds the value it was sent, so taking it never panics, and it is never both held and dropped;
  when neither thread can go on, either the caller holds it, or the caller is gone and the
  coordinator has dropped it.
\<close>

theorem value_is_handed_over_once:
  assumes "handoff_step\<^sup>*\<^sup>* (offer v) h"
  shows "(ho_caller h = Received \<longrightarrow> ho_slot h = Some v)
    \<and> (ho_held h = [] \<or> ho_dropped h = [])
    \<and> ((\<nexists>h'. handoff_step h h') \<longrightarrow>
         ho_slot h = None
         \<and> (ho_caller h = Holding \<and> ho_held h = [v] \<and> ho_dropped h = []
            \<or> ho_caller h = Gone \<and> ho_held h = [] \<and> ho_dropped h = [v]))"
proof -
  have inv: "handoff_invariant v h"
    using assms by (rule handoff_invariant_reachable)
  have received: "ho_caller h = Received \<Longrightarrow> ho_slot h = Some v"
    using inv by (auto simp: handoff_invariant_def split: option.splits)
  moreover have "ho_held h = [] \<or> ho_dropped h = []"
    using inv by (auto simp: handoff_invariant_def append_eq_Cons_conv split: option.splits)
  moreover have "ho_slot h = None \<and> (ho_caller h = Holding \<and> ho_held h = [v] \<and> ho_dropped h = []
      \<or> ho_caller h = Gone \<and> ho_held h = [] \<and> ho_dropped h = [v])"
    if stuck: "\<nexists>h'. handoff_step h h'"
  proof (cases "ho_caller h")
    case Waiting
    then show ?thesis
      using stuck caller_dropped by blast
  next
    case Received
    then show ?thesis
      using stuck caller_dropped by blast
  next
    case Holding
    then have "ho_held h = [v]"
      using inv by (simp add: handoff_invariant_def)
    then show ?thesis
      using inv Holding by (auto simp: handoff_invariant_def split: option.splits)
  next
    case Gone
    have "ho_coordinator h = Finished_coordinator"
      using stuck Gone unsent saw_ack saw_closed by (metis handoff_coordinator.exhaust)
    then show ?thesis
      using inv Gone by (auto simp: handoff_invariant_def append_eq_Cons_conv)
  qed
  ultimately show ?thesis
    by blast
qed

lemma value_is_handed_over_once_witness:
  "\<exists>h. handoff_step\<^sup>*\<^sup>* (offer (7 :: nat)) h \<and> ho_caller h = Gone \<and> ho_slot h = None
     \<and> (ho_held h = [] \<or> ho_dropped h = [])"
proof -
  let ?h = "(offer (7 :: nat))\<lparr>ho_caller := Gone\<rparr>"
  have "handoff_step (offer 7) ?h"
    by (rule caller_dropped) (simp add: offer_def)
  moreover have "handoff_step ?h (drop_slot ?h)"
    by (rule unsent) (simp_all add: offer_def)
  ultimately have run: "handoff_step\<^sup>*\<^sup>* (offer 7) (drop_slot ?h)"
    by (metis r_into_rtranclp rtranclp.rtrancl_into_rtrancl)
  then show ?thesis
    using value_is_handed_over_once [OF run] by (intro exI [of _ "drop_slot ?h"]) (simp add: drop_slot_def)
qed

text \<open>Work that creates a network and then fails, on the daemon of \<open>Fix_Engine\<close>.\<close>

definition example_work :: "(held list, string + (string + unit)) fut" where
  "example_work = fut_bind (create_network example_engine ''net'') (\<lambda>_.
     fut_return (Ok (Err ''no image'')))"

lemma supervised_startup_cleans_up_witness:
  "\<exists>cleaned. filter is_cleanup (fst (supervisor_thread example_engine (\<lambda>_. ''cancelled'') WaitComplete True
      example_work (example_start\<lparr>rt_limit := None\<rparr>))) = [CleanedUp cleaned]"
proof -
  let ?s = "example_start\<lparr>rt_limit := None\<rparr>"
  have "startup_run example_engine {''net''} ?s {} (snd (example_work (?s\<lparr>rt_limit := l\<rparr>)))" for l
  proof -
    obtain r s1 where run: "create_network example_engine ''net'' (?s\<lparr>rt_limit := l\<rparr>) = (r, s1)"
      by fastforce
    have "startup_run example_engine {''net''} ?s {''net''} (?s\<lparr>rt_limit := l\<rparr>)"
      by (rule run_other [OF run_start]) simp_all
    then have "startup_run example_engine {''net''} ?s {} s1"
      by (rule run_network [OF _ _ run]) simp
    moreover have "snd (example_work (?s\<lparr>rt_limit := l\<rparr>)) = s1"
      unfolding example_work_def fut_bind_def run by (simp add: fut_return_def split: option.split)
    ultimately show ?thesis
      by (simp only:)
  qed
  then have uses: "uses_startup example_engine {''net''} example_work ?s"
    by (simp add: uses_startup_def)
  obtain events s' where thread: "supervisor_thread example_engine (\<lambda>_. ''cancelled'') WaitComplete True
      example_work ?s = (events, s')"
    by fastforce
  have "\<forall>n \<in> {''net''}. \<forall>h \<in> set (rt_daemon ?s). \<not> addresses n h" "rt_ledger ?s = []" "rt_mutations ?s = []"
    by (simp_all add: example_start_def addresses_def)
  then obtain cleaned where "filter is_cleanup events = [CleanedUp cleaned]"
    using supervised_startup_cleans_up [OF example.docker_daemon_axioms _ _ _
        uses [unfolded example_engine_def] thread [unfolded example_engine_def]] by blast
  then show ?thesis
    using thread by auto
qed

end
