(* ===== verification/Fix_Node.thy ===== *)
theory Fix_Node
  imports Fix_Supervisor
begin

text \<open>
  Starting the two services of a fixture and waiting until they agree: \<open>endpoint.rs\<close>,
  \<open>electrum.rs\<close>, \<open>node.rs\<close>, \<open>electrs.rs\<close>, \<open>readiness.rs\<close>, the texts of \<open>error.rs\<close>
  and the funding of \<open>chain/bitcoin.rs\<close> and \<open>chain/liquid.rs\<close> of the crate
  \<open>nigiri-rs-fixtures\<close>.
\<close>

section \<open>What the fixtures call in other crates\<close>

text \<open>
  \<open>fx_set_host\<close> and \<open>fx_set_port\<close> are the URL crate's setters. A TCP exchange is what the peer
  lets happen: which of the first three calls fails, or else what reading delivers, and the time
  it takes.
\<close>

datatype tcp_exchange =
    ConnectFails string
  | WriteFails string
  | FlushFails string
  | Delivers "(string + string) list"

datatype json_category = CategoryIo | CategorySyntax | CategoryData | CategoryEof

record fixture_env =
  fx_x :: externals
  fx_http_builds :: bool
  fx_set_host :: "base_url \<Rightarrow> string \<Rightarrow> base_url option"
  fx_set_port :: "base_url \<Rightarrow> u16 \<Rightarrow> base_url option"
  fx_tcp :: "world \<Rightarrow> string \<Rightarrow> u16 \<Rightarrow> string \<Rightarrow> tcp_exchange \<times> nat"
  fx_json_category :: "string \<Rightarrow> json_category"
  fx_show_status :: "nat \<Rightarrow> string"
  fx_show_duration :: "duration \<Rightarrow> string"
  fx_show_txin :: "issuance_txin \<Rightarrow> string"
  fx_transport_causes :: "string list"
  fx_show_lnd_error :: "lnd_error \<Rightarrow> string"
  fx_permit_wait :: "world \<Rightarrow> nat"

section \<open>The texts of errors\<close>

fun show_nigiri_error :: "fixture_env \<Rightarrow> nigiri_error \<Rightarrow> string" where
  "show_nigiri_error env (HttpTransport operation) = ''HTTP transport failed during '' @ operation"
| "show_nigiri_error env (HttpStatus operation status body) =
     ''HTTP status '' @ fx_show_status env status @ '' during '' @ operation @ '': '' @ body"
| "show_nigiri_error env (RpcFailed method code message) =
     ''Nigiri RPC '' @ method @ '' failed with code '' @ show_i32 code @ '': '' @ message"
| "show_nigiri_error env (NTimeout operation duration) =
     operation @ '' timed out after '' @ fx_show_duration env duration"
| "show_nigiri_error env (NInvalidRequest detail) = ''invalid request: '' @ detail"
| "show_nigiri_error env (NInvalidResponse operation detail) =
     ''invalid response during '' @ operation @ '': '' @ detail"
| "show_nigiri_error env (PostTransactionMiningFailed operation txid source) =
     operation @ '' committed transaction '' @ txid @ '', but confirmation mining failed''"
| "show_nigiri_error env (AssetTransferFailed asset issuance_txin source) =
     ''asset '' @ asset @ '' was issued at '' @ fx_show_txin env issuance_txin
       @ '', but its transfer failed''"
| "show_nigiri_error env (PegOutputNotFound liquid_txid) =
     ''no peg-out output in Liquid transaction '' @ liquid_txid"
| "show_nigiri_error env (PegOutputMalformed liquid_txid detail) =
     ''malformed peg-out output in Liquid transaction '' @ liquid_txid @ '': '' @ detail"
| "show_nigiri_error env (PegInImmature have need) =
     ''peg-in deposit has '' @ show_radix 10 (unat have) @ '' confirmations, needs ''
       @ show_radix 10 (unat need)"
| "show_nigiri_error env (PegNotConfigured detail) = ''peg is not configured: '' @ detail"

fun error_causes :: "fixture_env \<Rightarrow> nigiri_error \<Rightarrow> string list" where
  "error_causes env (HttpTransport operation) = fx_transport_causes env"
| "error_causes env (PostTransactionMiningFailed operation txid source) =
     show_nigiri_error env source # error_causes env source"
| "error_causes env (AssetTransferFailed asset issuance_txin source) =
     show_nigiri_error env source # error_causes env source"
| "error_causes env e = []"

fun show_fixture_error :: "fixture_env \<Rightarrow> fixture_error \<Rightarrow> string" where
  "show_fixture_error env (InvalidConfiguration detail) =
     ''invalid fixture configuration: '' @ detail"
| "show_fixture_error env (RuntimeFailed operation resource diagnostics source) =
     ''container runtime '' @ operation @ '' failed for '' @ resource @ '': '' @ diagnostics"
| "show_fixture_error env (Bootstrap chain operation diagnostics source) =
     chain @ '' wallet bootstrap failed during '' @ operation @ '': '' @ diagnostics"
| "show_fixture_error env (Probe service operation diagnostics source) =
     service @ '' '' @ operation @ '' probe failed: '' @ diagnostics"
| "show_fixture_error env (ReadinessTimeout service duration last_observation diagnostics) =
     service @ '' was not ready after '' @ fx_show_duration env duration @ '': ''
       @ last_observation @ ''; '' @ diagnostics"
| "show_fixture_error env (ClientFailed e) = show_nigiri_error env e"
| "show_fixture_error env (Lightning e) = ''Lightning client failed: '' @ fx_show_lnd_error env e"

section \<open>Mapped endpoints\<close>

definition mapped_http_url :: "fixture_env \<Rightarrow> string \<Rightarrow> u16 \<Rightarrow> fixture_error + base_url" where
  "mapped_http_url env host port =
     (let url = local_url ''localhost'';
          hosted = (case fx_set_host env url host of
             Some u \<Rightarrow> Some u
           | None \<Rightarrow> (case parse_ipv6 host of
                Some address \<Rightarrow> fx_set_host env url (''['' @ show_ipv6 address @ '']'')
              | None \<Rightarrow> None))
      in and_then (ok_or hosted (InvalidConfiguration
             ''container runtime returned an invalid mapped host'')) (\<lambda>url.
           ok_or (fx_set_port env url port) (InvalidConfiguration
             ''container runtime returned an invalid mapped port'')))"

section \<open>Probing Electrum\<close>

definition PROBE_ID :: string where
  "PROBE_ID = ''nigiri-fixtures''"

definition PROBE_OPERATION :: string where
  "PROBE_OPERATION = ''blockchain.headers.subscribe''"

definition MAX_RESPONSE_BYTES :: nat where
  "MAX_RESPONSE_BYTES = 64 * 1024"

text \<open>The JSON object with the members \<open>id\<close>, \<open>method\<close> and \<open>params\<close>, on a line of its own.\<close>

definition request_line :: string where
  "request_line =
     (let q = [CHR 0x22]
      in ''{'' @ q @ ''id'' @ q @ '':'' @ q @ PROBE_ID @ q @ '','' @ q @ ''method'' @ q @ '':'' @ q
         @ PROBE_OPERATION @ q @ '','' @ q @ ''params'' @ q @ '':[]}'' @ [CHR 0x0A])"

definition decode_electrum_tip :: "json \<Rightarrow> u64 option" where
  "decode_electrum_tip j =
     Option.bind (struct_fields [''height''] j) (\<lambda>fs. required decode_u64 (fs ! 0))"

definition decode_electrum_response :: "json \<Rightarrow> u64 option" where
  "decode_electrum_response j =
     Option.bind (struct_fields [''result''] j) (\<lambda>fs. required decode_electrum_tip (fs ! 0))"

datatype probe_failure =
    TransportFailed string string
  | Oversized nat
  | Closed
  | Unusable nat string

fun show_probe_failure :: "probe_failure \<Rightarrow> string" where
  "show_probe_failure (TransportFailed operation source) = operation @ '' failed''"
| "show_probe_failure (Oversized read_bytes) =
     ''the Electrum response exceeded '' @ show_radix 10 MAX_RESPONSE_BYTES
       @ '' bytes before a newline''"
| "show_probe_failure Closed = ''the Electrum connection closed without answering''"
| "show_probe_failure (Unusable read_bytes category) =
     ''the '' @ show_radix 10 read_bytes
       @ ''-byte Electrum response carried no usable tip height: '' @ category"

fun probe_failure_causes :: "probe_failure \<Rightarrow> string list" where
  "probe_failure_causes (TransportFailed operation source) = [source]"
| "probe_failure_causes _ = []"

definition probe_error :: "probe_failure \<Rightarrow> fixture_error" where
  "probe_error failure =
     Probe ''electrs'' PROBE_OPERATION
       (redacted_head (show_probe_failure failure) MAX_SOURCE_BYTES)
       (redacted_source (show_probe_failure failure) (probe_failure_causes failure))"

text \<open>\<open>read_until\<close> over \<open>take(limit)\<close>: up to a newline, the end, or \<open>limit\<close> bytes.\<close>

fun read_line :: "nat \<Rightarrow> string \<Rightarrow> (string + string) list \<Rightarrow> string + string" where
  "read_line limit response [] = Ok response"
| "read_line limit response (Err source # chunks) =
     (if limit \<le> length response then Ok response else Err source)"
| "read_line limit response (Ok chunk # chunks) =
     (let available = take (limit - length response) chunk
      in if available = [] then Ok response
         else case find_sub [CHR 0x0A] available of
                Some i \<Rightarrow> Ok (response @ take (Suc i) available)
              | None \<Rightarrow> read_line limit (response @ available) chunks)"

fun category_text :: "json_category \<Rightarrow> string" where
  "category_text CategoryIo = ''transport''"
| "category_text CategorySyntax = ''malformed JSON''"
| "category_text CategoryData = ''unexpected shape''"
| "category_text CategoryEof = ''truncated''"

definition judge_tip :: "fixture_env \<Rightarrow> string \<Rightarrow> probe_failure + u64" where
  "judge_tip env response =
     (if MAX_RESPONSE_BYTES < length response then Err (Oversized (length response))
      else if response = [] then Err Closed
      else ok_or (Option.bind (parse_json_text (x_lib (fx_x env)) response) decode_electrum_response)
             (Unusable (length response) (category_text (fx_json_category env response))))"

fun probe_result :: "fixture_env \<Rightarrow> tcp_exchange \<Rightarrow> probe_failure + u64" where
  "probe_result env (ConnectFails source) =
     Err (TransportFailed ''connecting to the Electrum port'' source)"
| "probe_result env (WriteFails source) =
     Err (TransportFailed ''sending the Electrum request'' source)"
| "probe_result env (FlushFails source) =
     Err (TransportFailed ''sending the Electrum request'' source)"
| "probe_result env (Delivers chunks) =
     and_then (map_err (TransportFailed ''reading the Electrum response'')
         (read_line (MAX_RESPONSE_BYTES + 1) [] chunks))
       (judge_tip env)"

definition probe :: "fixture_env \<Rightarrow> string \<Rightarrow> u16 \<Rightarrow> ('d, probe_failure + u64) fut" where
  "probe env host port s =
     (let (exchange, taken) = fx_tcp env (rt_world s) host port request_line
      in fut_map (\<lambda>_. probe_result env exchange) (sleep taken) s)"

definition tip_height :: "fixture_env \<Rightarrow> electrum_endpoint \<Rightarrow> deadline \<Rightarrow> ('d, fixture_error + u64) fut" where
  "tip_height env server d =
     fut_try (deadline_run d ''electrs'' ''probing the Electrum tip height''
         (probe env (ee_host server) (ee_port server))) (\<lambda>probed.
       fut_return (map_err probe_error probed))"

section \<open>Clients of a fixture\<close>

definition bootstrap_error :: "fixture_env \<Rightarrow> string \<Rightarrow> string \<Rightarrow> nigiri_error \<Rightarrow> fixture_error" where
  "bootstrap_error env chain operation e =
     Bootstrap chain operation (redacted_tail (show_nigiri_error env e))
       (redacted_source (show_nigiri_error env e) (error_causes env e))"

definition fixture_client ::
  "fixture_env \<Rightarrow> ('u, 'i) nigiri_network \<Rightarrow> nigiri_config \<Rightarrow> fixture_error + ('u, 'i) nigiri_client"
where
  "fixture_client env n config =
     map_err (\<lambda>e. InvalidConfiguration (redacted_head
         (''fixture RPC client configuration was rejected: '' @ show_nigiri_error env e)
         MAX_SOURCE_BYTES))
       (NigiriClient_with_config (fx_http_builds env) n config)"

definition fixture_rpc_config :: "fixture_chain \<Rightarrow> base_url \<Rightarrow> duration \<Rightarrow> nigiri_config" where
  "fixture_rpc_config chain node_rpc_url timeout =
     NigiriConfig_bitcoin\<lparr>nc_esplora_url := node_rpc_url, nc_node_rpc_url := node_rpc_url,
       nc_node_rpc_user := RPC_USER, nc_node_rpc_password := RPC_PASSWORD, nc_timeout := timeout,
       nc_electrum := \<lparr>ee_host = ''localhost'', ee_port = fc_electrs_electrum_port chain\<rparr>\<rparr>"

definition wallet_rpc_url :: "fixture_env \<Rightarrow> base_url \<Rightarrow> string \<Rightarrow> fixture_error + base_url" where
  "wallet_rpc_url env root_url wallet_name =
     (if bu_cannot_be_a_base root_url
      then Err (InvalidConfiguration ''node RPC URL cannot hold a wallet path'')
      else Ok (x_extend_path (fx_x env) root_url [''wallet'', wallet_name]))"

text \<open>\<open>deadline.run(..).await?.map_err(..)\<close> around a request of a client.\<close>

definition request_within ::
  "deadline \<Rightarrow> string \<Rightarrow> string \<Rightarrow> ('e \<Rightarrow> fixture_error) \<Rightarrow> (world \<Rightarrow> ('e + 'a) \<times> world)
     \<Rightarrow> ('d, fixture_error + 'a) fut"
where
  "request_within d service observation g m =
     fut_try (deadline_run d service observation (client_call m)) (\<lambda>r.
       fut_return (map_err g r))"

section \<open>Funding\<close>

definition initial_mining_gate_run ::
  "fixture_env \<Rightarrow> deadline \<Rightarrow> ('d, 'a) fut \<Rightarrow> ('d, fixture_error + 'a) fut"
where
  "initial_mining_gate_run env d m =
     fut_try (deadline_run d ''bitcoind'' ''waiting for the initial mining permit''
         (\<lambda>s. sleep (fx_permit_wait env (rt_world s)) s)) (\<lambda>_.
       deadline_run d ''bitcoind'' ''mining the initial 101 blocks'' m)"

definition Bitcoin_fund_wallet ::
  "fixture_env \<Rightarrow> ('u, 'i) nigiri_client \<Rightarrow> deadline \<Rightarrow> ('d, fixture_error + unit) fut"
where
  "Bitcoin_fund_wallet env client d =
     fut_try (request_within d ''bitcoind'' ''creating initial mining address''
         (bootstrap_error env ''Bitcoin'' ''getnewaddress'') (new_address (fx_x env) client))
       (\<lambda>mining_address.
     fut_try (initial_mining_gate_run env d
         (client_call (generate_to_address (fx_x env) client 101 mining_address))) (\<lambda>mined.
       fut_return (map_err (bootstrap_error env ''Bitcoin'' ''generatetoaddress'')
         (map_ok (\<lambda>_. ()) mined))))"

definition Liquid_fund_wallet ::
  "fixture_env \<Rightarrow> ('u, 'i) nigiri_client \<Rightarrow> deadline \<Rightarrow> ('d, fixture_error + unit) fut"
where
  "Liquid_fund_wallet env client d =
     fut_try (request_within d ''elements'' ''rescanning for the genesis outputs''
         (bootstrap_error env ''Liquid'' ''rescanblockchain'')
         (rpc (fx_x env) client ''rescanblockchain'' (Some (JArray [JNumber ''0''])) Some)) (\<lambda>_.
     fut_try (request_within d ''elements'' ''creating initial mining address''
         (bootstrap_error env ''Liquid'' ''getnewaddress'') (new_address (fx_x env) client))
       (\<lambda>address.
     fut_try (request_within d ''elements'' ''mining the initial block''
         (bootstrap_error env ''Liquid'' ''generatetoaddress'')
         (generate_to_address (fx_x env) client 1 address)) (\<lambda>_.
       fut_return (Ok ()))))"

text \<open>The trait \<open>FixtureChain\<close> with the network it extends.\<close>

record ('u, 'i, 'd) supported_chain =
  sc_chain :: fixture_chain
  sc_network :: "('u, 'i) nigiri_network"
  sc_fund_wallet :: "('u, 'i) nigiri_client \<Rightarrow> deadline \<Rightarrow> ('d, fixture_error + unit) fut"

definition Bitcoin_supported ::
  "fixture_env \<Rightarrow> (bitcoin_utxo, bitcoin_address_info, 'd) supported_chain"
where
  "Bitcoin_supported env = \<lparr>sc_chain = Bitcoin_chain, sc_network = Bitcoin_network (x_lib (fx_x env)),
     sc_fund_wallet = Bitcoin_fund_wallet env\<rparr>"

definition Liquid_supported ::
  "fixture_env \<Rightarrow> (liquid_utxo, liquid_address_info, 'd) supported_chain"
where
  "Liquid_supported env = \<lparr>sc_chain = Liquid_chain, sc_network = Liquid_network (x_lib (fx_x env)),
     sc_fund_wallet = Liquid_fund_wallet env\<rparr>"

section \<open>Clocks\<close>

text \<open>
  A future's clock never runs backwards and stops at the limit under which it is polled; it is
  dropped only when that limit has come.
\<close>

definition punctual :: "('d, 'a) fut \<Rightarrow> bool" where
  "punctual m \<longleftrightarrow> (\<forall>s r s'. m s = (r, s') \<longrightarrow>
     rt_now s \<le> rt_now s' \<and> rt_limit s' = rt_limit s
     \<and> (\<forall>l. rt_limit s = Some l \<longrightarrow> rt_now s' \<le> max (rt_now s) l)
     \<and> (r = None \<longrightarrow> (\<exists>l. rt_limit s = Some l \<and> l \<le> rt_now s')))"

named_theorems punctuality "futures that keep their clock and their limit"

lemma punctualD:
  assumes "punctual m" and "m s = (r, s')"
  shows "rt_now s \<le> rt_now s'" and "rt_limit s' = rt_limit s"
    and "rt_limit s = Some l \<Longrightarrow> rt_now s' \<le> max (rt_now s) l" and "r = None \<Longrightarrow> \<exists>l. rt_limit s = Some l \<and> l \<le> rt_now s'"
  using assms by (auto simp: punctual_def)

lemma rt_now_simps [simp]:
  "rt_now (s\<lparr>rt_limit := l\<rparr>) = rt_now s" "rt_now (s\<lparr>rt_daemon := d\<rparr>) = rt_now s"
  "rt_now (s\<lparr>rt_ledger := ls\<rparr>) = rt_now s" "rt_now (s\<lparr>rt_mutations := ms\<rparr>) = rt_now s"
  by (simp_all add: rt_now_def)

lemma punctual_return [punctuality]: "punctual (fut_return a)"
  by (auto simp: punctual_def fut_return_def)

lemma punctual_bind [punctuality]:
  assumes "punctual m" and "\<And>a. punctual (f a)"
  shows "punctual (fut_bind m f)"
  unfolding punctual_def
proof (intro allI impI)
  fix s r s'
  assume run: "fut_bind m f s = (r, s')"
  obtain r1 s1 where first: "m s = (r1, s1)"
    by fastforce
  show "rt_now s \<le> rt_now s' \<and> rt_limit s' = rt_limit s
    \<and> (\<forall>l. rt_limit s = Some l \<longrightarrow> rt_now s' \<le> max (rt_now s) l) \<and> (r = None \<longrightarrow> (\<exists>l. rt_limit s = Some l \<and> l \<le> rt_now s'))"
  proof (cases r1)
    case None
    then show ?thesis
      using run first punctualD [OF assms(1) first] by (auto simp: fut_bind_def)
  next
    case (Some a)
    then have second: "f a s1 = (r, s')"
      using run first by (simp add: fut_bind_def)
    note before = punctualD [OF assms(1) first] and after = punctualD [OF assms(2) second]
    have "rt_now s' \<le> max (rt_now s) l" if "rt_limit s = Some l" for l
      using before(3) [OF that] after(3) [of l] before(2) that by auto
    then show ?thesis
      using before(1,2) after(1,2,4) by auto
  qed
qed

lemma punctual_sum [punctuality]:
  "(\<And>e. punctual (f e)) \<Longrightarrow> (\<And>a. punctual (g a)) \<Longrightarrow>
     punctual (case r of Err e \<Rightarrow> f e | Ok a \<Rightarrow> g a)"
  by (auto split: sum.split)

lemma punctual_choice: "(\<And>s. \<exists>m'. punctual m' \<and> m s = m' s) \<Longrightarrow> punctual m"
  unfolding punctual_def by metis

lemma punctual_try [punctuality]:
  "punctual m \<Longrightarrow> (\<And>a. punctual (f a)) \<Longrightarrow> punctual (fut_try m f)"
  unfolding fut_try_def by (intro punctuality)

lemma punctual_map [punctuality]: "punctual m \<Longrightarrow> punctual (fut_map g m)"
  unfolding fut_map_def by (intro punctuality)

lemma punctual_sleep [punctuality]: "punctual (sleep taken)" "punctual (\<lambda>s. sleep (pause s) s)"
  by (auto simp: punctual_def sleep_def dropped_at_def in_time_def split: if_splits option.splits)

lemma punctual_race [punctuality]:
  assumes "punctual m"
  shows "punctual (race t late m)"
  unfolding punctual_def
proof (intro allI impI)
  fix s r s'
  assume run: "race t late m s = (r, s')"
  obtain r1 s1 where inner: "m (s\<lparr>rt_limit := earlier_limit (rt_limit s) t\<rparr>) = (r1, s1)"
    by fastforce
  show "rt_now s \<le> rt_now s' \<and> rt_limit s' = rt_limit s
    \<and> (\<forall>l. rt_limit s = Some l \<longrightarrow> rt_now s' \<le> max (rt_now s) l) \<and> (r = None \<longrightarrow> (\<exists>l. rt_limit s = Some l \<and> l \<le> rt_now s'))"
    using run inner punctualD [OF assms inner]
    by (cases t; cases "rt_limit s"; cases r1)
      (auto simp: race_def earlier_limit_def le_max_iff_disj Let_def split: if_splits)
qed

lemma punctual_deadline_run [punctuality]: "punctual m \<Longrightarrow> punctual (deadline_run d service observation m)"
  unfolding deadline_run_def by (rule punctual_race)

lemma punctual_client_call [punctuality]: "punctual (client_call m)"
  by (auto simp: punctual_def client_call_def dropped_at_def in_time_def
      split: prod.splits if_splits option.splits)

lemma punctual_probe [punctuality]: "punctual (probe env host port)"
  using punctual_map [OF punctual_sleep(1)]
  by (force simp: punctual_def probe_def split: prod.splits)

lemma punctual_tip_height [punctuality]: "punctual (tip_height env server d)"
  unfolding tip_height_def by (intro punctuality)

text \<open>Ends by the deadline, or at once when it has passed.\<close>

definition by_deadline :: "deadline \<Rightarrow> ('d, 'a) fut \<Rightarrow> bool" where
  "by_deadline d m \<longleftrightarrow> (\<forall>s r s'. m s = (r, s') \<longrightarrow> rt_now s' \<le> max (rt_now s) (dl_expires_at d))"

lemma by_deadlineD: "by_deadline d m \<Longrightarrow> m s = (r, s') \<Longrightarrow> rt_now s' \<le> max (rt_now s) (dl_expires_at d)"
  by (simp add: by_deadline_def)

named_theorems by_deadlines "futures that end by the deadline"

lemma by_deadline_run [by_deadlines]:
  assumes "punctual m"
  shows "by_deadline d (deadline_run d service observation m)"
  unfolding by_deadline_def
proof (intro allI impI)
  fix s r s'
  assume run: "deadline_run d service observation m s = (r, s')"
  obtain r1 s1 where inner: "m (s\<lparr>rt_limit := earlier_limit (rt_limit s) (Some (dl_expires_at d))\<rparr>) = (r1, s1)"
    by fastforce
  then have "rt_now s' = rt_now s1"
    using run by (auto simp: deadline_run_def race_def Let_def split: option.splits if_splits)
  then show "rt_now s' \<le> max (rt_now s) (dl_expires_at d)"
    using punctualD(3) [OF assms inner]
    by (cases "rt_limit s") (auto simp: earlier_limit_def)
qed

lemma deadline_run_Err:
  assumes "deadline_run d service observation m s = (Some (Err e), s')"
  shows "e = readiness_timeout d service observation"
    and "punctual m \<Longrightarrow> dl_expires_at d \<le> rt_now s'"
proof -
  obtain r1 s1 where inner: "m (s\<lparr>rt_limit := earlier_limit (rt_limit s) (Some (dl_expires_at d))\<rparr>) = (r1, s1)"
    by fastforce
  show "e = readiness_timeout d service observation"
    using assms by (auto simp: deadline_run_def race_def Let_def split: prod.splits option.splits if_splits)
  show "dl_expires_at d \<le> rt_now s'" if "punctual m"
    using assms inner punctualD(4) [OF that inner]
    by (auto simp: deadline_run_def race_def Let_def split: option.splits if_splits)
qed

lemma by_deadline_return [by_deadlines]: "by_deadline d (fut_return a)"
  by (auto simp: by_deadline_def fut_return_def)

lemma by_deadline_bind [by_deadlines]:
  assumes "by_deadline d m" and "\<And>a. by_deadline d (f a)"
  shows "by_deadline d (fut_bind m f)"
  unfolding by_deadline_def
proof (intro allI impI)
  fix s r s'
  assume run: "fut_bind m f s = (r, s')"
  obtain r1 s1 where first: "m s = (r1, s1)"
    by fastforce
  show "rt_now s' \<le> max (rt_now s) (dl_expires_at d)"
    using run first assms by (cases r1) (fastforce simp: fut_bind_def by_deadline_def)+
qed

lemma by_deadline_sum [by_deadlines]:
  "(\<And>e. by_deadline d (f e)) \<Longrightarrow> (\<And>a. by_deadline d (g a)) \<Longrightarrow>
     by_deadline d (case r of Err e \<Rightarrow> f e | Ok a \<Rightarrow> g a)"
  by (auto split: sum.split)

lemma by_deadline_choice: "(\<And>s. \<exists>m'. by_deadline d m' \<and> m s = m' s) \<Longrightarrow> by_deadline d m"
  unfolding by_deadline_def by metis

lemma by_deadline_try [by_deadlines]:
  "by_deadline d m \<Longrightarrow> (\<And>a. by_deadline d (f a)) \<Longrightarrow> by_deadline d (fut_try m f)"
  unfolding fut_try_def by (intro by_deadlines)

lemma by_deadline_map [by_deadlines]: "by_deadline d m \<Longrightarrow> by_deadline d (fut_map g m)"
  unfolding fut_map_def by (intro by_deadlines)

lemma by_deadline_tip_height [by_deadlines]: "by_deadline d (tip_height env server d)"
  unfolding tip_height_def by (intro by_deadlines punctuality)

section \<open>Readiness\<close>

definition RETRY_DELAY :: duration where
  "RETRY_DELAY = from_millis 100"

definition wait_before_retry :: "deadline \<Rightarrow> string \<Rightarrow> string \<Rightarrow> ('d, fixture_error + unit) fut" where
  "wait_before_retry d service observation =
     deadline_run d service observation (sleep (as_nanos RETRY_DELAY))"

text \<open>
  One round of a readiness loop: an attempt that is over with a value or an error, or else an
  observation and the pause before the next round.
\<close>

definition retry_round ::
  "deadline \<Rightarrow> string \<Rightarrow> (string \<Rightarrow> ('d, fixture_error + (string + 'a)) fut)
     \<Rightarrow> string \<Rightarrow> ('d, fixture_error + (string + 'a)) fut"
where
  "retry_round d service attempt observation =
     fut_try (attempt observation) (\<lambda>answer. case answer of
         Ok a \<Rightarrow> fut_return (Ok (Ok a))
       | Err observation \<Rightarrow>
           fut_map (map_ok (\<lambda>_. Err observation)) (wait_before_retry d service observation))"

fun over :: "(fixture_error + (string + 'a)) option \<Rightarrow> (fixture_error + 'a) option" where
  "over (Some (Ok (Ok a))) = Some (Ok a)"
| "over (Some (Err e)) = Some (Err e)"
| "over _ = None"

lemma punctual_wait [punctuality]: "punctual (wait_before_retry d service observation)"
  unfolding wait_before_retry_def by (intro punctuality)

lemma punctual_retry_round [punctuality]:
  "punctual (attempt observation) \<Longrightarrow> punctual (retry_round d service attempt observation)"
  unfolding retry_round_def by (rule punctual_try) (auto intro: punctuality split: sum.split)

lemma wait_before_retry_Ok:
  assumes "wait_before_retry d service observation s = (Some (Ok u), s')"
  shows "rt_now s' = rt_now s + 100000000" "rt_now s' \<le> dl_expires_at d"
  using assms
  by (auto simp: wait_before_retry_def deadline_run_def race_def sleep_def in_time_def
      earlier_limit_def RETRY_DELAY_def from_millis_def as_nanos_def Let_def
      split: if_splits option.splits prod.splits)

lemma wait_before_retry_Err:
  assumes "wait_before_retry d service observation s = (Some (Err e), s')"
  shows "e = readiness_timeout d service observation" "dl_expires_at d \<le> rt_now s'"
  using assms unfolding wait_before_retry_def by (auto dest: deadline_run_Err intro: punctuality)

lemma fut_try_Some:
  "fut_try m f s = (Some (Ok b), s') \<longleftrightarrow>
     (\<exists>a s1. m s = (Some (Ok a), s1) \<and> f a s1 = (Some (Ok b), s'))"
  by (auto simp: fut_try_def fut_bind_def fut_return_def split: prod.splits option.splits sum.splits)

lemma fut_try_Err:
  "fut_try m f s = (Some (Err e), s') \<longleftrightarrow>
     m s = (Some (Err e), s') \<or> (\<exists>a s1. m s = (Some (Ok a), s1) \<and> f a s1 = (Some (Err e), s'))"
  by (auto simp: fut_try_def fut_bind_def fut_return_def split: prod.splits option.splits sum.splits)

lemma fut_map_Some: "fut_map g m s = (Some b, s') \<longleftrightarrow> (\<exists>a. m s = (Some a, s') \<and> b = g a)"
  by (auto simp: fut_map_def fut_bind_def fut_return_def split: prod.splits option.splits)

lemma fut_bind_Some:
  "fut_bind m f s = (Some b, s') \<longleftrightarrow> (\<exists>a s1. m s = (Some a, s1) \<and> f a s1 = (Some b, s'))"
  by (auto simp: fut_bind_def split: prod.splits option.splits)

lemma fut_return_Some [simp]: "fut_return a s = (Some b, s') \<longleftrightarrow> b = a \<and> s' = s"
  by (auto simp: fut_return_def)

lemma retry_round_cases:
  "retry_round d service attempt observation s =
     (case attempt observation s of
        (Some (Ok (Err observation')), s1) \<Rightarrow>
          (case wait_before_retry d service observation' s1 of
             (None, s2) \<Rightarrow> (None, s2)
           | (Some (Err e), s2) \<Rightarrow> (Some (Err e), s2)
           | (Some (Ok _), s2) \<Rightarrow> (Some (Ok (Err observation')), s2))
      | (Some (Ok (Ok a)), s1) \<Rightarrow> (Some (Ok (Ok a)), s1)
      | (Some (Err e), s1) \<Rightarrow> (Some (Err e), s1)
      | (None, s1) \<Rightarrow> (None, s1))"
  by (simp add: retry_round_def fut_try_def fut_bind_def fut_map_def fut_return_def
      split: prod.split option.split sum.split)

lemma retry_round_Again:
  "retry_round d service attempt observation s = (Some (Ok (Err observation')), s') \<longleftrightarrow>
     (\<exists>s1. attempt observation s = (Some (Ok (Err observation')), s1)
        \<and> wait_before_retry d service observation' s1 = (Some (Ok ()), s'))"
  by (auto simp: retry_round_cases split: prod.splits option.splits sum.splits)

lemma retry_round_Over:
  "retry_round d service attempt observation s = (Some (Ok (Ok a)), s') \<longleftrightarrow>
     attempt observation s = (Some (Ok (Ok a)), s')"
  by (auto simp: retry_round_cases split: prod.splits option.splits sum.splits)

lemma retry_round_Failed:
  "retry_round d service attempt observation s = (Some (Err e), s') \<longleftrightarrow>
     attempt observation s = (Some (Err e), s')
     \<or> (\<exists>observation' s1. attempt observation s = (Some (Ok (Err observation')), s1)
          \<and> wait_before_retry d service observation' s1 = (Some (Err e), s'))"
  by (auto simp: retry_round_cases split: prod.splits option.splits sum.splits)

lemma retry_round_again:
  assumes "punctual (attempt observation)"
    and "retry_round d service attempt observation s = (Some (Ok (Err observation')), s')"
  shows "rt_now s < rt_now s'" "rt_now s' \<le> dl_expires_at d"
proof -
  obtain s1 where "attempt observation s = (Some (Ok (Err observation')), s1)"
    and "wait_before_retry d service observation' s1 = (Some (Ok ()), s')"
    using assms(2) by (auto simp: retry_round_Again)
  then show "rt_now s < rt_now s'" "rt_now s' \<le> dl_expires_at d"
    using punctualD(1) [OF assms(1)] wait_before_retry_Ok by fastforce+
qed

lemma retry_round_measure:
  assumes "punctual (attempt observation)"
    and "(Some (Ok (Err observation')), s') = retry_round d service attempt observation s"
  shows "Suc (dl_expires_at d) - rt_now s' < Suc (dl_expires_at d) - rt_now s"
  using retry_round_again [OF assms(1) assms(2) [symmetric]] by simp

text \<open>
  A readiness loop: rounds under the same deadline until an attempt is over. It ends by the
  deadline, with the verdict of an attempt or with the timeout of a pause.
\<close>

locale retry_loop =
  fixes loop :: "string \<Rightarrow> ('d, fixture_error + 'a) fut"
    and attempt :: "string \<Rightarrow> ('d, fixture_error + (string + 'a)) fut"
    and d :: deadline
    and service :: string
  assumes unfold: "loop observation s =
      (case retry_round d service attempt observation s of
         (Some (Ok (Err observation')), s') \<Rightarrow> loop observation' s'
       | (r, s') \<Rightarrow> (over r, s'))"
    and attempt_punctual: "punctual (attempt observation)"
    and attempt_by_deadline: "by_deadline d (attempt observation)"
begin

lemma loop_induct:
  assumes "\<And>observation s.
    (\<And>observation' s'. retry_round d service attempt observation s = (Some (Ok (Err observation')), s')
       \<Longrightarrow> P observation' s') \<Longrightarrow> P observation s"
  shows "P observation s"
proof (induction "Suc (dl_expires_at d) - rt_now s" arbitrary: observation s rule: less_induct)
  case less
  show ?case
  proof (rule assms)
    fix observation' s'
    assume again: "retry_round d service attempt observation s = (Some (Ok (Err observation')), s')"
    then have "Suc (dl_expires_at d) - rt_now s' < Suc (dl_expires_at d) - rt_now s"
      using retry_round_measure [OF attempt_punctual again [symmetric]] by blast
    then show "P observation' s'"
      by (rule less.hyps)
  qed
qed

lemma by_deadline_wait: "by_deadline d (wait_before_retry d service observation)"
  unfolding wait_before_retry_def by (intro by_deadlines punctuality)

lemma round_ends:
  assumes "retry_round d service attempt observation s = (r, s')"
  shows "rt_now s \<le> rt_now s'" "rt_limit s' = rt_limit s"
    and "rt_now s' \<le> max (rt_now s) (dl_expires_at d)"
    and "rt_limit s = Some l \<Longrightarrow> rt_now s' \<le> max (rt_now s) l"
    and "r = None \<Longrightarrow> \<exists>l. rt_limit s = Some l \<and> l \<le> rt_now s'"
proof -
  have "punctual (retry_round d service attempt observation)"
    by (intro punctuality attempt_punctual)
  note kept = punctualD [OF this assms]
  show "rt_now s \<le> rt_now s'" "rt_limit s' = rt_limit s"
    by (rule kept(1), rule kept(2))
  show "rt_limit s = Some l \<Longrightarrow> rt_now s' \<le> max (rt_now s) l"
    by (rule kept(3))
  show "r = None \<Longrightarrow> \<exists>l. rt_limit s = Some l \<and> l \<le> rt_now s'"
    by (rule kept(4))
  have "by_deadline d (retry_round d service attempt observation)"
    unfolding retry_round_def
    by (rule by_deadline_try [OF attempt_by_deadline])
      (auto intro: by_deadlines by_deadline_wait split: sum.split)
  then show "rt_now s' \<le> max (rt_now s) (dl_expires_at d)"
    using assms by (auto simp: by_deadline_def)
qed

lemma over_not_again: "\<forall>e. r \<noteq> Some (Ok (Err e)) \<Longrightarrow>
     over r = (case r of None \<Rightarrow> None | Some (Err e) \<Rightarrow> Some (Err e) | Some (Ok (Ok a)) \<Rightarrow> Some (Ok a))"
  by (cases r rule: over.cases) auto

lemma unfold_again:
  "retry_round d service attempt observation s = (Some (Ok (Err observation')), s1) \<Longrightarrow>
     loop observation s = loop observation' s1"
  by (subst unfold) simp

lemma unfold_over:
  assumes "retry_round d service attempt observation s = (r, s1)" and "\<forall>e. r \<noteq> Some (Ok (Err e))"
  shows "loop observation s = (over r, s1)"
  using assms(2) by (subst unfold) (auto simp: assms(1) split: option.splits sum.splits)

lemma loop_cases:
  obtains (again) observation' s1 where
      "retry_round d service attempt observation s = (Some (Ok (Err observation')), s1)"
      "loop observation s = loop observation' s1"
  | (ended) r s1 where "retry_round d service attempt observation s = (r, s1)"
      "\<forall>e. r \<noteq> Some (Ok (Err e))" "loop observation s = (over r, s1)"
  by (metis surj_pair unfold_again unfold_over)

lemma loop_punctual: "punctual (loop observation)"
  unfolding punctual_def
proof (intro allI)
  fix s r s'
  show "loop observation s = (r, s') \<longrightarrow> rt_now s \<le> rt_now s' \<and> rt_limit s' = rt_limit s
    \<and> (\<forall>l. rt_limit s = Some l \<longrightarrow> rt_now s' \<le> max (rt_now s) l) \<and> (r = None \<longrightarrow> (\<exists>l. rt_limit s = Some l \<and> l \<le> rt_now s'))"
  proof (induction observation s rule: loop_induct)
    case (1 observation s)
    show ?case
    proof (cases rule: loop_cases [of observation s])
      case (again observation' s1)
      then show ?thesis
        using 1 [OF again(1)] round_ends(1,2,4) [OF again(1)] by (auto intro: order_trans)
    next
      case (ended q s1)
      then show ?thesis
        using round_ends [OF ended(1)] over_not_again [OF ended(2)]
        by (auto split: option.splits sum.splits)
    qed
  qed
qed

lemma loop_by_deadline: "by_deadline d (loop observation)"
  unfolding by_deadline_def
proof (intro allI)
  fix s r s'
  show "loop observation s = (r, s') \<longrightarrow> rt_now s' \<le> max (rt_now s) (dl_expires_at d)"
  proof (induction observation s rule: loop_induct)
    case (1 observation s)
    show ?case
      by (cases rule: loop_cases [of observation s])
        (use 1 round_ends(3) in \<open>fastforce+\<close>)
  qed
qed

lemma loop_verdict:
  "loop observation s = (Some r, s') \<longrightarrow>
     (\<exists>observation' s0 r0. rt_now s \<le> rt_now s0 \<and> attempt observation' s0 = (Some r0, s')
        \<and> over (Some r0) = Some r)
     \<or> (\<exists>observation' s0 e. wait_before_retry d service observation' s0 = (Some (Err e), s')
          \<and> r = Err e)"
proof (induction observation s rule: loop_induct)
  case (1 observation s)
  show ?case
  proof (cases rule: loop_cases [of observation s])
    case (again observation' s1)
    then show ?thesis
      using 1 [OF again(1)] round_ends(1) [OF again(1)] order_trans by metis
  next
    case (ended q s1)
    then consider a where "q = Some (Ok (Ok a))" | e where "q = Some (Err e)" | "q = None"
      by (metis option.exhaust sum.exhaust)
    then show ?thesis
    proof cases
      case (1 a)
      then have "attempt observation s = (Some (Ok (Ok a)), s1)"
        using ended(1) by (simp only: retry_round_Over)
      then show ?thesis
        using ended(3) 1 by (auto intro!: exI [of _ observation] exI [of _ s] exI [of _ "Ok (Ok a)"])
    next
      case (2 e)
      consider "attempt observation s = (Some (Err e), s1)"
        | observation' s0 where "wait_before_retry d service observation' s0 = (Some (Err e), s1)"
        using ended(1) unfolding 2 retry_round_Failed by blast
      then show ?thesis
      proof cases
        case 1
        then show ?thesis
          using ended(3) 2 by (auto intro!: exI [of _ observation] exI [of _ s] exI [of _ "Err e"])
      qed (use ended(3) 2 in auto)
    qed (use ended in auto)
  qed
qed

lemma over_Some:
  "over (Some r0) = Some r \<Longrightarrow> r0 = (case r of Err e \<Rightarrow> Err e | Ok a \<Rightarrow> Ok (Ok a))"
  by (cases "Some r0" rule: over.cases) auto

lemma loop_failure:
  assumes "loop observation s = (Some (Err e), s')"
    and "\<And>observation s e s'. attempt observation s = (Some (Err e), s') \<Longrightarrow> Q e s'"
    and "\<And>observation s e s'. wait_before_retry d service observation s = (Some (Err e), s') \<Longrightarrow> Q e s'"
  shows "Q e s'"
  using loop_verdict [of observation s "Err e" s'] assms by (auto dest!: over_Some)

lemma loop_success:
  assumes "loop observation s = (Some (Ok a), s')"
  shows "\<exists>observation' s0. rt_now s \<le> rt_now s0 \<and> attempt observation' s0 = (Some (Ok (Ok a)), s')"
  using loop_verdict [of observation s "Ok a" s'] assms by (fastforce dest!: over_Some)

lemma loop_leads:
  assumes attempt: "\<And>observation. leads P (attempt observation) P" and "limitless P"
    and time: "\<And>t s. P (at_time t s) = P s"
  shows "leads P (loop observation) P"
  unfolding leads_def
proof (intro allI)
  fix s r s'
  have "leads P (sleep taken) P" for taken
    by (auto simp: leads_def sleep_def time split: if_splits)
  then have "leads P (retry_round d service attempt observation) P" for observation
    unfolding retry_round_def wait_before_retry_def using assms(2)
    by (intro leads_try [OF attempt])
      (auto intro: leads_return leads_map leads_deadline_run split: sum.split)
  note keeps = leadsD [OF this]
  show "P s \<longrightarrow> loop observation s = (r, s') \<longrightarrow> P s'"
  proof (induction observation s rule: loop_induct)
    case (1 observation s)
    show ?case
      by (cases rule: loop_cases [of observation s]) (use 1 keeps in auto)
  qed
qed

end

subsection \<open>Agreement of the three heights\<close>

record heights =
  ht_node :: u64
  ht_esplora :: u64
  ht_electrum :: u64

definition agree :: "heights \<Rightarrow> bool" where
  "agree h \<longleftrightarrow> ht_node h = ht_esplora h \<and> ht_node h = ht_electrum h"

definition show_heights :: "heights \<Rightarrow> string" where
  "show_heights h = ''node='' @ show_radix 10 (unat (ht_node h))
     @ '' esplora='' @ show_radix 10 (unat (ht_esplora h))
     @ '' electrum='' @ show_radix 10 (unat (ht_electrum h))"

definition transient_observation :: "fixture_env \<Rightarrow> string \<Rightarrow> fixture_error \<Rightarrow> string" where
  "transient_observation env service e =
     redacted_head (service @ '': '' @ show_fixture_error env e) MAX_SOURCE_BYTES"

text \<open>\<open>tokio::join!\<close> of two requests of clients: both start at the same time, the later end counts.\<close>

definition fut_join :: "('d, 'a) fut \<Rightarrow> ('d, 'b) fut \<Rightarrow> ('d, 'a \<times> 'b) fut" where
  "fut_join m1 m2 s =
     (let (r1, s1) = m1 s;
          (r2, s2) = m2 (at_time (rt_now s) s1)
      in (case (r1, r2) of (Some a, Some b) \<Rightarrow> Some (a, b) | _ \<Rightarrow> None,
          at_time (max (rt_now s1) (rt_now s2)) s2))"

text \<open>The three answers, read in the order of the node, Esplora and Electrum.\<close>

definition interpret_heights ::
  "fixture_env \<Rightarrow> string \<Rightarrow> fixture_error + nigiri_error + u64 \<Rightarrow> fixture_error + nigiri_error + u64
     \<Rightarrow> fixture_error + u64 \<Rightarrow> fixture_error + (string + heights)"
where
  "interpret_heights env observation node esplora electrum =
     and_then node (\<lambda>node. case node of
         Err e \<Rightarrow> Ok (Err (transient_observation env ''node'' (ClientFailed e)))
       | Ok node \<Rightarrow>
     and_then esplora (\<lambda>esplora. case esplora of
         Err e \<Rightarrow> Ok (Err (transient_observation env ''esplora'' (ClientFailed e)))
       | Ok esplora \<Rightarrow>
     (case electrum of
         Ok electrum \<Rightarrow>
           Ok (Ok \<lparr>ht_node = node, ht_esplora = esplora, ht_electrum = electrum\<rparr>)
       | Err (ReadinessTimeout service duration last_observation diagnostics) \<Rightarrow>
           Err (ReadinessTimeout service duration
             (redacted_head (observation @ ''; '' @ last_observation) MAX_SOURCE_BYTES) diagnostics)
       | Err e \<Rightarrow> Ok (Err (transient_observation env ''electrum'' e)))))"

definition observe_heights ::
  "fixture_env \<Rightarrow> ('u, 'i) nigiri_client \<Rightarrow> electrum_endpoint \<Rightarrow> deadline \<Rightarrow> string
     \<Rightarrow> ('d, fixture_error + (string + heights)) fut"
where
  "observe_heights env client server d observation =
     fut_map (\<lambda>(node, esplora, electrum). interpret_heights env observation node esplora electrum)
       (fut_join
         (deadline_run d ''fixture'' observation
           (client_call (rpc (fx_x env) client ''getblockcount'' (Some JNull) decode_u64)))
         (fut_join
           (deadline_run d ''fixture'' observation (client_call (block_height (fx_x env) client)))
           (tip_height env server d)))"

definition sync_verdict :: "string + heights \<Rightarrow> string + unit" where
  "sync_verdict answer =
     (case answer of
        Ok h \<Rightarrow> if agree h then Ok () else Err (show_heights h)
      | Err unavailable \<Rightarrow> Err unavailable)"

definition sync_attempt ::
  "fixture_env \<Rightarrow> ('u, 'i) nigiri_client \<Rightarrow> deadline \<Rightarrow> string
     \<Rightarrow> ('d, fixture_error + (string + unit)) fut"
where
  "sync_attempt env client d observation =
     fut_map (map_ok sync_verdict)
       (observe_heights env client (nc_electrum (cl_config client)) d observation)"

lemma punctual_join [punctuality]:
  assumes "punctual m1" and "punctual m2"
  shows "punctual (fut_join m1 m2)"
  unfolding punctual_def
proof (intro allI impI)
  fix s r s'
  assume run: "fut_join m1 m2 s = (r, s')"
  obtain r1 s1 where first: "m1 s = (r1, s1)"
    by fastforce
  obtain r2 s2 where second: "m2 (at_time (rt_now s) s1) = (r2, s2)"
    by fastforce
  note a = punctualD [OF assms(1) first] and b = punctualD [OF assms(2) second]
  have result: "s' = at_time (max (rt_now s1) (rt_now s2)) s2"
    "r = None \<longleftrightarrow> r1 = None \<or> r2 = None"
    using run first second by (auto simp: fut_join_def split: option.splits)
  have "rt_now s' \<le> max (rt_now s) l" if "rt_limit s = Some l" for l
    using a(2) a(3) [OF that] b(3) [of l] that result(1) by simp
  then show "rt_now s \<le> rt_now s' \<and> rt_limit s' = rt_limit s
    \<and> (\<forall>l. rt_limit s = Some l \<longrightarrow> rt_now s' \<le> max (rt_now s) l) \<and> (r = None \<longrightarrow> (\<exists>l. rt_limit s = Some l \<and> l \<le> rt_now s'))"
    using a(1,2,4) b(1,2,4) result by auto
qed

lemma by_deadline_join [by_deadlines]:
  assumes "by_deadline d m1" and "by_deadline d m2"
  shows "by_deadline d (fut_join m1 m2)"
  unfolding by_deadline_def
proof (intro allI impI)
  fix s r s'
  assume run: "fut_join m1 m2 s = (r, s')"
  obtain r1 s1 where first: "m1 s = (r1, s1)"
    by fastforce
  obtain r2 s2 where second: "m2 (at_time (rt_now s) s1) = (r2, s2)"
    by fastforce
  have "rt_now s1 \<le> max (rt_now s) (dl_expires_at d)" "rt_now s2 \<le> max (rt_now s) (dl_expires_at d)"
    using assms first second by (fastforce simp: by_deadline_def)+
  then show "rt_now s' \<le> max (rt_now s) (dl_expires_at d)"
    using run first second by (auto simp: fut_join_def)
qed

lemma sync_attempt_punctual: "punctual (sync_attempt env client d observation)"
  and sync_attempt_by_deadline: "by_deadline d (sync_attempt env client d observation)"
  unfolding sync_attempt_def observe_heights_def
  by (intro punctuality) (intro punctuality by_deadlines)

function wait_for_sync_loop ::
  "fixture_env \<Rightarrow> ('u, 'i) nigiri_client \<Rightarrow> deadline \<Rightarrow> string \<Rightarrow> 'd runtime
     \<Rightarrow> (fixture_error + unit) option \<times> 'd runtime"
where
  "wait_for_sync_loop env client d observation s =
     (case retry_round d ''fixture'' (sync_attempt env client d) observation s of
        (Some (Ok (Err observation')), s') \<Rightarrow> wait_for_sync_loop env client d observation' s'
      | (r, s') \<Rightarrow> (over r, s'))"
  by pat_completeness auto
termination
  by (relation "measure (\<lambda>(env, client, d, observation, s). Suc (dl_expires_at d) - rt_now s)")
    (simp, use retry_round_measure [OF sync_attempt_punctual] in simp)

declare wait_for_sync_loop.simps [simp del]

definition wait_for_sync ::
  "fixture_env \<Rightarrow> ('u, 'i) nigiri_client \<Rightarrow> deadline \<Rightarrow> ('d, fixture_error + unit) fut"
where
  "wait_for_sync env client d =
     wait_for_sync_loop env client d ''waiting for node, Esplora, and Electrum tip synchronization''"

interpretation sync: retry_loop "wait_for_sync_loop env client d" "sync_attempt env client d" d "''fixture''"
  for env client d
  by unfold_locales (subst wait_for_sync_loop.simps, rule refl,
      rule sync_attempt_punctual, rule sync_attempt_by_deadline)

section \<open>Starting a node\<close>

definition root_attempt ::
  "fixture_env \<Rightarrow> fixture_chain \<Rightarrow> ('u, 'i) nigiri_client \<Rightarrow> deadline \<Rightarrow> string
     \<Rightarrow> ('d, fixture_error + (string + unit)) fut"
where
  "root_attempt env chain root d last_observation =
     fut_map (map_ok (\<lambda>answer. case answer of
         Ok _ \<Rightarrow> Ok ()
       | Err e \<Rightarrow> Err (redacted_tail (''root RPC: '' @ show_nigiri_error env e))))
       (deadline_run d (fc_node_service chain) last_observation
         (client_call (rpc (fx_x env) root ''getblockchaininfo'' (Some JNull) Some)))"

lemma root_attempt_punctual: "punctual (root_attempt env chain root d observation)"
  and root_attempt_by_deadline: "by_deadline d (root_attempt env chain root d observation)"
  unfolding root_attempt_def by (intro punctuality) (intro punctuality by_deadlines)

function wait_for_root_rpc_loop ::
  "fixture_env \<Rightarrow> fixture_chain \<Rightarrow> ('u, 'i) nigiri_client \<Rightarrow> deadline \<Rightarrow> string \<Rightarrow> 'd runtime
     \<Rightarrow> (fixture_error + unit) option \<times> 'd runtime"
where
  "wait_for_root_rpc_loop env chain root d observation s =
     (case retry_round d (fc_node_service chain) (root_attempt env chain root d) observation s of
        (Some (Ok (Err observation')), s') \<Rightarrow> wait_for_root_rpc_loop env chain root d observation' s'
      | (r, s') \<Rightarrow> (over r, s'))"
  by pat_completeness auto
termination
  by (relation "measure (\<lambda>(env, chain, root, d, observation, s). Suc (dl_expires_at d) - rt_now s)")
    (simp, use retry_round_measure [OF root_attempt_punctual] in simp)

declare wait_for_root_rpc_loop.simps [simp del]

definition wait_for_root_rpc ::
  "fixture_env \<Rightarrow> fixture_chain \<Rightarrow> ('u, 'i) nigiri_client \<Rightarrow> deadline \<Rightarrow> ('d, fixture_error + unit) fut"
where
  "wait_for_root_rpc env chain root d =
     wait_for_root_rpc_loop env chain root d ''waiting for root getblockchaininfo RPC''"

interpretation root: retry_loop "wait_for_root_rpc_loop env chain client d"
    "root_attempt env chain client d" d "fc_node_service chain"
  for env chain client d
  by unfold_locales (subst wait_for_root_rpc_loop.simps, rule refl,
      rule root_attempt_punctual, rule root_attempt_by_deadline)

record started_node =
  sn_container :: running_container
  sn_client_config :: nigiri_config

text \<open>A span of nanoseconds as a \<open>Duration\<close>.\<close>

definition duration_of_nanos :: "nat \<Rightarrow> duration" where
  "duration_of_nanos n =
     \<lparr>as_secs = word_of_nat (n div 1000000000), subsec_nanos = word_of_nat (n mod 1000000000)\<rparr>"

text \<open>
  \<open>match deadline.run(.., startup.start_container(spec)).await?\<close>, as the node and Electrs start:
  a failure carries the container's log, read by its name.
\<close>

definition start_service ::
  "'d container_engine \<Rightarrow> deadline \<Rightarrow> string \<Rightarrow> string \<Rightarrow> string \<Rightarrow> container_spec
     \<Rightarrow> ('d, fixture_error + running_container) fut"
where
  "start_service E d service observation container_name spec =
     fut_try (deadline_run d service observation (start_container E spec)) (\<lambda>started.
       case started of
         Ok container \<Rightarrow> fut_return (Ok container)
       | Err e \<Rightarrow> fut_map Err
           (attach_container_log E d service container_name (runtime_error service e)))"

definition mapped_port :: "running_container \<Rightarrow> u16 \<Rightarrow> string \<Rightarrow> fixture_error + u16" where
  "mapped_port container port service =
     ok_or (rc_ports container port) (InvalidConfiguration
       (''container runtime omitted the mapped '' @ show_port port @ '' port for '' @ service))"

definition root_client ::
  "fixture_env \<Rightarrow> ('u, 'i, 'd) supported_chain \<Rightarrow> base_url \<Rightarrow> deadline
     \<Rightarrow> ('d, fixture_error + ('u, 'i) nigiri_client) fut"
where
  "root_client env C root_url d s =
     fut_try (fut_return (remaining_or_expired d (rt_now s) (fc_node_service (sc_chain C))
         ''configuring the root node RPC client'')) (\<lambda>left.
       fut_return (fixture_client env (sc_network C)
         (fixture_rpc_config (sc_chain C) root_url (duration_of_nanos left)))) s"

text \<open>\<open>uuid\<close> is the random identifier in the wallet's name.\<close>

definition start_node ::
  "fixture_env \<Rightarrow> ('u, 'i, 'd) supported_chain \<Rightarrow> 'd container_engine \<Rightarrow> string \<Rightarrow> container_image
     \<Rightarrow> string \<Rightarrow> string \<Rightarrow> string list \<Rightarrow> deadline \<Rightarrow> ('d, fixture_error + started_node) fut"
where
  "start_node env C E uuid img network_name container_name extra_args d =
     (let service = fc_node_service (sc_chain C) in
      fut_try (fut_return (node_spec (sc_chain C) img network_name container_name extra_args)) (\<lambda>spec.
      fut_try (start_service E d service ''starting node container'' container_name spec) (\<lambda>container.
      fut_try (fut_return (mapped_port container (fc_node_rpc_port (sc_chain C)) service)) (\<lambda>rpc_port.
      fut_try (fut_return (mapped_http_url env (rc_host container) rpc_port)) (\<lambda>root_url.
      fut_try (root_client env C root_url d) (\<lambda>root.
      fut_bind (wait_for_root_rpc env (sc_chain C) root d) (\<lambda>ready.
      case ready of
        Err not_ready \<Rightarrow> fut_map Err (attach_container_log E d service (rc_id container) not_ready)
      | Ok _ \<Rightarrow>
          (let wallet_name = ''nigiri-rs-'' @ uuid in
           fut_try (request_within d service ''creating node wallet''
               (bootstrap_error env (fc_chain_name (sc_chain C)) ''createwallet'')
               (rpc (fx_x env) root ''createwallet'' (Some (JArray [JString wallet_name])) Some)) (\<lambda>_.
           fut_try (fut_return (wallet_rpc_url env root_url wallet_name)) (\<lambda>wallet_url.
           let client_config = fixture_rpc_config (sc_chain C) wallet_url (dl_duration d) in
           fut_try (fut_return (fixture_client env (sc_network C) client_config)) (\<lambda>client.
           fut_try (sc_fund_wallet C client d) (\<lambda>_.
             fut_return (Ok \<lparr>sn_container = container, sn_client_config = client_config\<rparr>)))))))))))))"

section \<open>Starting Electrs\<close>

record started_electrs =
  se_container :: running_container
  se_esplora_url :: base_url
  se_electrum_endpoint :: electrum_endpoint

definition start_electrs ::
  "fixture_env \<Rightarrow> fixture_chain \<Rightarrow> 'd container_engine \<Rightarrow> container_image
     \<Rightarrow> string \<Rightarrow> string \<Rightarrow> string \<Rightarrow> deadline \<Rightarrow> ('d, fixture_error + started_electrs) fut"
where
  "start_electrs env chain E img network_name container_name node_name d =
     fut_try (fut_return (electrs_spec chain img network_name container_name node_name)) (\<lambda>spec.
     fut_try (start_service E d ''electrs'' ''starting Electrs container'' container_name spec) (\<lambda>container.
     fut_try (fut_return (mapped_port container (fc_electrs_http_port chain) ''electrs'')) (\<lambda>esplora_port.
     fut_try (fut_return (mapped_port container (fc_electrs_electrum_port chain) ''electrs'')) (\<lambda>electrum_port.
     fut_try (fut_return (mapped_http_url env (rc_host container) esplora_port)) (\<lambda>esplora_url.
     fut_try (fut_return (map_err (\<lambda>_. InvalidConfiguration
         ''container runtime returned an invalid mapped Electrum endpoint'')
         (ElectrumEndpoint_new (rc_host container) electrum_port))) (\<lambda>electrum_endpoint.
       fut_return (Ok \<lparr>se_container = container, se_esplora_url = esplora_url,
         se_electrum_endpoint = electrum_endpoint\<rparr>)))))))"

section \<open>Clocks of a startup\<close>

lemma punctual_engine_call [punctuality]: "punctual (engine_call E q)"
  by (auto simp: punctual_def engine_call_def dropped_at_def in_time_def
      split: prod.splits if_splits option.splits)

lemma punctual_await_mutation [punctuality]: "punctual (await_mutation E m)"
proof -
  have "rt_now s \<le> rt_now s' \<and> rt_limit s' = rt_limit s" if "finish_mutation E m s = (r, s')"
    for r and s s' :: "'a runtime"
    using that by (auto simp: finish_mutation_def Let_def split: prod.splits)
  then show ?thesis
    by (fastforce simp: punctual_def await_mutation_def dropped_at_def in_time_def
        split: prod.splits if_splits option.splits)
qed

lemma punctual_run_until_cancelled [punctuality]:
  assumes "punctual m"
  shows "punctual (run_until_cancelled m)"
proof (rule punctual_choice, intro exI conjI)
  fix s :: "'a runtime"
  let ?run = "if cancelled s then fut_return (Err cancelled_error)
      else race (rt_cancel_at s) cancelled_error m"
  show "punctual ?run"
    using assms by (auto intro!: punctuality)
  show "run_until_cancelled m s = ?run s"
    by (simp add: run_until_cancelled_def fut_return_def)
qed

lemma punctual_run [punctuality]: "punctual m \<Longrightarrow> punctual (run m)"
  unfolding run_def by (intro punctuality)

lemma punctual_settle_mutation [punctuality]: "punctual (settle_mutation E m)"
proof (rule punctual_choice, intro exI conjI)
  fix s :: "'a runtime"
  let ?settle = "if cancelled s then fut_return (Err cancelled_error)
      else fut_try (run_until_cancelled (await_mutation E m)) fut_return"
  show "punctual ?settle"
    by (auto intro!: punctuality)
  show "settle_mutation E m s = ?settle s"
    by (simp add: settle_mutation_def fut_return_def)
qed

lemma punctual_before:
  assumes "punctual m" and "\<And>s. rt_now (g s) = rt_now s" "\<And>s. rt_limit (g s) = rt_limit s"
  shows "punctual (\<lambda>s. m (g s))"
  unfolding punctual_def using punctualD [OF assms(1), of "g _"] assms(2,3) by fastforce

lemma punctual_create_network [punctuality]: "punctual (create_network E name)"
  unfolding create_network_def [abs_def] by (rule punctual_before) (intro punctuality, simp_all)

lemma punctual_map_ports [punctuality]: "punctual (map_ports E i ps ports)"
  by (induction ps arbitrary: ports) (auto intro!: punctuality)

lemma punctual_start_container [punctuality]: "punctual (start_container E spec)"
  unfolding start_container_def [abs_def] start_expected_container_def
  by (rule punctual_before) (intro punctuality, simp_all add: expecting_def)

lemma punctual_logs [punctuality]: "punctual (logs E i)"
  unfolding logs_def by (intro punctuality)

lemma by_deadline_attach_container_log [by_deadlines]:
  "by_deadline d (attach_container_log E d service i e)"
  unfolding attach_container_log_def by (intro by_deadlines punctuality)

lemma punctual_attach_container_log [punctuality]: "punctual (attach_container_log E d service i e)"
  unfolding attach_container_log_def by (intro punctuality)

lemma start_service_timed [punctuality, by_deadlines]:
  "punctual (start_service E d service observation name spec)"
  "by_deadline d (start_service E d service observation name spec)"
  unfolding start_service_def by (intro punctuality) (intro by_deadlines punctuality)

lemma request_within_timed [punctuality, by_deadlines]:
  "punctual (request_within d service observation g m)"
  "by_deadline d (request_within d service observation g m)"
  unfolding request_within_def by (intro punctuality by_deadlines)+

lemma fund_wallet_timed [punctuality, by_deadlines]:
  "punctual (Bitcoin_fund_wallet env client d)" "by_deadline d (Bitcoin_fund_wallet env client d)"
  "punctual (Liquid_fund_wallet env client' d)" "by_deadline d (Liquid_fund_wallet env client' d)"
  unfolding Bitcoin_fund_wallet_def Liquid_fund_wallet_def initial_mining_gate_run_def
  by (intro punctuality by_deadlines)+

lemma root_client_timed [punctuality, by_deadlines]:
  "punctual (root_client env C root_url d)" "by_deadline d (root_client env C root_url d)"
  by (rule punctual_choice; unfold root_client_def; rule exI, rule conjI [OF _ refl], intro punctuality)
    (rule by_deadline_choice; unfold root_client_def; rule exI, rule conjI [OF _ refl], intro by_deadlines)

text \<open>A chain whose funding keeps the deadline, as Bitcoin's and Liquid's do.\<close>

definition funds_in_time :: "('u, 'i, 'd) supported_chain \<Rightarrow> bool" where
  "funds_in_time C \<longleftrightarrow>
     (\<forall>client d. punctual (sc_fund_wallet C client d) \<and> by_deadline d (sc_fund_wallet C client d))"

lemma supported_chains_fund_in_time [simp]:
  "funds_in_time (Bitcoin_supported env)" "funds_in_time (Liquid_supported env)"
  by (auto simp: funds_in_time_def Bitcoin_supported_def Liquid_supported_def
      intro: punctuality by_deadlines)

lemma wait_for_root_rpc_timed [punctuality, by_deadlines]:
  "punctual (wait_for_root_rpc env chain root d)" "by_deadline d (wait_for_root_rpc env chain root d)"
  unfolding wait_for_root_rpc_def by (rule root.loop_punctual, rule root.loop_by_deadline)

lemma wait_for_sync_timed [punctuality, by_deadlines]:
  "punctual (wait_for_sync env client d)" "by_deadline d (wait_for_sync env client d)"
  unfolding wait_for_sync_def by (rule sync.loop_punctual, rule sync.loop_by_deadline)

lemma start_node_timed:
  assumes "funds_in_time C"
  shows "punctual (start_node env C E uuid img network name extra d)"
    and "by_deadline d (start_node env C E uuid img network name extra d)"
proof -
  have fund: "punctual (sc_fund_wallet C client d)" "by_deadline d (sc_fund_wallet C client d)" for client
    using assms by (simp_all add: funds_in_time_def)
  show "punctual (start_node env C E uuid img network name extra d)"
    unfolding start_node_def Let_def
    by (intro punctuality fund)
  show "by_deadline d (start_node env C E uuid img network name extra d)"
    unfolding start_node_def Let_def
    by (intro by_deadlines fund)
qed

lemma start_electrs_timed [punctuality, by_deadlines]:
  "punctual (start_electrs env chain E img network name node_name d)"
  "by_deadline d (start_electrs env chain E img network name node_name d)"
  unfolding start_electrs_def by (intro punctuality by_deadlines)+

section \<open>Reports\<close>

text \<open>Whatever error a future yields, its report keeps its bounds and names no credential.\<close>

definition reports :: "('d, fixture_error + 'a) fut \<Rightarrow> bool" where
  "reports m \<longleftrightarrow> (\<forall>s e s'. m s = (Some (Err e), s') \<longrightarrow> well_reported e)"

lemma reportsD: "reports m \<Longrightarrow> m s = (Some (Err e), s') \<Longrightarrow> well_reported e"
  by (auto simp: reports_def)

named_theorems reporting "futures whose errors are well reported"

lemma reports_return: "(\<And>e. r = Err e \<Longrightarrow> well_reported e) \<Longrightarrow> reports (fut_return r)"
  by (simp add: reports_def)

lemma reports_Ok [reporting]: "reports (fut_return (Ok a))"
  by (rule reports_return) simp

lemma reports_map_err [reporting]: "(\<And>e. well_reported (f e)) \<Longrightarrow> reports (fut_return (map_err f r))"
  by (rule reports_return) (auto elim: map_err.elims)

lemma reports_ok_or [reporting]: "well_reported e \<Longrightarrow> reports (fut_return (ok_or r e))"
  by (rule reports_return) (auto elim: ok_or.elims)

lemma reports_try [reporting]: "reports m \<Longrightarrow> (\<And>a. reports (f a)) \<Longrightarrow> reports (fut_try m f)"
  by (fastforce simp: reports_def fut_try_Err)

lemma readiness_timeout_reported [simp]: "well_reported (readiness_timeout d service observation)"
  by (simp add: readiness_timeout_def)

lemma reports_deadline_run [reporting]: "reports (deadline_run d service observation m)"
  by (auto simp: reports_def dest: deadline_run_Err)

lemma reports_sum [reporting]:
  "(\<And>e. reports (f e)) \<Longrightarrow> (\<And>a. reports (g a)) \<Longrightarrow> reports (case r of Err e \<Rightarrow> f e | Ok a \<Rightarrow> g a)"
  by (auto split: sum.split)

lemma reports_attach_container_log:
  "well_reported e \<Longrightarrow> reports (fut_map Err (attach_container_log E d service i e))"
  by (auto simp: reports_def fut_map_Some attach_container_log_def intro: attach_diagnostics_reported)

text \<open>A failure that a log is attached to, or a success that goes on.\<close>

lemma reports_bind_log [reporting]:
  assumes "reports m" and "\<And>a. reports (g a)"
  shows "reports (fut_bind m (\<lambda>r. case r of
     Err e \<Rightarrow> fut_map Err (attach_container_log E d service i e) | Ok a \<Rightarrow> g a))"
  using assms reports_attach_container_log
  by (fastforce simp: reports_def fut_bind_def split: prod.splits option.splits sum.splits)

lemma bootstrap_error_reported [simp]: "well_reported (bootstrap_error env chain operation e)"
  by (simp add: bootstrap_error_def MAX_SOURCE_BYTES_def)

lemma probe_error_reported [simp]: "well_reported (probe_error failure)"
proof -
  have "length (redacted_head t 4096) \<le> 16384" for t
    using redacted_head_reported(2) [of t 4096] by linarith
  then show ?thesis
    by (simp add: probe_error_def MAX_SOURCE_BYTES_def)
qed

lemma reports_spec [reporting]:
  "reports (fut_return (node_spec chain img network name extra))"
  "reports (fut_return (electrs_spec chain img network name node_name))"
  by (rule reports_return; auto simp: node_spec_def electrs_spec_def result_simps dest!: image_validate_Err)+

lemma reports_start_service [reporting]: "reports (start_service E d service observation name spec)"
  unfolding start_service_def
  by (intro reporting reports_attach_container_log runtime_error_reported)

lemma reports_mapped [reporting]:
  "reports (fut_return (mapped_port container port service))"
  "reports (fut_return (mapped_http_url env host port))"
  "reports (fut_return (wallet_rpc_url env root_url wallet_name))"
  "reports (fut_return (fixture_client env n config))"
  by (rule reports_return; auto simp: mapped_port_def mapped_http_url_def wallet_rpc_url_def
      fixture_client_def result_simps Let_def split: if_splits)+

lemma reports_root_client [reporting]: "reports (root_client env C root_url d)"
proof -
  have "reports (fut_try (fut_return (remaining_or_expired d now service observation)) (\<lambda>left.
      fut_return (fixture_client env n (f left))))" for now service observation n f
    by (intro reporting reports_return [where r = "remaining_or_expired _ _ _ _"])
      (auto simp: remaining_or_expired_def split: if_splits)
  then show ?thesis
    unfolding reports_def root_client_def by metis
qed

lemma reports_tip_height [reporting]: "reports (tip_height env server d)"
  unfolding tip_height_def by (intro reporting probe_error_reported)

lemma reports_request_within [reporting]:
  "(\<And>e. well_reported (g e)) \<Longrightarrow> reports (request_within d service observation g m)"
  unfolding request_within_def by (intro reporting)

lemma reports_fund_wallet [reporting]:
  "reports (Bitcoin_fund_wallet env client d)" "reports (Liquid_fund_wallet env client' d)"
  unfolding Bitcoin_fund_wallet_def Liquid_fund_wallet_def initial_mining_gate_run_def
  by (intro reporting bootstrap_error_reported)+

lemma reports_wait_for_root_rpc [reporting]: "reports (wait_for_root_rpc env chain root d)"
proof -
  have "reports (root_attempt env chain root d observation)" for observation
    by (auto simp: reports_def root_attempt_def fut_map_Some result_simps dest!: sym [of "Err _"]
        deadline_run_Err)
  then show ?thesis
    unfolding reports_def wait_for_root_rpc_def
    using wait_before_retry_Err(1)
    by (metis root.loop_failure [where Q = "\<lambda>e s'. well_reported e"] readiness_timeout_reported)
qed

lemma interpret_heights_Err:
  assumes "interpret_heights env observation node esplora electrum = Err e"
    and "\<And>e. node = Err e \<Longrightarrow> late \<and> (\<exists>o'. e = readiness_timeout d ''fixture'' o')"
    and "\<And>e. esplora = Err e \<Longrightarrow> late \<and> (\<exists>o'. e = readiness_timeout d ''fixture'' o')"
    and "\<And>e. electrum = Err e \<Longrightarrow>
      late \<and> (\<exists>o'. e = readiness_timeout d ''electrs'' o') \<or> (\<exists>failure. e = probe_error failure)"
  shows "late \<and> (\<exists>service observation. e = ReadinessTimeout service (dl_duration d) observation []
    \<and> credential_free observation \<and> length observation \<le> 16384)"
proof -
  have head: "length (redacted_head t MAX_SOURCE_BYTES) \<le> 16384" for t
    by (rule order_trans [OF redacted_head_reported(2)]) (simp add: MAX_SOURCE_BYTES_def)
  show ?thesis
    using assms head
    by (cases node; cases esplora; cases electrum)
      (auto simp: interpret_heights_def readiness_timeout_def probe_error_def
        split: sum.splits fixture_error.splits)
qed

lemma fut_join_Some:
  "fut_join m1 m2 s = (Some (a, b), s') \<longleftrightarrow>
     (\<exists>s1 s2. m1 s = (Some a, s1) \<and> m2 (at_time (rt_now s) s1) = (Some b, s2)
        \<and> s' = at_time (max (rt_now s1) (rt_now s2)) s2)"
  by (auto simp: fut_join_def split: prod.splits option.splits)

lemma tip_height_Err:
  "tip_height env server d s = (Some (Err e), s') \<Longrightarrow>
     dl_expires_at d \<le> rt_now s' \<and> (\<exists>observation. e = readiness_timeout d ''electrs'' observation)
     \<or> (\<exists>failure. e = probe_error failure)"
  unfolding tip_height_def fut_try_Err
  by (auto simp: result_simps dest: deadline_run_Err intro: punctuality dest!: sym [of "Err _"])

lemma sync_attempt_Err:
  assumes "sync_attempt env client d observation s = (Some (Err e), s')"
  shows "dl_expires_at d \<le> rt_now s' \<and> (\<exists>service observation.
    e = ReadinessTimeout service (dl_duration d) observation []
    \<and> credential_free observation \<and> length observation \<le> 16384)"
proof -
  let ?server = "nc_electrum (cl_config client)"
  obtain node esplora electrum s1 s2 s3 where
    verdict: "interpret_heights env observation node esplora electrum = Err e"
    and node: "deadline_run d ''fixture'' observation
        (client_call (rpc (fx_x env) client ''getblockcount'' (Some JNull) decode_u64)) s = (Some node, s1)"
    and esplora: "deadline_run d ''fixture'' observation (client_call (block_height (fx_x env) client))
        (at_time (rt_now s) s1) = (Some esplora, s2)"
    and electrum: "tip_height env ?server d (at_time (rt_now s) s2) = (Some electrum, s3)"
    and s': "rt_now s' = max (rt_now s1) (max (rt_now s2) (rt_now s3))"
    using assms
    by (auto simp: sync_attempt_def observe_heights_def fut_map_Some fut_join_Some result_simps
        dest!: sym [of "Err e"])
  have clocks: "rt_now s1 \<le> rt_now s'" "rt_now s2 \<le> rt_now s'" "rt_now s3 \<le> rt_now s'"
    using s' by simp_all
  note ended = deadline_run_Err(2) [OF _ punctual_client_call, THEN order_trans]
  show ?thesis
    using node esplora electrum
    by (intro interpret_heights_Err [OF verdict])
      (blast intro: ended clocks deadline_run_Err(1) dest: deadline_run_Err(1) tip_height_Err order_trans [OF _ clocks(3)])+
qed

lemma sync_attempt_over:
  assumes "sync_attempt env client d observation s = (Some (Ok (Ok ())), s')"
  shows "\<exists>h. agree h \<and> observe_heights env client (nc_electrum (cl_config client)) d observation s
    = (Some (Ok (Ok h)), s')"
proof -
  obtain answer where "observe_heights env client (nc_electrum (cl_config client)) d observation s
      = (Some answer, s')" and "Ok (Ok ()) = map_ok sync_verdict answer"
    using assms unfolding sync_attempt_def fut_map_Some by blast
  then show ?thesis
    by (cases answer) (auto simp: sync_verdict_def split: sum.splits if_splits)
qed

lemma wait_for_sync_Err:
  assumes "wait_for_sync env client d s = (Some (Err e), s')"
  shows "dl_expires_at d \<le> rt_now s' \<and> (\<exists>service observation.
    e = ReadinessTimeout service (dl_duration d) observation []
    \<and> credential_free observation \<and> length observation \<le> 16384)"
  using assms unfolding wait_for_sync_def
  by (rule sync.loop_failure [where Q = "\<lambda>e s'. dl_expires_at d \<le> rt_now s' \<and> (\<exists>service observation.
      e = ReadinessTimeout service (dl_duration d) observation []
      \<and> credential_free observation \<and> length observation \<le> 16384)"])
    (auto simp: readiness_timeout_def dest: sync_attempt_Err wait_before_retry_Err)

lemma wait_for_sync_over:
  assumes "wait_for_sync env client d s = (Some (Ok ()), s')"
  shows "\<exists>observation s0 h. rt_now s \<le> rt_now s0 \<and> agree h
    \<and> observe_heights env client (nc_electrum (cl_config client)) d observation s0
        = (Some (Ok (Ok h)), s')"
proof -
  obtain observation s0 where "rt_now s \<le> rt_now s0"
    and "sync_attempt env client d observation s0 = (Some (Ok (Ok ())), s')"
    using sync.loop_success assms unfolding wait_for_sync_def by blast
  then show ?thesis
    using sync_attempt_over by blast
qed

lemma reports_wait_for_sync [reporting]: "reports (wait_for_sync env client d)"
  by (auto simp: reports_def dest!: wait_for_sync_Err)

lemma reports_start_node:
  assumes "\<And>client. reports (sc_fund_wallet C client d)"
  shows "reports (start_node env C E uuid img network name extra d)"
  unfolding start_node_def Let_def by (intro reporting bootstrap_error_reported assms)

lemma reports_start_electrs [reporting]:
  "reports (start_electrs env chain E img network name node_name d)"
  unfolding start_electrs_def by (intro reporting well_reported.simps(4) TrueI) simp_all

section \<open>Reading a line\<close>

fun first_line :: "string \<Rightarrow> string" where
  "first_line [] = []"
| "first_line (c # cs) = (if c = CHR 0x0A then [c] else c # first_line cs)"

lemma first_line_append:
  "first_line (xs @ ys) = (case find_sub [CHR 0x0A] xs of
     Some i \<Rightarrow> take (Suc i) xs | None \<Rightarrow> xs @ first_line ys)"
  by (induction xs) (auto split: option.splits)

text \<open>Without a failure the line is read whole, or cut at the limit.\<close>

lemma read_line_spec:
  "[] \<notin> set chunks \<Longrightarrow> length response \<le> limit \<Longrightarrow>
     read_line limit response (map Ok chunks) = Ok (take limit (response @ first_line (concat chunks)))"
proof (induction chunks arbitrary: response)
  case (Cons chunk chunks)
  let ?available = "take (limit - length response) chunk"
  have whole: "chunk @ concat chunks = ?available @ drop (limit - length response) chunk @ concat chunks"
    by simp
  show ?case
  proof (cases "find_sub [CHR 0x0A] ?available")
    case None
    then have line: "first_line (chunk @ concat chunks)
        = ?available @ first_line (drop (limit - length response) chunk @ concat chunks)"
      by (subst whole) (simp add: first_line_append del: append_take_drop_id append_assoc)
    show ?thesis
    proof (cases "length response < limit")
      case True
      then have "?available \<noteq> []"
        using Cons.prems(1) by auto
      then have step: "read_line limit response (map Ok (chunk # chunks))
          = Ok (take limit (response @ ?available @ first_line (concat chunks)))"
        using Cons None by simp
      show ?thesis
      proof (cases "length chunk \<le> limit - length response")
        case True
        then show ?thesis
          using step line by simp
      next
        case False
        then show ?thesis
          unfolding step concat.simps line by simp
      qed
    qed (use Cons.prems in simp)
  next
    case (Some i)
    then have line: "first_line (chunk @ concat chunks) = take (Suc i) ?available"
      by (subst whole) (simp add: first_line_append del: append_take_drop_id append_assoc)
    have "?available \<noteq> []"
      using Some by auto
    then show ?thesis
      using Some Cons.prems(2) by (simp add: line min_def)
  qed
qed simp

lemma judge_tip_line:
  "(judge_tip env (take (Suc MAX_RESPONSE_BYTES) line) = Ok height \<longleftrightarrow>
      line \<noteq> [] \<and> length line \<le> MAX_RESPONSE_BYTES
      \<and> (\<exists>j. parse_json_text (x_lib (fx_x env)) line = Some j \<and> decode_electrum_response j = Some height))
   \<and> (judge_tip env (take (Suc MAX_RESPONSE_BYTES) line) = Err failure \<longrightarrow>
      failure \<in> {Oversized (Suc MAX_RESPONSE_BYTES), Closed}
      \<or> (\<exists>category. failure = Unusable (length line) (category_text category)))"
proof (cases "length line \<le> MAX_RESPONSE_BYTES")
  case True
  then have "take (Suc MAX_RESPONSE_BYTES) line = line"
    by simp
  then show ?thesis
    using True by (auto simp: judge_tip_def result_simps bind_eq_Some_conv)
next
  case False
  then have read: "length (take (Suc MAX_RESPONSE_BYTES) line) = Suc MAX_RESPONSE_BYTES"
    by (intro length_take [THEN trans] min_absorb2) simp
  have "judge_tip env (take (Suc MAX_RESPONSE_BYTES) line) = Err (Oversized (Suc MAX_RESPONSE_BYTES))"
    unfolding judge_tip_def read by simp
  then show ?thesis
    using False by auto
qed

section \<open>Properties\<close>

text \<open>
  C36: an Electrum probe trusts exactly one line: the tip is accepted iff the first line of what
  the service sent, however it was split into reads, is not empty, has at most 64 KiB, and is a
  JSON document of the expected shape. Any other answer is reported by its size and category, and
  no byte of it.
\<close>

theorem electrum_tip_accepted_iff:
  assumes "[] \<notin> set chunks"
  shows "(probe_result env (Delivers (map Ok chunks)) = Ok height \<longleftrightarrow>
      first_line (concat chunks) \<noteq> [] \<and> length (first_line (concat chunks)) \<le> 65536
      \<and> (\<exists>j. parse_json_text (x_lib (fx_x env)) (first_line (concat chunks)) = Some j
           \<and> decode_electrum_response j = Some height))
    \<and> (probe_result env (Delivers (map Ok chunks)) = Err failure \<longrightarrow>
         failure \<in> {Oversized 65537, Closed}
         \<or> (\<exists>category. failure = Unusable (length (first_line (concat chunks))) (category_text category)))"
proof -
  let ?line = "first_line (concat chunks)"
  have run: "probe_result env (Delivers (map Ok chunks)) = judge_tip env (take (Suc MAX_RESPONSE_BYTES) ?line)"
    using read_line_spec [OF assms, of "[]" "Suc MAX_RESPONSE_BYTES"] by simp
  have bounds: "MAX_RESPONSE_BYTES = 65536" "Suc 65536 = 65537"
    by (simp_all add: MAX_RESPONSE_BYTES_def)
  show ?thesis
    using judge_tip_line [of env ?line height failure] unfolding run bounds .
qed

text \<open>
  C35: waiting for the three services always ends, by its deadline. It succeeds exactly on a round
  in which the node, Esplora and Electrum reported one height; nothing else ends it early, and when
  the deadline ends it the error is a readiness timeout with a bounded observation that names no
  credential.
\<close>

theorem synchronization_wait_ends:
  assumes "rt_limit s = None" and "wait_for_sync env client d s = (r, s')"
  shows "\<exists>answer. r = Some answer
    \<and> rt_now s \<le> rt_now s' \<and> rt_now s' \<le> max (rt_now s) (dl_expires_at d)
    \<and> (answer = Ok () \<longrightarrow> (\<exists>observation s0 h. rt_now s \<le> rt_now s0 \<and> agree h
         \<and> observe_heights env client (nc_electrum (cl_config client)) d observation s0
             = (Some (Ok (Ok h)), s')))
    \<and> (\<forall>e. answer = Err e \<longrightarrow> dl_expires_at d \<le> rt_now s'
         \<and> (\<exists>service observation. e = ReadinessTimeout service (dl_duration d) observation []
              \<and> credential_free observation \<and> length observation \<le> 16384))"
proof -
  note timed = punctualD [OF wait_for_sync_timed(1) assms(2)]
  obtain answer where answer: "r = Some answer"
    using timed(4) assms(1) by (cases r) auto
  have "\<exists>observation s0 h. rt_now s \<le> rt_now s0 \<and> agree h
      \<and> observe_heights env client (nc_electrum (cl_config client)) d observation s0
          = (Some (Ok (Ok h)), s')" if "answer = Ok ()"
    using wait_for_sync_over assms(2) answer that by blast
  moreover have "rt_now s' \<le> max (rt_now s) (dl_expires_at d)"
    by (rule by_deadlineD [OF wait_for_sync_timed(2) assms(2)])
  ultimately show ?thesis
    using answer timed(1) wait_for_sync_Err [of env client d s _ s'] assms(2) by blast
qed

section \<open>Witnesses\<close>

text \<open>A peer that answers at once with a scripted line, and clocks that stand still.\<close>

definition example_env :: "(string \<times> json) list \<Rightarrow> fixture_env" where
  "example_env table = \<lparr>fx_x = example_externals table, fx_http_builds = True,
     fx_set_host = (\<lambda>u h. Some (u\<lparr>bu_authority := h\<rparr>)), fx_set_port = (\<lambda>u p. Some u),
     fx_tcp = (\<lambda>w h p request. (Delivers [Ok (''tip'' @ [CHR 0x0A])], 0)),
     fx_json_category = (\<lambda>_. CategorySyntax), fx_show_status = (\<lambda>_. ''404''),
     fx_show_duration = (\<lambda>_. ''60s''), fx_show_txin = (\<lambda>_. []), fx_transport_causes = [],
     fx_show_lnd_error = (\<lambda>_. []), fx_permit_wait = (\<lambda>_. 0)\<rparr>"

definition tip_script :: "(string \<times> json) list" where
  "tip_script = [(''tip'' @ [CHR 0x0A], JObject [(''height'', JNumber ''1'')])]"

lemma electrum_tip_accepted_iff_witness:
  "probe_result (example_env tip_script) (Delivers (map Ok [''ti'', ''p'' @ [CHR 0x0A] @ ''left'']))
     = Ok 1"
proof -
  have line: "first_line (concat [''ti'', ''p'' @ [CHR 0x0A] @ ''left'']) = ''tip'' @ [CHR 0x0A]"
    by simp
  have "parse_json_text (x_lib (fx_x (example_env tip_script))) (''tip'' @ [CHR 0x0A])
      = Some (JObject [(''result'', JObject [(''height'', JNumber ''1'')]), (''error'', JNull),
          (''id'', JString ''nigiri-rs'')])"
    by (simp add: example_env_def example_externals_def example_lib_def scripted_json_def tip_script_def)
  moreover have "decode_electrum_response (JObject [(''result'', JObject [(''height'', JNumber ''1'')]),
      (''error'', JNull), (''id'', JString ''nigiri-rs'')]) = Some 1"
    by (simp add: decode_electrum_response_def decode_electrum_tip_def struct_fields_def required_def
        decode_u64_def parse_one)
  ultimately show ?thesis
    using electrum_tip_accepted_iff [of "[''ti'', ''p'' @ [CHR 0x0A] @ ''left'']" "example_env tip_script" 1]
    unfolding line by simp
qed

lemma synchronization_wait_ends_witness:
  "\<exists>answer s'. wait_for_sync (example_env []) (example_bitcoin []) \<lparr>dl_expires_at = 5, dl_duration = from_secs 1\<rparr>
     (example_start\<lparr>rt_limit := None\<rparr>) = (Some answer, s') \<and> rt_now s' \<le> 5"
proof -
  let ?s = "example_start\<lparr>rt_limit := None\<rparr>"
  obtain r s' where run: "wait_for_sync (example_env []) (example_bitcoin [])
      \<lparr>dl_expires_at = 5, dl_duration = from_secs 1\<rparr> ?s = (r, s')"
    by fastforce
  have limit: "rt_limit ?s = None" and now: "rt_now example_start = 0"
    by (simp_all add: example_start_def rt_now_def)
  obtain answer where "r = Some answer" "rt_now s' \<le> max (rt_now ?s) 5"
    using synchronization_wait_ends [OF limit run] unfolding deadline.simps by blast
  then show ?thesis
    using run by (intro exI [of _ answer] exI [of _ s']) (use now in simp)
qed

end
