(* ===== verification/Fix_Fixture.thy ===== *)
theory Fix_Fixture
  imports Fix_Node
begin

text \<open>
  The public fixture: \<open>fixture.rs\<close> of the crate \<open>nigiri-rs-fixtures\<close>. The work of a startup on
  its supervisor's thread, the builder in front of it, and the logs and the shutdown of a running
  fixture.
\<close>

section \<open>Fixtures and their builder\<close>

definition DEFAULT_STARTUP_TIMEOUT :: duration where
  "DEFAULT_STARTUP_TIMEOUT = from_secs 60"

text \<open>The names of one fixture's Docker resources; the container ids have the indexer's first.\<close>

record topology_names =
  tn_network :: string
  tn_node :: string
  tn_electrs :: string

type_synonym container_ids = "string \<times> string"

record ('u, 'i, 'd) fixture =
  ft_engine :: "'d container_engine"
  ft_client :: "('u, 'i) nigiri_client"
  ft_names :: topology_names
  ft_container_ids :: container_ids

record fixture_builder =
  fb_startup_timeout :: duration
  fb_node_image :: container_image
  fb_electrs_image :: container_image
  fb_extra_node_args :: "string list"
  fb_network :: "string option"

definition Fixture_builder :: "('u, 'i, 'd) supported_chain \<Rightarrow> fixture_builder" where
  "Fixture_builder C =
     \<lparr>fb_startup_timeout = DEFAULT_STARTUP_TIMEOUT,
      fb_node_image = fc_node_image_default (sc_chain C),
      fb_electrs_image = fc_electrs_image_default (sc_chain C),
      fb_extra_node_args = [], fb_network = None\<rparr>"

definition with_startup_timeout :: "fixture_builder \<Rightarrow> duration \<Rightarrow> fixture_builder" where
  "with_startup_timeout b timeout = b\<lparr>fb_startup_timeout := timeout\<rparr>"

definition with_node_image :: "fixture_builder \<Rightarrow> container_image \<Rightarrow> fixture_builder" where
  "with_node_image b img = b\<lparr>fb_node_image := img\<rparr>"

definition with_electrs_image :: "fixture_builder \<Rightarrow> container_image \<Rightarrow> fixture_builder" where
  "with_electrs_image b img = b\<lparr>fb_electrs_image := img\<rparr>"

definition with_extra_node_args :: "fixture_builder \<Rightarrow> string list \<Rightarrow> fixture_builder" where
  "with_extra_node_args b args = b\<lparr>fb_extra_node_args := args\<rparr>"

definition with_network :: "fixture_builder \<Rightarrow> string \<Rightarrow> fixture_builder" where
  "with_network b name = b\<lparr>fb_network := Some name\<rparr>"

datatype fixture_startup_owner = CallerDeadline | CompositeCoordinator

text \<open>\<open>scope\<close> is the random identifier of this fixture.\<close>

definition topology_names_on :: "fixture_chain \<Rightarrow> string \<Rightarrow> string option \<Rightarrow> topology_names" where
  "topology_names_on chain scope shared_network =
     \<lparr>tn_network = (case shared_network of Some n \<Rightarrow> n | None \<Rightarrow> ''nigiri-rs-fixture-'' @ scope),
      tn_node = fc_node_name_prefix chain @ ''-'' @ scope,
      tn_electrs = ''nigiri-rs-electrs-'' @ scope\<rparr>"

section \<open>The work of a startup\<close>

definition create_fixture_network ::
  "'d container_engine \<Rightarrow> bool \<Rightarrow> string \<Rightarrow> deadline \<Rightarrow> ('d, fixture_error + unit) fut"
where
  "create_fixture_network E creates_network name d =
     (if creates_network
      then fut_try (deadline_run d ''container network'' ''creating fixture network''
               (create_network E name)) (\<lambda>r. fut_return (map_err fixture_error_from r))
      else fut_return (Ok ()))"

text \<open>A failure of the readiness loop carries both logs, the node's last.\<close>

definition attach_both_logs ::
  "'d container_engine \<Rightarrow> deadline \<Rightarrow> string \<Rightarrow> container_ids \<Rightarrow> fixture_error \<Rightarrow> ('d, fixture_error) fut"
where
  "attach_both_logs E d node_service ids e =
     fut_bind (attach_container_log E d ''electrs'' (fst ids) e) (\<lambda>with_electrs.
       attach_container_log E d node_service (snd ids) with_electrs)"

definition serve_fixture ::
  "fixture_env \<Rightarrow> ('u, 'i, 'd) supported_chain \<Rightarrow> 'd container_engine \<Rightarrow> deadline \<Rightarrow> topology_names
     \<Rightarrow> started_node \<Rightarrow> started_electrs
     \<Rightarrow> ('d, fixture_error + (('u, 'i) nigiri_client \<times> topology_names \<times> container_ids)) fut"
where
  "serve_fixture env C E d names node electrs =
     (let ids = (rc_id (se_container electrs), rc_id (sn_container node));
          client_config = (sn_client_config node)
            \<lparr>nc_esplora_url := se_esplora_url electrs, nc_electrum := se_electrum_endpoint electrs\<rparr>
      in fut_try (fut_return (fixture_client env (sc_network C) client_config)) (\<lambda>client.
         fut_bind (wait_for_sync env client d) (\<lambda>ready. case ready of
             Err not_ready \<Rightarrow>
               fut_map Err (attach_both_logs E d (fc_node_service (sc_chain C)) ids not_ready)
           | Ok _ \<Rightarrow> fut_return (Ok (client, names, ids)))))"

definition fixture_work ::
  "fixture_env \<Rightarrow> ('u, 'i, 'd) supported_chain \<Rightarrow> 'd container_engine \<Rightarrow> string \<Rightarrow> fixture_builder
     \<Rightarrow> deadline \<Rightarrow> topology_names
     \<Rightarrow> ('d, fixture_error + (('u, 'i) nigiri_client \<times> topology_names \<times> container_ids)) fut"
where
  "fixture_work env C E wallet_uuid b d names =
     fut_try (create_fixture_network E (fb_network b = None) (tn_network names) d) (\<lambda>_.
     fut_try (start_node env C E wallet_uuid (fb_node_image b) (tn_network names) (tn_node names)
                (fb_extra_node_args b) d) (\<lambda>node.
     fut_bind (start_electrs env (sc_chain C) E (fb_electrs_image b) (tn_network names)
                (tn_electrs names) (tn_node names) d) (\<lambda>electrs. case electrs of
         Err e \<Rightarrow> fut_map Err (attach_container_log E d (fc_node_service (sc_chain C))
                    (rc_id (sn_container node)) e)
       | Ok electrs \<Rightarrow> serve_fixture env C E d names node electrs)))"

section \<open>Starting\<close>

text \<open>
  What the operating system contributes to one start: the random identifiers, the outcome of
  connecting to the engine and the time that takes, whether the supervisor's thread has a runtime,
  and whether the caller still listens when the value is sent.
\<close>

record 'd start_world =
  sw_scope :: string
  sw_wallet_uuid :: string
  sw_labels :: labels
  sw_connected :: "engine_error + 'd container_engine"
  sw_connecting :: nat
  sw_runtime_failure :: "engine_source option"
  sw_listens :: bool

definition owner_wait :: "fixture_startup_owner \<Rightarrow> deadline \<Rightarrow> cancellation_wait" where
  "owner_wait owner d = (case owner of CallerDeadline \<Rightarrow> WaitDeadline d | CompositeCoordinator \<Rightarrow> WaitComplete)"

text \<open>What comes before the supervisor: the two images, the budget, the engine.\<close>

definition connect_engine_at ::
  "'d start_world \<Rightarrow> fixture_chain \<Rightarrow> fixture_builder \<Rightarrow> deadline \<Rightarrow> nat
     \<Rightarrow> ('d, fixture_error + 'd container_engine) fut"
where
  "connect_engine_at sw chain b d now =
     fut_try (fut_return (image_validate (fb_node_image b))) (\<lambda>_.
     fut_try (fut_return (image_validate (fb_electrs_image b))) (\<lambda>_.
     fut_try (fut_return (remaining_or_expired d now (fc_node_service chain)
         ''connecting to the container engine'')) (\<lambda>_.
     fut_try (deadline_run d ''container engine'' ''connecting to the container engine''
         (fut_map (\<lambda>_. sw_connected sw) (sleep (sw_connecting sw)))) (\<lambda>connected.
       fut_return (map_err (runtime_error ''container engine'') connected)))))"

definition connect_engine ::
  "'d start_world \<Rightarrow> fixture_chain \<Rightarrow> fixture_builder \<Rightarrow> deadline
     \<Rightarrow> ('d, fixture_error + 'd container_engine) fut"
where
  "connect_engine sw chain b d s = connect_engine_at sw chain b d (rt_now s) s"

text \<open>The supervisor begins with nothing of its own and no limit but the deadline in its work.\<close>

definition supervisor_start :: "'d start_world \<Rightarrow> 'd runtime \<Rightarrow> 'd runtime" where
  "supervisor_start sw s =
     s\<lparr>rt_ledger := [], rt_mutations := [], rt_labels := sw_labels sw, rt_limit := None\<rparr>"

definition start_under_with_owner ::
  "fixture_env \<Rightarrow> ('u, 'i, 'd) supported_chain \<Rightarrow> 'd start_world \<Rightarrow> fixture_builder \<Rightarrow> deadline
     \<Rightarrow> fixture_startup_owner \<Rightarrow> 'd runtime
     \<Rightarrow> (fixture_error + ('u, 'i, 'd) fixture) option
        \<times> (fixture_error, ('u, 'i) nigiri_client \<times> topology_names \<times> container_ids) supervisor_event list
        \<times> 'd runtime"
where
  "start_under_with_owner env C sw b d owner s =
     (case connect_engine sw (sc_chain C) b d s of
        (None, s1) \<Rightarrow> (None, [], s1)
      | (Some (Err e), s1) \<Rightarrow> (Some (Err e), [], s1)
      | (Some (Ok E), s1) \<Rightarrow>
          (let names = topology_names_on (sc_chain C) (sw_scope sw) (fb_network b);
               (result, events, s2) = supervise_with_wait E fixture_error_from (owner_wait owner d)
                 (sw_runtime_failure sw) (sw_listens sw)
                 (fut_map Ok (fixture_work env C E (sw_wallet_uuid sw) b d names))
                 (supervisor_start sw s1)
           in (Some (map_ok (\<lambda>(client, names, ids). \<lparr>ft_engine = E, ft_client = client,
                 ft_names = names, ft_container_ids = ids\<rparr>) result), events, s2)))"

definition start_under where
  "start_under env C sw b d = start_under_with_owner env C sw b d CallerDeadline"

definition start_under_for_coordinator where
  "start_under_for_coordinator env C sw b d =
     start_under_with_owner env C sw b d CompositeCoordinator"

definition Fixture_start_with where
  "Fixture_start_with env C sw last_instant b s =
     (case Deadline_new last_instant (rt_now s) (fb_startup_timeout b) of
        Err e \<Rightarrow> (Some (Err e), [], s)
      | Ok d \<Rightarrow> start_under env C sw b d s)"

definition Fixture_start where
  "Fixture_start env C sw last_instant = Fixture_start_with env C sw last_instant (Fixture_builder C)"

section \<open>A running fixture\<close>

definition Fixture_shutdown :: "(engine_error + unit) option \<Rightarrow> bool \<Rightarrow> fixture_error + unit" where
  "Fixture_shutdown completion thread_panicked =
     map_err (runtime_error ''fixture'') (runtime_shutdown completion thread_panicked)"

definition attach_engine_log ::
  "'d container_engine \<Rightarrow> deadline \<Rightarrow> string \<Rightarrow> string \<Rightarrow> fixture_error \<Rightarrow> ('d, fixture_error) fut"
where
  "attach_engine_log E d service i e =
     fut_map (\<lambda>r. attach_diagnostics e (render_log_diagnostics service r))
       (deadline_run d service ''reading bounded startup diagnostics'' (engine_call E (ce_logs E i)))"

definition attach_inner_logs ::
  "fixture_chain \<Rightarrow> ('u, 'i, 'd) fixture \<Rightarrow> deadline \<Rightarrow> fixture_error \<Rightarrow> ('d, fixture_error) fut"
where
  "attach_inner_logs chain f d e =
     fut_bind (attach_engine_log (ft_engine f) d ''electrs'' (fst (ft_container_ids f)) e) (\<lambda>with_electrs.
       attach_engine_log (ft_engine f) d (fc_node_service chain) (snd (ft_container_ids f)) with_electrs)"

section \<open>What the work leaves alone\<close>

text \<open>Requests to the services, and waiting, touch neither the daemon nor the ledger.\<close>

definition apart :: "('d, 'a) fut \<Rightarrow> bool" where
  "apart m \<longleftrightarrow> (\<forall>s r s'. m s = (r, s') \<longrightarrow>
     rt_daemon s' = rt_daemon s \<and> rt_ledger s' = rt_ledger s \<and> rt_mutations s' = rt_mutations s)"

lemma apartD:
  assumes "apart m" and "m s = (r, s')"
  shows "rt_daemon s' = rt_daemon s" "rt_ledger s' = rt_ledger s" "rt_mutations s' = rt_mutations s"
  using assms by (auto simp: apart_def)

named_theorems aside "futures that leave the daemon and the ledger alone"

lemma apart_leads:
  "apart m \<longleftrightarrow> (\<forall>D L M. leads (\<lambda>s. rt_daemon s = D \<and> rt_ledger s = L \<and> rt_mutations s = M) m
     (\<lambda>s. rt_daemon s = D \<and> rt_ledger s = L \<and> rt_mutations s = M))"
  by (auto simp: apart_def leads_def)

lemma apart_return [aside]: "apart (fut_return a)"
  by (simp add: apart_def fut_return_def)

lemma apart_bind [aside]: "apart m \<Longrightarrow> (\<And>a. apart (f a)) \<Longrightarrow> apart (fut_bind m f)"
  unfolding apart_leads by (blast intro: leads_bind)

lemma apart_sum [aside]:
  "(\<And>e. apart (f e)) \<Longrightarrow> (\<And>a. apart (g a)) \<Longrightarrow> apart (case r of Err e \<Rightarrow> f e | Ok a \<Rightarrow> g a)"
  by (auto split: sum.split)

lemma apart_try [aside]: "apart m \<Longrightarrow> (\<And>a. apart (f a)) \<Longrightarrow> apart (fut_try m f)"
  unfolding fut_try_def by (intro aside)

lemma apart_map [aside]: "apart m \<Longrightarrow> apart (fut_map g m)"
  unfolding fut_map_def by (intro aside)

lemma apart_sleep [aside]: "apart (sleep taken)" "apart (\<lambda>s. sleep (pause s) s)"
  by (auto simp: apart_def sleep_def split: if_splits)

lemma apart_race [aside]: "apart m \<Longrightarrow> apart (race t late m)"
  unfolding apart_leads by (auto intro: leads_race simp: limitless_def)

lemma apart_deadline_run [aside]: "apart m \<Longrightarrow> apart (deadline_run d service observation m)"
  unfolding deadline_run_def by (rule apart_race)

lemma apart_client_call [aside]: "apart (client_call m)"
  by (auto simp: apart_def client_call_def split: prod.splits if_splits)

lemma apart_probe [aside]: "apart (probe env host port)"
  using apart_map [OF apart_sleep(1)] by (force simp: apart_def probe_def split: prod.splits)

lemma apart_join [aside]: "apart m1 \<Longrightarrow> apart m2 \<Longrightarrow> apart (fut_join m1 m2)"
  by (fastforce simp: apart_def fut_join_def split: prod.splits)

lemma apart_request_within [aside]: "apart (request_within d service observation g m)"
  unfolding request_within_def by (intro aside)

lemma apart_fund_wallet [aside]:
  "apart (Bitcoin_fund_wallet env client d)" "apart (Liquid_fund_wallet env client' d)"
  unfolding Bitcoin_fund_wallet_def Liquid_fund_wallet_def initial_mining_gate_run_def
  by (intro aside)+

lemma apart_root_client [aside]: "apart (root_client env C root_url d)"
  by (auto simp: apart_def root_client_def fut_try_def fut_bind_def fut_return_def
      split: prod.splits option.splits sum.splits)

lemma apart_waits [aside]:
  "apart (wait_for_root_rpc env chain root d)" "apart (wait_for_sync env client d)"
proof -
  have "apart (root_attempt env chain root d observation)" "apart (sync_attempt env client d observation)"
    for observation
    unfolding root_attempt_def sync_attempt_def observe_heights_def tip_height_def by (intro aside)+
  note attempts = this [unfolded apart_leads, rule_format]
  show "apart (wait_for_root_rpc env chain root d)" "apart (wait_for_sync env client d)"
    unfolding apart_leads wait_for_root_rpc_def wait_for_sync_def
    by (intro allI root.loop_leads sync.loop_leads attempts; simp add: limitless_def)+
qed

section \<open>The work as a run of a startup\<close>

lemma limitless_startup_run [simp]: "limitless (startup_run E names s0 left)"
proof -
  have "startup_run E names s0 left (s\<lparr>rt_limit := l\<rparr>)" if "startup_run E names s0 left s" for s l
    by (rule run_other [OF that]) simp_all
  from this [where l = "rt_limit _"] this show ?thesis
    unfolding limitless_def by (metis runtime.surjective runtime.update_convs(6))
qed

lemma startup_run_fewer: "startup_run E names s0 left s \<Longrightarrow> left' \<subseteq> left \<Longrightarrow> startup_run E names s0 left' s"
  by (rule run_other) simp_all

lemma leads_apart:
  "apart m \<Longrightarrow> left' \<subseteq> left \<Longrightarrow> leads (startup_run E names s0 left) m (startup_run E names s0 left')"
  unfolding apart_def leads_def by (blast intro: run_other)

lemma leads_logs: "leads (startup_run E names s0 left) (logs E i) (startup_run E names s0 left)"
  unfolding leads_def by (blast intro: run_logs)

lemma leads_attach_container_log:
  "leads (startup_run E names s0 left) (attach_container_log E d service i e) (startup_run E names s0 left)"
  unfolding attach_container_log_def by (intro leads_map leads_deadline_run leads_logs) simp_all

lemma leads_create_network:
  "n \<notin> left \<Longrightarrow>
     leads (startup_run E names s0 (insert n left)) (create_network E n) (startup_run E names s0 left)"
  unfolding leads_def by (blast intro: run_network)

lemma leads_start_container:
  "cs_name spec \<notin> left \<Longrightarrow>
     leads (startup_run E names s0 (insert (cs_name spec) left)) (start_container E spec) (startup_run E names s0 left)"
  unfolding leads_def by (blast intro: run_container)

lemma leads_sum:
  "(\<And>e. leads P (f e) Q) \<Longrightarrow> (\<And>a. leads P (g a) Q) \<Longrightarrow>
     leads P (case r of Err e \<Rightarrow> f e | Ok a \<Rightarrow> g a) Q"
  by (auto split: sum.split)

lemma leads_keep: "leads (startup_run E names s0 left) (fut_return a) (startup_run E names s0 left)"
  by (rule leads_return)

lemma leads_start_service:
  assumes "cs_name spec \<notin> left"
  shows "leads (startup_run E names s0 (insert (cs_name spec) left))
    (start_service E d service observation name spec) (startup_run E names s0 left)"
  unfolding start_service_def
  by (rule leads_try [where R = "startup_run E names s0 left"])
    (auto intro!: leads_deadline_run leads_start_container assms leads_map leads_attach_container_log
      leads_keep split: sum.split)

lemma leads_check:
  "(\<And>a. r = Ok a \<Longrightarrow> leads P (f a) Q) \<Longrightarrow> (\<And>s. P s \<Longrightarrow> Q s) \<Longrightarrow> leads P (fut_try (fut_return r) f) Q"
  by (cases r) (auto simp: leads_def fut_try_def fut_bind_def fut_return_def)

text \<open>The names a fixture creates resources under.\<close>

definition fixture_names :: "fixture_builder \<Rightarrow> topology_names \<Rightarrow> string set" where
  "fixture_names b names =
     (if fb_network b = None then insert (tn_network names) {tn_node names, tn_electrs names}
      else {tn_node names, tn_electrs names})"

section \<open>What a chain promises\<close>

locale chain_contract =
  fixes C :: "('u, 'i, 'd) supported_chain"
  assumes funding_timed: "funds_in_time C"
    and funding_reports: "reports (sc_fund_wallet C client d)"
    and funding_apart: "apart (sc_fund_wallet C client d)"
    and own_prefix: "fc_node_name_prefix (sc_chain C) \<notin> {''nigiri-rs-fixture'', ''nigiri-rs-electrs''}"
begin

lemma leads_start_node:
  assumes "name \<notin> left"
  shows "leads (startup_run E names s0 (insert name left))
    (start_node env C E uuid img network name extra d) (startup_run E names s0 left)"
  unfolding start_node_def Let_def
proof (rule leads_check, goal_cases)
  case (1 spec)
  then have name: "cs_name spec = name"
    by (auto simp: node_spec_def result_simps)
  show ?case
    by (rule leads_try [OF leads_start_service [of spec, unfolded name, OF assms]], assumption)
      (intro leads_check leads_try [where R = "startup_run E names s0 left"]
        leads_bind [where R = "startup_run E names s0 left"] leads_sum leads_map
        leads_attach_container_log leads_keep leads_apart [OF _ subset_refl] aside funding_apart; assumption?)
qed (rule startup_run_fewer, auto)

lemma leads_fixture_work:
  assumes names: "tn_node names \<noteq> tn_electrs names"
    "fb_network b = None \<Longrightarrow> tn_network names \<notin> {tn_node names, tn_electrs names}"
  shows "leads (startup_run E used s0 (fixture_names b names))
    (fixture_work env C E uuid b d names) (startup_run E used s0 {})"
proof -
  have network: "leads (startup_run E used s0 (fixture_names b names))
    (create_fixture_network E (fb_network b = None) (tn_network names) d)
    (startup_run E used s0 {tn_node names, tn_electrs names})"
    unfolding create_fixture_network_def fixture_names_def using names(2)
    by (auto intro!: leads_try [where R = "startup_run E used s0 {tn_node names, tn_electrs names}"]
        leads_deadline_run leads_create_network leads_keep)
  have electrs: "leads (startup_run E used s0 {tn_electrs names})
      (start_electrs env (sc_chain C) E img network (tn_electrs names) node_name d)
      (startup_run E used s0 {})" for img network node_name
    unfolding start_electrs_def
  proof (rule leads_check, goal_cases)
    case (1 spec)
    then have name: "cs_name spec = tn_electrs names"
      by (auto simp: electrs_spec_def result_simps)
    show ?case
      by (rule leads_try [OF leads_start_service [of spec, unfolded name]], simp, assumption)
        (intro leads_check leads_keep; assumption?)
  qed (rule startup_run_fewer, auto)
  have serve: "leads (startup_run E used s0 {}) (serve_fixture env C E d names node started)
      (startup_run E used s0 {})" for node started
    unfolding serve_fixture_def attach_both_logs_def Let_def
    by (intro leads_check leads_bind [where R = "startup_run E used s0 {}"] leads_sum leads_map
        leads_attach_container_log leads_keep leads_apart [OF _ subset_refl] aside; assumption?)
  show ?thesis
    unfolding fixture_work_def
  proof (rule leads_try [OF network])
    show "leads (startup_run E used s0 {tn_node names, tn_electrs names})
      (fut_try (start_node env C E uuid (fb_node_image b) (tn_network names) (tn_node names)
          (fb_extra_node_args b) d) (\<lambda>node.
       fut_bind (start_electrs env (sc_chain C) E (fb_electrs_image b) (tn_network names)
          (tn_electrs names) (tn_node names) d) (\<lambda>electrs. case electrs of
            Err e \<Rightarrow> fut_map Err (attach_container_log E d (fc_node_service (sc_chain C))
              (rc_id (sn_container node)) e)
          | Ok electrs \<Rightarrow> serve_fixture env C E d names node electrs)))
      (startup_run E used s0 {})"
      using names(1)
      by (intro leads_try [OF leads_start_node] leads_bind [OF electrs] leads_sum serve leads_map
          leads_attach_container_log) (auto intro: startup_run_fewer)
  qed (rule startup_run_fewer, auto)
qed

text \<open>The names of one scope are distinct, so that the fixture's own resources cannot collide.\<close>

lemma topology_names_distinct:
  fixes scope shared
  defines "names \<equiv> topology_names_on (sc_chain C) scope shared"
  shows "tn_node names \<noteq> tn_electrs names"
    and "shared = None \<Longrightarrow> tn_network names \<notin> {tn_node names, tn_electrs names}"
proof -
  let ?prefix = "fc_node_name_prefix (sc_chain C)"
  have split: "x @ ''-'' @ scope = y @ ''-'' @ scope \<longleftrightarrow> x = y" for x y :: string
    by (simp only: append_same_eq)
  have texts: "''nigiri-rs-electrs-'' @ scope = ''nigiri-rs-electrs'' @ ''-'' @ scope"
    "''nigiri-rs-fixture-'' @ scope = ''nigiri-rs-fixture'' @ ''-'' @ scope"
    by simp_all
  have "?prefix \<noteq> ''nigiri-rs-electrs''" "''nigiri-rs-fixture'' \<noteq> ?prefix"
    using own_prefix by auto
  moreover have "''nigiri-rs-fixture'' \<noteq> ''nigiri-rs-electrs''"
    by simp
  ultimately show "tn_node names \<noteq> tn_electrs names"
    and "shared = None \<Longrightarrow> tn_network names \<notin> {tn_node names, tn_electrs names}"
    unfolding names_def topology_names_on_def topology_names.simps texts insert_iff empty_iff
    by (simp_all only: option.case split, simp_all)
qed

end

interpretation bitcoin: chain_contract "Bitcoin_supported env" for env
  by unfold_locales (rule supported_chains_fund_in_time,
      simp_all add: Bitcoin_supported_def Bitcoin_chain_def reporting aside)

interpretation liquid: chain_contract "Liquid_supported env" for env
  by unfold_locales (rule supported_chains_fund_in_time,
      simp_all add: Liquid_supported_def Liquid_chain_def reporting aside)

section \<open>Clocks and reports of the work\<close>

lemma create_fixture_network_timed:
  "punctual (create_fixture_network E creates name d)" "by_deadline d (create_fixture_network E creates name d)"
  "reports (create_fixture_network E creates name d)"
  unfolding create_fixture_network_def fixture_error_from_def
  by (auto intro!: punctuality by_deadlines reporting runtime_error_reported)

lemma attach_both_logs_timed:
  "punctual (attach_both_logs E d service ids e)" "by_deadline d (attach_both_logs E d service ids e)"
  unfolding attach_both_logs_def by (intro punctuality) (intro by_deadlines)

lemma attach_container_log_reports:
  "well_reported e \<Longrightarrow> attach_container_log E d service i e s = (Some e', s') \<Longrightarrow> well_reported e'"
  by (auto simp: attach_container_log_def fut_map_Some intro: attach_diagnostics_reported)

lemma attach_both_logs_reports:
  assumes "well_reported e" and "attach_both_logs E d service ids e s = (Some e', s')"
  shows "well_reported e'"
  using assms unfolding attach_both_logs_def fut_bind_Some
  by (blast dest: attach_container_log_reports)

lemma serve_fixture_timed:
  "punctual (serve_fixture env C E d names node electrs)"
  "by_deadline d (serve_fixture env C E d names node electrs)"
  unfolding serve_fixture_def Let_def
  by (intro punctuality attach_both_logs_timed) (intro by_deadlines attach_both_logs_timed)

lemma reports_bind_with:
  assumes "reports m" and "\<And>a. reports (k a)"
    and "\<And>e s e' s'. well_reported e \<Longrightarrow> g e s = (Some e', s') \<Longrightarrow> well_reported e'"
  shows "reports (fut_bind m (\<lambda>r. case r of Err e \<Rightarrow> fut_map Err (g e) | Ok a \<Rightarrow> k a))"
  unfolding reports_def
proof (intro allI impI)
  fix s e s'
  assume "fut_bind m (\<lambda>r. case r of Err e \<Rightarrow> fut_map Err (g e) | Ok a \<Rightarrow> k a) s = (Some (Err e), s')"
  then obtain r s1 where first: "m s = (Some r, s1)"
    and second: "(case r of Err e \<Rightarrow> fut_map Err (g e) | Ok a \<Rightarrow> k a) s1 = (Some (Err e), s')"
    unfolding fut_bind_Some by blast
  show "well_reported e"
  proof (cases r)
    case (Inl e0)
    then have "g e0 s1 = (Some e, s')"
      using second by (simp add: fut_map_Some)
    then show ?thesis
      using assms(3) [of e0 s1 e s'] assms(1) first Inl unfolding reports_def by blast
  qed (use assms(2) second in \<open>auto simp: reports_def\<close>)
qed

lemma serve_fixture_reports: "reports (serve_fixture env C E d names node electrs)"
  unfolding serve_fixture_def Let_def
  by (intro reporting reports_bind_with) (rule attach_both_logs_reports)

context chain_contract
begin

lemma fixture_work_timed:
  "punctual (fixture_work env C E uuid b d names)" "by_deadline d (fixture_work env C E uuid b d names)"
  unfolding fixture_work_def
  by (intro punctuality create_fixture_network_timed start_node_timed funding_timed serve_fixture_timed)
    (intro by_deadlines create_fixture_network_timed start_node_timed funding_timed serve_fixture_timed)

lemma fixture_work_reports: "reports (fixture_work env C E uuid b d names)"
  unfolding fixture_work_def
  by (intro reporting create_fixture_network_timed reports_start_node funding_reports
      serve_fixture_reports)

text \<open>What a success of the work rests on.\<close>

lemma fixture_work_Ok:
  assumes "fixture_work env C E uuid b d names s = (Some (Ok (client, names', ids)), s')"
  shows "names' = names \<and> (\<exists>s1. wait_for_sync env client d s1 = (Some (Ok ()), s') \<and> rt_now s \<le> rt_now s1)"
proof -
  obtain s1 node s2 r s3 where
    a: "create_fixture_network E (fb_network b = None) (tn_network names) d s = (Some (Ok ()), s1)"
    and b: "start_node env C E uuid (fb_node_image b) (tn_network names) (tn_node names)
        (fb_extra_node_args b) d s1 = (Some (Ok node), s2)"
    and c: "start_electrs env (sc_chain C) E (fb_electrs_image b) (tn_network names)
        (tn_electrs names) (tn_node names) d s2 = (Some r, s3)"
    and rest: "(case r of
          Err e \<Rightarrow> fut_map Err (attach_container_log E d (fc_node_service (sc_chain C))
            (rc_id (sn_container node)) e)
        | Ok electrs \<Rightarrow> serve_fixture env C E d names node electrs) s3
      = (Some (Ok (client, names', ids)), s')"
    using assms unfolding fixture_work_def fut_try_Some fut_bind_Some by auto
  have later: "rt_now s \<le> rt_now s3"
    using punctualD(1) [OF create_fixture_network_timed(1) a]
      punctualD(1) [OF start_node_timed(1) [OF funding_timed] b] punctualD(1) [OF start_electrs_timed(1) c]
    by simp
  obtain electrs where serve: "serve_fixture env C E d names node electrs s3
      = (Some (Ok (client, names', ids)), s')"
    using rest by (cases r) (auto simp: fut_map_Some)
  obtain client' s4 q where "wait_for_sync env client' d s3 = (Some q, s4)"
    and "(case q of Err not_ready \<Rightarrow> fut_map Err (attach_both_logs E d (fc_node_service (sc_chain C))
          (rc_id (se_container electrs), rc_id (sn_container node)) not_ready)
        | Ok _ \<Rightarrow> fut_return (Ok (client', names, (rc_id (se_container electrs), rc_id (sn_container node))))) s4
      = (Some (Ok (client, names', ids)), s')"
    using serve unfolding serve_fixture_def Let_def fut_try_Some fut_bind_Some by auto
  then show ?thesis
    using later by (cases q) (auto simp: fut_map_Some)
qed

end


section \<open>The supervised start\<close>

lemma apart_connect_engine: "apart (connect_engine sw chain b d)"
proof -
  have "apart (connect_engine_at sw chain b d now)" for now
    unfolding connect_engine_at_def by (intro aside)
  then show ?thesis
    unfolding apart_def connect_engine_def by blast
qed

lemma reports_connect_engine: "reports (connect_engine sw chain b d)"
proof -
  have "reports (fut_return (remaining_or_expired d now service observation))" for now service observation
    by (rule reports_return) (auto simp: remaining_or_expired_def split: if_splits)
  moreover have "reports (fut_return (image_validate img))" for img
    by (rule reports_return) (auto dest: image_validate_Err)
  ultimately have "reports (connect_engine_at sw chain b d now)" for now
    unfolding connect_engine_at_def
    by (intro reports_try reports_deadline_run reports_map_err runtime_error_reported)
  then show ?thesis
    unfolding reports_def connect_engine_def by blast
qed

lemma connect_engine_Ok:
  "connect_engine sw chain b d s = (Some (Ok E), s1) \<Longrightarrow> sw_connected sw = Ok E"
  unfolding connect_engine_def connect_engine_at_def fut_try_Some
  by (auto simp: fut_map_Some result_simps deadline_run_def race_def Let_def
      split: prod.splits option.splits if_splits dest!: sym [of "Ok _"])

text \<open>An error of a supervised start is the engine's, a cancellation's, or the work's own.\<close>

lemma supervise_with_wait_Err:
  assumes "supervise_with_wait E from_engine wait failure listens work s = (Err e, events, s')"
  shows "(\<exists>x. e = from_engine x)
    \<or> (\<exists>l s1. work (s\<lparr>rt_limit := l\<rparr>) = (Some (Ok (Err e)), s1))"
  using assms
  by (auto simp: supervise_with_wait_def supervisor_thread_def Let_def race_def
      split: option.splits prod.splits sum.splits if_splits)

lemma supervise_with_wait_Ok:
  assumes "supervise_with_wait E from_engine wait failure listens work s = (Ok v, events, s')"
  shows "\<exists>s1. work (s\<lparr>rt_limit := earlier_limit (rt_limit s) (rt_cancel_at s)\<rparr>) = (Some (Ok (Ok v)), s1)"
  using assms
  by (auto simp: supervise_with_wait_def supervisor_thread_def Let_def race_def
      split: option.splits prod.splits sum.splits if_splits)

lemma fixture_work_uses_startup:
  assumes "chain_contract C"
  shows "uses_startup E (fixture_names b (topology_names_on (sc_chain C) scope (fb_network b)))
    (fut_map Ok (fixture_work env C E uuid b d (topology_names_on (sc_chain C) scope (fb_network b)))) s"
proof -
  let ?names = "topology_names_on (sc_chain C) scope (fb_network b)"
  have leads: "leads (startup_run E (fixture_names b ?names) s (fixture_names b ?names))
      (fut_map Ok (fixture_work env C E uuid b d ?names)) (startup_run E (fixture_names b ?names) s {})"
    by (intro leads_map chain_contract.leads_fixture_work [OF assms]
        chain_contract.topology_names_distinct [OF assms])
  show ?thesis
    unfolding uses_startup_def
  proof
    fix l
    have "startup_run E (fixture_names b ?names) s (fixture_names b ?names) (s\<lparr>rt_limit := l\<rparr>)"
      by (rule run_other [OF run_start]) simp_all
    then show "startup_run E (fixture_names b ?names) s {}
        (snd (fut_map Ok (fixture_work env C E uuid b d ?names) (s\<lparr>rt_limit := l\<rparr>)))"
      by (rule leadsD [OF leads _ prod.collapse [symmetric]])
  qed
qed

section \<open>Properties\<close>




section \<open>Witnesses\<close>

definition example_builder :: fixture_builder where
  "example_builder = \<lparr>fb_startup_timeout = from_secs 1, fb_node_image = ContainerImage_new ''node'' ''v1'',
     fb_electrs_image = ContainerImage_new ''electrs'' ''v1'', fb_extra_node_args = [], fb_network = None\<rparr>"

definition example_start_world :: "held list start_world" where
  "example_start_world = \<lparr>sw_scope = ''1'', sw_wallet_uuid = ''2'', sw_labels = [],
     sw_connected = Ok example_engine, sw_connecting = 1, sw_runtime_failure = None, sw_listens = True\<rparr>"

definition example_deadline :: deadline where
  "example_deadline = \<lparr>dl_expires_at = 5, dl_duration = from_secs 1\<rparr>"




end
