(* ===== verification/Fix_Composite.thy ===== *)
theory Fix_Composite
  imports Fix_Fixture
begin

text \<open>
  What the two composites of \<open>nigiri-rs-fixtures\<close> share: a supervised startup seen from a
  coordinator, which holds what the startup owns until it releases it, the coordinator of
  \<open>runtime/supervisor.rs\<close> itself, and a fixture started for a coordinator (\<open>fixture.rs\<close>).
\<close>

section \<open>Startups that a coordinator holds\<close>

text \<open>
  What a supervisor's thread keeps while its value is in use: its ledger, the creations still under
  way, and its labels. The \<open>RuntimeHandle\<close> is the right to have it cleaned up, by \<open>shutdown\<close> or by
  \<open>Drop\<close>, both of which wait for the cleanup.
\<close>

record owned_startup =
  os_ledger :: resource_ledger
  os_mutations :: "mutation list"
  os_labels :: labels

definition own_start :: "labels \<Rightarrow> 'd runtime \<Rightarrow> 'd runtime" where
  "own_start ls s = s\<lparr>rt_ledger := [], rt_mutations := [], rt_labels := ls, rt_limit := None,
     rt_cancel_at := rt_limit s\<rparr>"

definition resume :: "'d runtime \<Rightarrow> 'd runtime \<Rightarrow> 'd runtime" where
  "resume s s' = s'\<lparr>rt_ledger := rt_ledger s, rt_mutations := rt_mutations s, rt_labels := rt_labels s,
     rt_limit := rt_limit s, rt_cancel_at := rt_cancel_at s\<rparr>"

definition owned_by :: "'d runtime \<Rightarrow> owned_startup" where
  "owned_by s = \<lparr>os_ledger = rt_ledger s, os_mutations = rt_mutations s, os_labels = rt_labels s\<rparr>"

definition holding :: "owned_startup \<Rightarrow> 'd runtime \<Rightarrow> 'd runtime" where
  "holding o' s = s\<lparr>rt_ledger := os_ledger o', rt_mutations := os_mutations o', rt_labels := os_labels o'\<rparr>"

definition release ::
  "'d container_engine \<Rightarrow> owned_startup \<Rightarrow> 'd runtime \<Rightarrow> (engine_error + unit) \<times> 'd runtime"
where
  "release E o' s = (let (r, s') = cleanup E (holding o' s) in (r, resume s s'))"

text \<open>An answer that comes at the given moment, or the drop of a future that did not wait for it.\<close>

definition answer_at :: "'a \<Rightarrow> 'd runtime \<Rightarrow> 'd runtime \<Rightarrow> 'a option \<times> 'd runtime" where
  "answer_at a s s' = (if in_time s (rt_now s' - rt_now s) then Some a else None, resume s s')"

text \<open>
  \<open>supervise_for_coordinator\<close>: the caller is dropped at its limit, which cancels the work, and the
  drop waits for the thread. A failure is published after the cleanup.
\<close>

definition supervise_for_coordinator ::
  "'d container_engine \<Rightarrow> (engine_error \<Rightarrow> 'x) \<Rightarrow> labels \<Rightarrow> engine_source option
     \<Rightarrow> ('d, string + ('x + 't)) fut \<Rightarrow> ('d, 'x + ('t \<times> owned_startup)) fut"
where
  "supervise_for_coordinator E from_engine ls failure work s =
     (case failure of
        Some source \<Rightarrow> (Some (Err (from_engine (EngineError_new ''start fixture supervisor'' source))), s)
      | None \<Rightarrow>
          (let (outcome, s1) = race (rt_limit s) (from_engine cancelled_error) work (own_start ls s)
           in case outcome of
                Some (Ok (Ok (Ok v))) \<Rightarrow> (Some (Ok (v, owned_by s1)), resume s s1)
              | Some (Ok (Ok (Err e))) \<Rightarrow> answer_at (Err e) s (snd (cleanup E s1))
              | Some (Ok (Err message)) \<Rightarrow> answer_at (Err (from_engine
                   (EngineError_new ''run fixture startup'' (IoSource IoOther message)))) s (snd (cleanup E s1))
              | Some (Err e) \<Rightarrow> (None, resume s (snd (cleanup E s1)))
              | None \<Rightarrow> (None, resume s (snd (cleanup E s1)))))"

section \<open>The coordinator\<close>

text \<open>
  \<open>coordinate_startup\<close>, with the handoff of \<open>Fix_Supervisor\<close> at its end: the value goes to the
  caller when the caller still waits, else the coordinator drops it (\<open>discard\<close>). The work has a
  thread of its own, which no limit drops; the caller's drop is its cancellation. The state is the
  one in which the thread has ended, also for a caller that detached from it.
\<close>

definition coordinate_startup ::
  "(engine_error \<Rightarrow> 'x) \<Rightarrow> engine_source option \<Rightarrow> ('t \<Rightarrow> 'd runtime \<Rightarrow> 'd runtime)
     \<Rightarrow> ('d, string + ('x + 't)) fut \<Rightarrow> ('d, 'x + 't) fut"
where
  "coordinate_startup from_engine failure discard work s =
     (case failure of
        Some source \<Rightarrow> (Some (Err (from_engine (EngineError_new ''start composite coordinator'' source))), s)
      | None \<Rightarrow>
          (let (outcome, s1) = work (s\<lparr>rt_limit := None, rt_cancel_at := rt_limit s\<rparr>)
           in case outcome of
                Some (Ok (Ok v)) \<Rightarrow>
                  if in_time s (rt_now s1 - rt_now s) then (Some (Ok v), resume s s1)
                  else (None, resume s (discard v s1))
              | Some (Ok (Err e)) \<Rightarrow> answer_at (Err e) s s1
              | Some (Err message) \<Rightarrow> answer_at (Err (from_engine
                   (EngineError_new ''run composite startup'' (IoSource IoOther message)))) s s1
              | None \<Rightarrow> (None, resume s s1)))"

text \<open>\<open>select!\<close> with \<open>CoordinatorCancellation::cancelled\<close>, the operation first.\<close>

definition until_cancelled :: "string \<Rightarrow> ('d, fixture_error + 'a) fut \<Rightarrow> ('d, fixture_error + 'a) fut" where
  "until_cancelled resource m s =
     fut_try (race (rt_cancel_at s) (cancelled_startup_error resource) m) fut_return s"

text \<open>\<open>deadline.run(..).await??\<close>\<close>

definition run_flat ::
  "deadline \<Rightarrow> string \<Rightarrow> string \<Rightarrow> ('d, fixture_error + 'a) fut \<Rightarrow> ('d, fixture_error + 'a) fut"
where
  "run_flat d service observation m = fut_try (deadline_run d service observation m) fut_return"

text \<open>The images of a composite, in order, before anything is started.\<close>

definition validate_images :: "container_image list \<Rightarrow> fixture_error + unit" where
  "validate_images imgs = map_ok (\<lambda>_. ()) (try_map image_validate imgs)"

section \<open>Fixtures of a composite\<close>

record ('u, 'i, 'd) running_fixture =
  rf_fixture :: "('u, 'i, 'd) fixture"
  rf_owned :: owned_startup

text \<open>\<open>start_under_with_owner\<close> with \<open>FixtureStartupOwner::CompositeCoordinator\<close>.\<close>

definition start_for_coordinator ::
  "fixture_env \<Rightarrow> ('u, 'i, 'd) supported_chain \<Rightarrow> 'd start_world \<Rightarrow> fixture_builder \<Rightarrow> deadline
     \<Rightarrow> ('d, fixture_error + ('u, 'i, 'd) running_fixture) fut"
where
  "start_for_coordinator env C sw b d =
     fut_try (connect_engine sw (sc_chain C) b d) (\<lambda>E.
     fut_map (map_ok (\<lambda>((client, names, ids), o').
         \<lparr>rf_fixture = \<lparr>ft_engine = E, ft_client = client, ft_names = names, ft_container_ids = ids\<rparr>,
          rf_owned = o'\<rparr>))
       (supervise_for_coordinator E fixture_error_from (sw_labels sw) (sw_runtime_failure sw)
         (fut_map Ok (fixture_work env C E (sw_wallet_uuid sw) b d
           (topology_names_on (sc_chain C) (sw_scope sw) (fb_network b))))))"

definition release_fixture ::
  "('u, 'i, 'd) running_fixture \<Rightarrow> 'd runtime \<Rightarrow> (fixture_error + unit) \<times> 'd runtime"
where
  "release_fixture f s =
     (let (r, s') = release (ft_engine (rf_fixture f)) (rf_owned f) s
      in (Fixture_shutdown (Some r) False, s'))"

definition drop_fixture :: "('u, 'i, 'd) running_fixture \<Rightarrow> 'd runtime \<Rightarrow> 'd runtime" where
  "drop_fixture f s = snd (release_fixture f s)"

section \<open>What remains after a release\<close>

lemma resume_simps [simp]:
  "rt_daemon (resume s s') = rt_daemon s'" "rt_ledger (resume s s') = rt_ledger s"
  "rt_mutations (resume s s') = rt_mutations s" "rt_limit (resume s s') = rt_limit s"
  "rt_cancel_at (resume s s') = rt_cancel_at s" "rt_now (resume s s') = rt_now s'"
  by (simp_all add: resume_def rt_now_def)

lemma holding_simps [simp]:
  "rt_daemon (holding o' s) = rt_daemon s" "rt_ledger (holding o' s) = os_ledger o'"
  "rt_mutations (holding o' s) = os_mutations o'"
  by (simp_all add: holding_def)

lemma own_start_simps [simp]:
  "rt_daemon (own_start ls s) = rt_daemon s" "rt_ledger (own_start ls s) = []"
  "rt_mutations (own_start ls s) = []" "rt_cancel_at (own_start ls s) = rt_limit s"
  by (simp_all add: own_start_def)

lemma owned_by_simps [simp]:
  "os_ledger (owned_by s) = rt_ledger s" "os_mutations (owned_by s) = rt_mutations s"
  by (simp_all add: owned_by_def)

text \<open>What a startup owns depends on the daemon only through what it holds.\<close>

lemma owning_cong:
  "held (rt_daemon s') = held (rt_daemon s) \<Longrightarrow> rt_ledger s' = rt_ledger s \<Longrightarrow> rt_mutations s' = rt_mutations s \<Longrightarrow>
     owning held base names s' = owning held base names s"
  by (simp add: owning_def owned_def)

text \<open>A startup keeps off the names that are set aside for another.\<close>

lemma startup_run_left: "startup_run E names s left s' \<Longrightarrow> left \<subseteq> names"
  by (induction rule: startup_run.induct) auto

lemma startup_run_frame:
  assumes "startup_run E names s left s'" and "names \<inter> keep = {}"
  shows "startup_run E (names \<union> keep) s (left \<union> keep) s'"
  using assms(1)
proof (induction rule: startup_run.induct)
  case (run_network n left s1 r s2)
  then have "n \<notin> left \<union> keep"
    using startup_run_left [OF run_network(1)] assms(2) by auto
  then show ?case
    using run_network by (auto intro: startup_run.run_network)
next
  case (run_container spec left s1 rc s2)
  then have "cs_name spec \<notin> left \<union> keep"
    using startup_run_left [OF run_container(1)] assms(2) by auto
  then show ?case
    using run_container by (auto intro: startup_run.run_container)
next
  case (run_pair first second left s1 rp s2)
  then have "cs_name first \<notin> insert (cs_name second) (left \<union> keep)" "cs_name second \<notin> left \<union> keep"
    using startup_run_left [OF run_pair(1)] assms(2) by auto
  then show ?case
    using run_pair by (auto intro: startup_run.run_pair)
next
  case (run_other left s1 s2 left')
  then show ?case
    by (auto intro: startup_run.run_other)
qed (auto intro: run_start startup_run.run_logs startup_run.run_file)

text \<open>
  Docker generates identifiers of its own, never the names of this library, and a daemon that works
  answers every removal.
\<close>

locale reliable_daemon = docker_daemon docker held for docker :: "'d docker" and held :: "'d \<Rightarrow> held set" +
  assumes generated_ids: "h \<in> held d \<Longrightarrow> \<not> prefix ''nigiri-rs-'' (h_id h)"
    and container_removed: "dk_remove_container docker key d = (r, d', t) \<Longrightarrow>
      r = Ok () \<or> (\<exists>e. r = Err e \<and> is_not_found e)"
    and network_removed: "dk_remove_network docker key d = (r, d', t) \<Longrightarrow>
      r = Ok () \<or> (\<exists>e. r = Err e \<and> is_not_found e)"
begin

lemma remove_all_Ok:
  "fst (remove_all (BollardEngine tar docker host) rs None s) = None"
proof (induction rs arbitrary: s)
  case (Cons r rs)
  obtain q d' t where q: "remove_resource (BollardEngine tar docker host) r (rt_daemon s) = (q, d', t)"
    by (metis prod_cases3)
  then have "q = Ok ()"
    using container_removed network_removed
    by (cases r) (auto simp: remove_resource_def BollardEngine_def bollard_remove_container_def
        bollard_remove_network_def removed_Ok split: prod.splits)
  then show ?case
    using Cons by (simp add: q)
qed simp

lemma cleanup_Ok: "fst (cleanup (BollardEngine tar docker host) s) = Ok ()"
  using remove_all_Ok [of tar host] by (auto simp: cleanup_def Let_def take_cleanup_order_def split_beta)

lemma release_leaves:
  assumes "owning held base keep (holding o' s)"
    and "release (BollardEngine tar docker host) o' s = (r, s')"
  shows "r = Ok () \<and> held (rt_daemon s') = base"
  using assms(2) bollard.cleanup_effect(2) [OF assms(1) prod.collapse [symmetric], of tar host]
    cleanup_Ok [of tar host "holding o' s"]
  by (auto simp: release_def Let_def split: prod.splits)

lemma supervised_leaves:
  assumes run: "supervise_for_coordinator (BollardEngine tar docker host) from_engine ls failure work s = (r, s')"
    and work: "uses_startup (BollardEngine tar docker host) names work (own_start ls s)"
    and fresh: "\<forall>n \<in> names \<union> keep. \<forall>h \<in> held (rt_daemon s). \<not> addresses n h" "names \<inter> keep = {}"
  shows "(\<exists>v o'. r = Some (Ok (v, o')) \<and> owning held (held (rt_daemon s)) keep (holding o' s'))
    \<or> (\<nexists>a. r = Some (Ok a)) \<and> held (rt_daemon s') = held (rt_daemon s)"
proof (cases failure)
  case None
  let ?E = "BollardEngine tar docker host"
  obtain q s1 where race: "race (rt_limit s) (from_engine cancelled_error) work (own_start ls s) = (q, s1)"
    by fastforce
  have "startup_run ?E (names \<union> keep) (own_start ls s) ({} \<union> keep) s1"
    by (rule startup_run_frame [OF race_uses_startup [OF work race] fresh(2)])
  moreover have "owning held (held (rt_daemon s)) (names \<union> keep) (own_start ls s)"
    using owning_initially [of "own_start ls s" "names \<union> keep"] fresh(1) by simp
  ultimately have owning: "owning held (held (rt_daemon s)) keep s1"
    using bollard.startup_run_owned [of tar host "names \<union> keep" "own_start ls s" "{} \<union> keep" s1] by simp
  have cleaned: "held (rt_daemon (snd (cleanup ?E s1))) = held (rt_daemon s)"
    using bollard.cleanup_effect(2) [OF owning prod.collapse [symmetric]] cleanup_Ok by blast
  have held: "owning held (held (rt_daemon s)) keep (holding (owned_by s1) (resume s s1))"
    using owning by (simp add: owning_cong [of held "holding (owned_by s1) (resume s s1)" s1])
  show ?thesis
  proof (cases "\<exists>v. q = Some (Ok (Ok (Ok v)))")
    case True
    then show ?thesis
      using run None race held by (auto simp: supervise_for_coordinator_def)
  next
    case False
    consider "q = None" | e where "q = Some (Err e)" | m where "q = Some (Ok (Err m))"
      | e where "q = Some (Ok (Ok (Err e)))"
      using False by (metis option.exhaust sum.exhaust)
    then have "(\<exists>x. answer_at (Err x) s (snd (cleanup ?E s1)) = (r, s'))
        \<or> r = None \<and> rt_daemon s' = rt_daemon (snd (cleanup ?E s1))"
      by cases (use run None race in \<open>auto simp: supervise_for_coordinator_def\<close>)
    then have "(\<nexists>a. r = Some (Ok a)) \<and> rt_daemon s' = rt_daemon (snd (cleanup ?E s1))"
      by (auto simp: answer_at_def split: if_splits)
    then show ?thesis
      using cleaned by simp
  qed
qed (use run in \<open>auto simp: supervise_for_coordinator_def Let_def\<close>)

text \<open>A fixture started for a coordinator is owned from then on, or has left nothing.\<close>

lemma started_fixture_owned:
  assumes run: "start_for_coordinator env C sw b d s = (r, s')"
    and C: "chain_contract C" and engine: "sw_connected sw = Ok (BollardEngine tar docker host)"
    and names: "names = fixture_names b (topology_names_on (sc_chain C) (sw_scope sw) (fb_network b))"
    and fresh: "\<forall>n \<in> names \<union> keep. \<forall>h \<in> held (rt_daemon s). \<not> addresses n h" "names \<inter> keep = {}"
  shows "(\<exists>f. r = Some (Ok f) \<and> ft_engine (rf_fixture f) = BollardEngine tar docker host
      \<and> owning held (held (rt_daemon s)) keep (holding (rf_owned f) s'))
    \<or> (\<nexists>a. r = Some (Ok a)) \<and> held (rt_daemon s') = held (rt_daemon s)"
proof -
  let ?E = "BollardEngine tar docker host"
  let ?names = "topology_names_on (sc_chain C) (sw_scope sw) (fb_network b)"
  let ?work = "fut_map Ok (fixture_work env C ?E (sw_wallet_uuid sw) b d ?names)"
  obtain q s1 where connect: "connect_engine sw (sc_chain C) b d s = (q, s1)"
    by fastforce
  then have same: "rt_daemon s1 = rt_daemon s"
    by (rule apartD(1) [OF apart_connect_engine])
  consider "\<nexists>E. q = Some (Ok E)" | "q = Some (Ok ?E)"
    using connect_engine_Ok connect engine by fastforce
  then show ?thesis
  proof cases
    case 1
    then show ?thesis
      using run connect same
      by (auto simp: start_for_coordinator_def fut_try_def fut_bind_def fut_return_def
          split: option.splits sum.splits)
  next
    case 2
    obtain p s2 where supervised: "supervise_for_coordinator ?E fixture_error_from (sw_labels sw)
        (sw_runtime_failure sw) ?work s1 = (p, s2)"
      by fastforce
    have uses: "uses_startup ?E names ?work (own_start (sw_labels sw) s1)"
      unfolding names by (rule fixture_work_uses_startup [OF C])
    have fresh1: "\<forall>n \<in> names \<union> keep. \<forall>h \<in> held (rt_daemon s1). \<not> addresses n h"
      using fresh(1) same by simp
    have "s' = s2 \<and> r = map_option (map_ok (\<lambda>((client, names, ids), o').
        \<lparr>rf_fixture = \<lparr>ft_engine = ?E, ft_client = client, ft_names = names, ft_container_ids = ids\<rparr>,
         rf_owned = o'\<rparr>)) p"
      using run connect 2 supervised
      by (auto simp: start_for_coordinator_def fut_try_def fut_bind_def fut_return_def fut_map_def
          split: option.splits)
    then show ?thesis
      using supervised_leaves [OF supervised uses fresh1 fresh(2)] same
      by (auto simp: result_simps split: option.splits)
  qed
qed

lemma released_fixture_leaves:
  assumes "owning held base keep (holding (rf_owned f) s)"
    and "ft_engine (rf_fixture f) = BollardEngine tar docker host"
  shows "held (rt_daemon (drop_fixture f s)) = base" "fst (release_fixture f s) = Ok ()"
  using release_leaves [OF assms(1) prod.collapse [symmetric], of tar host] assms(2)
  by (auto simp: drop_fixture_def release_fixture_def Fixture_shutdown_def runtime_shutdown_def
      result_simps split: prod.splits)

end

text \<open>The daemon of \<open>Fix_Engine\<close>, seen through the resources whose identifiers it generated.\<close>

definition generated :: "held list \<Rightarrow> held set" where
  "generated hs = {h \<in> set hs. prefix ''f'' (h_id h)}"

interpretation example_reliable: reliable_daemon example_docker generated
proof unfold_locales
  fix hs h
  assume "h \<in> generated hs"
  then show "\<not> prefix ''nigiri-rs-'' (h_id h)"
    by (cases "h_id h") (auto simp: generated_def)
qed (use fresh_id_fresh in \<open>auto simp: example_docker_def example_remove_def is_container_def Let_def
    filter_empty_conv addresses_def generated_def is_not_found_def fresh_id_def split: held.splits if_splits\<close>)

end
