(* ===== verification/Core_Peg.thy ===== *)
theory Core_Peg
  imports Core_Rpc
begin

text \<open>
  \<open>peg.rs\<close> and \<open>peg/output.rs\<close> of the crate \<open>nigiri-rs-core\<close>: a Bitcoin and Liquid pair,
  the peg-in protocol with its bounded retries, and the simulated federation that decodes a peg-out
  and pays it. The script parser, hex decoding and address derivation of the \<open>bitcoin\<close> crate
  are the record \<open>script_lib\<close>.
\<close>

datatype script_instruction = Op u8 | PushBytes string

record script_lib =
  sl_from_hex :: "string \<Rightarrow> string option"
  sl_instructions :: "string \<Rightarrow> (unit + script_instruction) list"
  sl_block_hash :: "string \<Rightarrow> string"
  sl_address_from_script :: "string \<Rightarrow> string option"

section \<open>A peg-out script\<close>

record peg_out_target =
  pt_parent_genesis :: string
  pt_destination :: string

definition OP_RETURN :: u8 where
  "OP_RETURN = 0x6a"

definition decode_peg_out_script :: "script_lib \<Rightarrow> string \<Rightarrow> string + peg_out_target" where
  "decode_peg_out_script s script =
     (case sl_instructions s script of
        Ok (Op opcode) # rest1 \<Rightarrow>
          (if opcode \<noteq> OP_RETURN then Err ''script does not begin with OP_RETURN''
           else case rest1 of
             Ok (PushBytes genesis) # rest2 \<Rightarrow>
               (if length genesis \<noteq> 32 then Err ''expected a 32-byte parent genesis hash push''
                else case rest2 of
                  Ok (PushBytes destination) # _ \<Rightarrow>
                    (if destination = [] then Err ''expected a non-empty destination script push''
                     else Ok \<lparr>pt_parent_genesis = sl_block_hash s genesis,
                              pt_destination = destination\<rparr>)
                | _ \<Rightarrow> Err ''expected a non-empty destination script push'')
           | _ \<Rightarrow> Err ''expected a 32-byte parent genesis hash push'')
      | _ \<Rightarrow> Err ''script does not begin with OP_RETURN'')"

section \<open>The pair\<close>

record ('u, 'i, 'v, 'j) peg =
  pg_bitcoin :: "('u, 'i) nigiri_client"
  pg_liquid :: "('v, 'j) nigiri_client"
  pg_parent_genesis :: string
  pg_pegin_confirmation_depth :: u64
  pg_pegged_asset :: string

record side_chain_info =
  si_parent_blockhash :: string
  si_pegin_confirmation_depth :: u64
  si_pegged_asset :: string

definition decode_side_chain_info :: "chain_lib \<Rightarrow> json \<Rightarrow> side_chain_info option" where
  "decode_side_chain_info lib j =
     Option.bind (struct_fields [''parent_blockhash'', ''pegin_confirmation_depth'',
         ''pegged_asset''] j)
       (\<lambda>fs. Option.bind (required (from_string (bitcoin_block_hash lib)) (fs ! 0)) (\<lambda>parent.
        Option.bind (required decode_u64 (fs ! 1)) (\<lambda>depth.
        Option.bind (required (from_string (elements_asset lib)) (fs ! 2)) (\<lambda>asset.
          Some \<lparr>si_parent_blockhash = parent, si_pegin_confirmation_depth = depth,
                si_pegged_asset = asset\<rparr>))))"

definition Peg_connect ::
  "externals \<Rightarrow> ('u, 'i) nigiri_client \<Rightarrow> ('v, 'j) nigiri_client \<Rightarrow> ('u, 'i, 'v, 'j) peg io"
where
  "Peg_connect x bitcoin liquid =
     io_bind (rpc x liquid ''getsidechaininfo'' (Some JNull) (decode_side_chain_info (x_lib x))) (\<lambda>info.
     io_bind (rpc x bitcoin ''getblockhash'' (Some (JArray [JNumber ''0'']))
                (from_string (bitcoin_block_hash (x_lib x)))) (\<lambda>genesis.
       io_lift (if si_parent_blockhash info \<noteq> genesis
         then Err (PegNotConfigured (''the Liquid node's parent chain is ''
                @ si_parent_blockhash info @ '' but the Bitcoin node's genesis is '' @ genesis))
         else Ok \<lparr>pg_bitcoin = bitcoin, pg_liquid = liquid, pg_parent_genesis = genesis,
           pg_pegin_confirmation_depth = si_pegin_confirmation_depth info,
           pg_pegged_asset = si_pegged_asset info\<rparr>)))"

section \<open>Peg-in\<close>

definition CLAIM_RETRY_BLOCKS :: nat where
  "CLAIM_RETRY_BLOCKS = 20"

fun worth_retrying :: "nigiri_error \<Rightarrow> bool" where
  "worth_retrying (PegInImmature have_depth need) = True"
| "worth_retrying (RpcFailed method code message) =
     (code = - 8 \<and> method = ''claimpegin''
      \<and> message = ''Peg-in Bitcoin transaction needs more confirmations to be sent.'')"
| "worth_retrying e = False"

record peg_in_request =
  pi_mainchain_address :: string
  pi_claim_script :: string

record peg_in =
  pn_mainchain_txid :: string
  pn_claim_txid :: string
  pn_amount :: u64

definition decode_peg_in_address :: "json \<Rightarrow> peg_in_request option" where
  "decode_peg_in_address j =
     Option.bind (struct_fields [''mainchain_address'', ''claim_script''] j)
       (\<lambda>fs. Option.bind (required decode_string (fs ! 0)) (\<lambda>address.
        Option.bind (required decode_string (fs ! 1)) (\<lambda>script.
          Some \<lparr>pi_mainchain_address = address, pi_claim_script = script\<rparr>)))"

definition peg_in_request_for ::
  "externals \<Rightarrow> ('u, 'i, 'v, 'j) peg \<Rightarrow> peg_in_request io"
where
  "peg_in_request_for x p =
     io_bind (rpc x (pg_liquid p) ''getpeginaddress'' (Some JNull) decode_peg_in_address) (\<lambda>issued.
       io_lift (and_then (ok_or (bitcoin_address (x_lib x) (pi_mainchain_address issued))
           (NInvalidResponse ''peg-in address'' ''expected a Bitcoin address'')) (\<lambda>address.
         if bitcoin_is_regtest (x_lib x) address
         then Ok \<lparr>pi_mainchain_address = address, pi_claim_script = pi_claim_script issued\<rparr>
         else Err (NInvalidResponse ''peg-in address'' ''expected a regtest Bitcoin address''))))"

record mainchain_transaction =
  mt_hex :: string
  mt_confirmations :: u64

definition decode_mainchain_transaction :: "json \<Rightarrow> mainchain_transaction option" where
  "decode_mainchain_transaction j =
     Option.bind (struct_fields [''hex'', ''confirmations''] j)
       (\<lambda>fs. Option.bind (required decode_string (fs ! 0)) (\<lambda>hex.
        Option.bind (defaulted 0 decode_u64 (fs ! 1)) (\<lambda>confirmations.
          Some \<lparr>mt_hex = hex, mt_confirmations = confirmations\<rparr>)))"

definition fetch_matured_deposit ::
  "externals \<Rightarrow> ('u, 'i, 'v, 'j) peg \<Rightarrow> string \<Rightarrow> (string \<times> string) io"
where
  "fetch_matured_deposit x p txid =
     io_bind (rpc x (pg_bitcoin p) ''getrawtransaction''
                (Some (JArray [JString txid, JBool True])) decode_mainchain_transaction) (\<lambda>deposit.
     if mt_confirmations deposit < pg_pegin_confirmation_depth p
     then io_lift (Err (PegInImmature (mt_confirmations deposit) (pg_pegin_confirmation_depth p)))
     else io_bind (rpc x (pg_bitcoin p) ''gettxoutproof''
                     (Some (JArray [JArray [JString txid]])) decode_string) (\<lambda>proof.
          io_return (mt_hex deposit, proof)))"

definition submit_claim :: "externals \<Rightarrow> ('u, 'i, 'v, 'j) peg \<Rightarrow> string \<Rightarrow> string \<Rightarrow> string io" where
  "submit_claim x p hex proof =
     rpc x (pg_liquid p) ''claimpegin'' (Some (JArray [JString hex, JString proof]))
       (from_string (elements_txid (x_lib x)))"

definition claim_peg_in :: "externals \<Rightarrow> ('u, 'i, 'v, 'j) peg \<Rightarrow> string \<Rightarrow> string io" where
  "claim_peg_in x p mainchain_txid =
     io_bind (fetch_matured_deposit x p mainchain_txid) (\<lambda>(hex, proof). submit_claim x p hex proof)"

text \<open>
  The loop over attempts: how many remain, whether this is the first, and the last rejection. Its
  value is \<open>None\<close> if the final \<open>expect\<close> panics.
\<close>

fun claim_loop ::
  "externals \<Rightarrow> ('u, 'i, 'v, 'j) peg \<Rightarrow> string \<Rightarrow> string \<Rightarrow> string \<Rightarrow> nat \<Rightarrow> bool \<Rightarrow> nigiri_error option
     \<Rightarrow> world \<Rightarrow> (nigiri_error + string) option \<times> world"
where
  "claim_loop x p mining_address hex proof 0 first latest w = (map_option Err latest, w)"
| "claim_loop x p mining_address hex proof (Suc remaining) first latest w =
     (case (if first then (Ok [], w)
            else generate_to_address x (pg_bitcoin p) 1 mining_address w) of
        (Err e, w1) \<Rightarrow> (Some (Err e), w1)
      | (Ok _, w1) \<Rightarrow>
          (case submit_claim x p hex proof w1 of
             (Ok txid, w2) \<Rightarrow> (Some (Ok txid), w2)
           | (Err e, w2) \<Rightarrow>
               if worth_retrying e
               then claim_loop x p mining_address hex proof remaining False (Some e) w2
               else (Some (Err e), w2)))"

definition matured_deposit ::
  "externals \<Rightarrow> ('u, 'i, 'v, 'j) peg \<Rightarrow> u64 \<Rightarrow> (string \<times> string \<times> string \<times> string) io"
where
  "matured_deposit x p amount =
     io_bind (peg_in_request_for x p) (\<lambda>request.
     io_bind (faucet x (pg_bitcoin p) (pi_mainchain_address request) (Some amount)) (\<lambda>mainchain_txid.
     io_bind (new_address x (pg_bitcoin p)) (\<lambda>mining_address.
     let depth = pg_pegin_confirmation_depth p; remaining = (if depth = 0 then 0 else depth - 1) in
     io_bind (if 0 < remaining
              then io_bind (generate_to_address x (pg_bitcoin p) remaining mining_address)
                     (\<lambda>_. io_return ())
              else io_return ()) (\<lambda>_.
     io_bind (fetch_matured_deposit x p mainchain_txid) (\<lambda>(hex, proof).
       io_return (mainchain_txid, mining_address, hex, proof))))))"

definition complete_peg_in ::
  "externals \<Rightarrow> ('u, 'i, 'v, 'j) peg \<Rightarrow> u64 \<Rightarrow> world \<Rightarrow> (nigiri_error + peg_in) option \<times> world"
where
  "complete_peg_in x p amount w =
     (case matured_deposit x p amount w of
        (Err e, w1) \<Rightarrow> (Some (Err e), w1)
      | (Ok (mainchain_txid, mining_address, hex, proof), w1) \<Rightarrow>
          apfst (map_option (map_ok (\<lambda>claim_txid.
              \<lparr>pn_mainchain_txid = mainchain_txid, pn_claim_txid = claim_txid, pn_amount = amount\<rparr>)))
            (claim_loop x p mining_address hex proof (CLAIM_RETRY_BLOCKS + 1) True None w1))"

section \<open>Peg-out\<close>

definition send_to_mainchain :: "externals \<Rightarrow> ('u, 'i, 'v, 'j) peg \<Rightarrow> string \<Rightarrow> u64 \<Rightarrow> string io" where
  "send_to_mainchain x p destination amount =
     io_bind (io_lift (amount_as_json_number (x_lib x) amount
                ''peg-out amount could not be represented as JSON'')) (\<lambda>(amount_text, amount).
       call_sensitive x (pg_liquid p) ''sendtomainchain''
         (JArray [JString destination, JNumber amount]) [destination, amount_text]
         (from_string (elements_txid (x_lib x))))"

record liquid_output =
  lo_asset :: "string option"
  lo_value :: "string option"
  lo_script_hex :: string

definition decode_liquid_output :: "chain_lib \<Rightarrow> json \<Rightarrow> liquid_output option" where
  "decode_liquid_output lib j =
     Option.bind (struct_fields [''asset'', ''value'', ''scriptPubKey''] j)
       (\<lambda>fs. Option.bind (defaulted None (optional_from_string (elements_asset lib)) (fs ! 0)) (\<lambda>asset.
        Option.bind (defaulted None (optional decode_number) (fs ! 1)) (\<lambda>value.
        Option.bind (fs ! 2) (\<lambda>script. Option.bind (struct_fields [''hex''] script)
          (\<lambda>ss. Option.bind (required decode_string (ss ! 0)) (\<lambda>hex.
            Some \<lparr>lo_asset = asset, lo_value = value, lo_script_hex = hex\<rparr>))))))"

definition decode_liquid_transaction :: "chain_lib \<Rightarrow> json \<Rightarrow> liquid_output list option" where
  "decode_liquid_transaction lib j =
     Option.bind (struct_fields [''vout''] j)
       (\<lambda>fs. required (decode_list (decode_liquid_output lib)) (fs ! 0))"

definition peg_out_of :: "script_lib \<Rightarrow> liquid_output \<Rightarrow> peg_out_target option" where
  "peg_out_of s out =
     (case sl_from_hex s (lo_script_hex out) of
        None \<Rightarrow> None
      | Some raw \<Rightarrow> (case decode_peg_out_script s raw of Err _ \<Rightarrow> None | Ok t \<Rightarrow> Some t))"

definition read_peg_out ::
  "chain_lib \<Rightarrow> script_lib \<Rightarrow> string \<Rightarrow> string \<Rightarrow> peg_out_target \<Rightarrow> liquid_output
     \<Rightarrow> nigiri_error + string \<times> u64"
where
  "read_peg_out lib s pegged_asset txid target out =
     and_then (ok_or (sl_address_from_script s (pt_destination target))
        (PegOutputMalformed txid ''destination script is not a standard address'')) (\<lambda>destination.
     and_then (ok_or (lo_value out)
        (PegOutputMalformed txid ''peg-out output has no explicit value'')) (\<lambda>value.
     and_then (ok_or (amount_of_bitcoin lib value)
        (PegOutputMalformed txid (''peg-out value '' @ value @ '' is not an amount''))) (\<lambda>amount.
       if lo_asset out \<noteq> Some pegged_asset
       then Err (PegOutputMalformed txid
              ''peg-out output must carry the explicit configured pegged asset'')
       else Ok (destination, amount))))"

text \<open>The loop over the outputs, with the first mismatch and the output selected so far.\<close>

fun scan_outputs ::
  "chain_lib \<Rightarrow> script_lib \<Rightarrow> string \<Rightarrow> string \<Rightarrow> string \<Rightarrow> string option \<Rightarrow> (string \<times> u64) option
     \<Rightarrow> liquid_output list \<Rightarrow> nigiri_error + string \<times> u64"
where
  "scan_outputs lib s genesis asset txid mismatch selected [] =
     (case selected of
        Some result \<Rightarrow> Ok result
      | None \<Rightarrow> (case mismatch of
            Some detail \<Rightarrow> Err (PegOutputMalformed txid detail)
          | None \<Rightarrow> Err (PegOutputNotFound txid)))"
| "scan_outputs lib s genesis asset txid mismatch selected (out # outs) =
     (case peg_out_of s out of
        None \<Rightarrow> scan_outputs lib s genesis asset txid mismatch selected outs
      | Some target \<Rightarrow>
          if pt_parent_genesis target \<noteq> genesis
          then scan_outputs lib s genesis asset txid
                 (case mismatch of
                    None \<Rightarrow> Some (''peg-out names parent chain '' @ pt_parent_genesis target
                              @ '' but this pair's parent is '' @ genesis)
                  | Some detail \<Rightarrow> Some detail) selected outs
          else if selected \<noteq> None
          then Err (PegOutputMalformed txid ''multiple peg-out outputs name this parent chain'')
          else and_then (read_peg_out lib s asset txid target out) (\<lambda>result.
                 scan_outputs lib s genesis asset txid mismatch (Some result) outs))"

definition decode_peg_out ::
  "chain_lib \<Rightarrow> script_lib \<Rightarrow> ('u, 'i, 'v, 'j) peg \<Rightarrow> liquid_output list \<Rightarrow> string
     \<Rightarrow> nigiri_error + string \<times> u64"
where
  "decode_peg_out lib s p vout txid =
     scan_outputs lib s (pg_parent_genesis p) (pg_pegged_asset p) txid None None vout"

record peg_out =
  po_liquid_txid :: string
  po_destination :: string
  po_amount :: u64
  po_bitcoin_txid :: string

definition release_peg_out ::
  "externals \<Rightarrow> script_lib \<Rightarrow> ('u, 'i, 'v, 'j) peg \<Rightarrow> string \<Rightarrow> peg_out io"
where
  "release_peg_out x s p liquid_txid =
     io_bind (rpc x (pg_liquid p) ''getrawtransaction''
                (Some (JArray [JString liquid_txid, JNumber ''1'']))
                (decode_liquid_transaction (x_lib x))) (\<lambda>vout.
     io_bind (io_lift (decode_peg_out (x_lib x) s p vout liquid_txid)) (\<lambda>(destination, amount).
     io_bind (faucet x (pg_bitcoin p) destination (Some amount)) (\<lambda>bitcoin_txid.
       io_return \<lparr>po_liquid_txid = liquid_txid, po_destination = destination,
         po_amount = amount, po_bitcoin_txid = bitcoin_txid\<rparr>)))"

section \<open>Which requests an operation sends\<close>

definition request_method :: "http_request \<Rightarrow> string option" where
  "request_method r =
     (case r of
        HttpPost url user password (JObject members) \<Rightarrow>
          Option.bind (map_of members ''method'') decode_string
      | _ \<Rightarrow> None)"

lemma request_method_post [simp]: "request_method (rpc_post config method params) = Some method"
  by (simp add: request_method_def rpc_post_def request_json_def)

text \<open>
  An operation follows a list of methods when it sends requests for a prefix of it, and for all
  of it when it succeeds.
\<close>

definition follows :: "'a io \<Rightarrow> string list \<Rightarrow> bool" where
  "follows m methods \<longleftrightarrow>
     (\<forall>w r w'. m w = (r, w') \<longrightarrow>
        (\<exists>reqs. w_sent w' = w_sent w @ reqs
           \<and> prefix (map request_method reqs) (map Some methods)
           \<and> (is_ok r \<longrightarrow> map request_method reqs = map Some methods)))"

named_theorems protocol \<open>which requests the operations send\<close>

lemma followsD:
  assumes "follows m methods" and "m w = (r, w')"
  obtains reqs where "w_sent w' = w_sent w @ reqs"
    "prefix (map request_method reqs) (map Some methods)"
    "is_ok r \<longrightarrow> map request_method reqs = map Some methods"
  using assms unfolding follows_def by blast

lemma follows_lift [protocol]: "follows (io_lift r) []"
  by (auto simp: follows_def io_lift_def)

lemma follows_return [protocol]: "follows (io_return a) []"
  by (auto simp: follows_def io_return_def)

lemma follows_bind [protocol]:
  assumes "follows m as" and "\<And>a. follows (f a) bs"
  shows "follows (io_bind m f) (as @ bs)"
  unfolding follows_def
proof (intro allI impI)
  fix w r w'' assume run: "io_bind m f w = (r, w'')"
  obtain s w' where m: "m w = (s, w')"
    by fastforce
  obtain reqs where first: "w_sent w' = w_sent w @ reqs"
      "prefix (map request_method reqs) (map Some as)"
      "is_ok s \<longrightarrow> map request_method reqs = map Some as"
    by (rule followsD [OF assms(1) m])
  show "\<exists>reqs. w_sent w'' = w_sent w @ reqs
      \<and> prefix (map request_method reqs) (map Some (as @ bs))
      \<and> (is_ok r \<longrightarrow> map request_method reqs = map Some (as @ bs))"
  proof (cases s)
    case (Inl e)
    then have "r = Err e" "w'' = w'"
      using run m by (auto simp: io_bind_def)
    then show ?thesis
      using first by (intro exI [of _ reqs]) (auto intro: prefix_prefix)
  next
    case (Inr a)
    then have "f a w' = (r, w'')"
      using run m by (auto simp: io_bind_def)
    then obtain more where "w_sent w'' = w_sent w' @ more"
        "prefix (map request_method more) (map Some bs)"
        "is_ok r \<longrightarrow> map request_method more = map Some bs"
      by (rule followsD [OF assms(2)])
    then show ?thesis
      using first Inr by (intro exI [of _ "reqs @ more"]) auto
  qed
qed

lemma follows_map_err [protocol]: "follows m as \<Longrightarrow> follows (io_map_err g m) as"
  unfolding follows_def
proof (intro allI impI)
  fix w r w'
  assume m: "\<forall>w r w'. m w = (r, w') \<longrightarrow> (\<exists>reqs. w_sent w' = w_sent w @ reqs
      \<and> prefix (map request_method reqs) (map Some as)
      \<and> (is_ok r \<longrightarrow> map request_method reqs = map Some as))"
    and run: "io_map_err g m w = (r, w')"
  then obtain s where "m w = (s, w')" "is_ok r = is_ok s"
    by (cases r) (auto simp: result_simps)
  then show "\<exists>reqs. w_sent w' = w_sent w @ reqs \<and> prefix (map request_method reqs) (map Some as)
      \<and> (is_ok r \<longrightarrow> map request_method reqs = map Some as)"
    using m by metis
qed

lemma follows_call [protocol]: "follows (call x client method params decode) [method]"
  unfolding follows_def by (auto dest!: call_world)

lemma follows_call_sensitive [protocol]:
  "follows (call_sensitive x client method params sensitive decode) [method]"
  unfolding follows_def by (auto dest!: call_sensitive_world)

lemma follows_rpc [protocol]: "follows (rpc x client method (Some params) decode) [method]"
proof -
  have "follows (call_with_sensitive x client method (Some params) [] decode) [method]"
    unfolding follows_def by (auto dest!: call_with_sensitive_world)
  then show ?thesis
    unfolding rpc_def using follows_bind [OF follows_lift] by fastforce
qed

lemma follows_split [protocol]: "(\<And>a b. follows (f a b) as) \<Longrightarrow> follows (case p of (a, b) \<Rightarrow> f a b) as"
  by (cases p) simp

lemma follows_new_address [protocol]: "follows (new_address x client) [''getnewaddress'']"
  unfolding new_address_def using follows_bind [OF follows_call follows_lift] by fastforce

lemma follows_generate [protocol]:
  "follows (generate_to_address x client blocks address) [''generatetoaddress'']"
proof (cases "blocks = 0")
  case True
  then show ?thesis
    by (simp add: generate_to_address_def follows_def io_lift_def)
qed (simp add: generate_to_address_def follows_call)

lemma follows_mine [protocol]:
  "follows (mine_committed_transaction x client op txid) [''getnewaddress'', ''generatetoaddress'']"
proof -
  have "follows (mine_committed_transaction x client op txid)
      ([''getnewaddress''] @ [''generatetoaddress''] @ [])"
    unfolding mine_committed_transaction_def by (intro protocol)
  then show ?thesis by simp
qed

lemma follows_faucet [protocol]:
  "follows (faucet x client address amount)
     [''sendtoaddress'', ''getnewaddress'', ''generatetoaddress'']"
proof -
  have "follows (faucet x client address amount)
      ([] @ [''sendtoaddress''] @ [] @ [''getnewaddress'', ''generatetoaddress''] @ [])"
    unfolding faucet_def Let_def by (intro protocol)
  then show ?thesis by simp
qed

lemma follows_fetch [protocol]:
  "follows (fetch_matured_deposit x p txid) [''getrawtransaction'', ''gettxoutproof'']"
proof -
  have immature: "follows (io_lift (Err e)) [''gettxoutproof'']" for e
    by (simp add: follows_def io_lift_def)
  have matured: "follows (io_bind (rpc x (pg_bitcoin p) ''gettxoutproof'' (Some ps) decode_string)
      (\<lambda>proof. io_return (h, proof))) ([''gettxoutproof''] @ [])" for ps h
    by (intro protocol)
  have "follows (fetch_matured_deposit x p txid) ([''getrawtransaction''] @ [''gettxoutproof''])"
    unfolding fetch_matured_deposit_def
    by (intro follows_bind follows_rpc) (use immature matured in \<open>auto split: if_splits\<close>)
  then show ?thesis by simp
qed

definition maturing_blocks :: "u64 \<Rightarrow> string list" where
  "maturing_blocks depth = (if 1 < depth then [''generatetoaddress''] else [])"

definition deposit_protocol :: "u64 \<Rightarrow> string list" where
  "deposit_protocol depth =
     [''getpeginaddress'', ''sendtoaddress'', ''getnewaddress'', ''generatetoaddress'',
      ''getnewaddress''] @ maturing_blocks depth @ [''getrawtransaction'', ''gettxoutproof'']"

lemma remaining_pos: "0 < (if depth = 0 then 0 else depth - 1) \<longleftrightarrow> 1 < (depth :: u64)"
proof (cases "depth = 0")
  case False
  then have "1 \<le> depth"
    by (simp add: word_le_nat_alt unat_gt_0 Suc_le_eq)
  then show ?thesis
    using False by (auto simp: word_less_nat_alt unat_sub)
qed simp

lemma follows_deposit:
  "follows (matured_deposit x p amount) (deposit_protocol (pg_pegin_confirmation_depth p))"
proof -
  let ?depth = "pg_pegin_confirmation_depth p"
  have request: "follows (peg_in_request_for x p) ([''getpeginaddress''] @ [])"
    unfolding peg_in_request_for_def by (intro protocol)
  have mature: "follows (if 0 < (if ?depth = 0 then 0 else ?depth - 1)
      then io_bind (generate_to_address x (pg_bitcoin p) b a) (\<lambda>_. io_return ())
      else io_return ()) (maturing_blocks ?depth)" for a b
    using follows_bind [OF follows_generate follows_return, of x "pg_bitcoin p" b a "\<lambda>_. ()"]
    by (simp add: remaining_pos maturing_blocks_def follows_return)
  have "follows (matured_deposit x p amount)
      (([''getpeginaddress''] @ []) @ [''sendtoaddress'', ''getnewaddress'', ''generatetoaddress'']
        @ [''getnewaddress''] @ maturing_blocks ?depth
        @ [''getrawtransaction'', ''gettxoutproof''] @ [])"
    unfolding matured_deposit_def Let_def
    by (intro follows_bind request mature follows_faucet follows_new_address follows_fetch
        follows_split follows_return)
  then show ?thesis
    by (simp add: deposit_protocol_def)
qed

section \<open>The claim loop\<close>

definition claim_request :: "('u, 'i, 'v, 'j) peg \<Rightarrow> string \<Rightarrow> string \<Rightarrow> http_request" where
  "claim_request p hex proof = rpc_post (cl_config (pg_liquid p)) ''claimpegin''
     (JArray [JString hex, JString proof])"

definition block_request :: "('u, 'i, 'v, 'j) peg \<Rightarrow> string \<Rightarrow> http_request" where
  "block_request p mining_address = rpc_post (cl_config (pg_bitcoin p)) ''generatetoaddress''
     (JArray [JNumber ''1'', JString mining_address])"

definition retries :: "('u, 'i, 'v, 'j) peg \<Rightarrow> string \<Rightarrow> string \<Rightarrow> string \<Rightarrow> nat \<Rightarrow> http_request list" where
  "retries p a hex proof n = concat (replicate n [block_request p a, claim_request p hex proof])"

lemma literal_methods_are_valid [simp]:
  "validate_rpc_method ''claimpegin'' = Ok ()"
  "validate_rpc_method ''getpeginaddress'' = Ok ()"
  "validate_rpc_method ''getrawtransaction'' = Ok ()"
  "validate_rpc_method ''gettxoutproof'' = Ok ()"
  by (simp_all add: validate_rpc_method_def MAX_RPC_METHOD_BYTES_def is_ascii_alphanumeric_def
      is_ascii_digit_def is_ascii_lowercase_def is_ascii_uppercase_def)

lemma rpc_valid:
  "validate_rpc_method method = Ok () \<Longrightarrow>
     rpc x client method params decode = call_with_sensitive x client method params [] decode"
  by (rule ext) (simp add: rpc_def io_bind_def io_lift_def)

lemma submit_claim_world:
  "submit_claim x p hex proof w = (r, w') \<Longrightarrow> w_sent w' = w_sent w @ [claim_request p hex proof]"
  by (auto simp: submit_claim_def rpc_valid claim_request_def dest!: call_with_sensitive_world)

lemma mine_one_world:
  "generate_to_address x (pg_bitcoin p) 1 a w = (r, w') \<Longrightarrow> w_sent w' = w_sent w @ [block_request p a]"
  by (auto simp: generate_to_address_def block_request_def dest!: call_world)

lemma claim_loop_retries:
  assumes "claim_loop x p a hex proof n False latest w = (r, w')" and "latest \<noteq> None"
  shows "\<exists>reqs. w_sent w' = w_sent w @ reqs \<and> prefix reqs (retries p a hex proof n) \<and> r \<noteq> None
    \<and> (\<forall>txid. r = Some (Ok txid) \<longrightarrow> reqs \<noteq> [] \<and> last reqs = claim_request p hex proof)"
  using assms
proof (induction n arbitrary: w latest)
  case 0
  then show ?case by auto
next
  case (Suc n)
  obtain m w1 where mined: "generate_to_address x (pg_bitcoin p) 1 a w = (m, w1)"
    by fastforce
  note sent1 = mine_one_world [OF mined]
  show ?case
  proof (cases m)
    case (Inl e)
    then show ?thesis
      using Suc.prems mined sent1 by (auto simp: retries_def)
  next
    case (Inr bs)
    obtain c w2 where claimed: "submit_claim x p hex proof w1 = (c, w2)"
      by fastforce
    note sent2 = submit_claim_world [OF claimed]
    show ?thesis
    proof (cases "\<exists>e. c = Err e \<and> worth_retrying e")
      case True
      then obtain e where e: "c = Err e" "worth_retrying e" by blast
      have "claim_loop x p a hex proof n False (Some e) w2 = (r, w')"
        using Suc.prems(1) mined Inr claimed e by simp
      then obtain reqs where "w_sent w' = w_sent w2 @ reqs" "prefix reqs (retries p a hex proof n)"
          "r \<noteq> None" "\<forall>txid. r = Some (Ok txid) \<longrightarrow> reqs \<noteq> [] \<and> last reqs = claim_request p hex proof"
        using Suc.IH [of "Some e" w2] by auto
      then show ?thesis
        using sent1 sent2
        by (intro exI [of _ "block_request p a # claim_request p hex proof # reqs"])
          (auto simp: retries_def)
    next
      case False
      then show ?thesis
        using Suc.prems mined Inr claimed sent1 sent2
        by (cases c) (auto simp: retries_def)
    qed
  qed
qed

lemma claim_loop_first:
  assumes "claim_loop x p a hex proof (Suc n) True None w = (r, w')"
  shows "\<exists>reqs. w_sent w' = w_sent w @ reqs
    \<and> prefix reqs (claim_request p hex proof # retries p a hex proof n) \<and> r \<noteq> None
    \<and> (\<forall>txid. r = Some (Ok txid) \<longrightarrow> reqs \<noteq> [] \<and> last reqs = claim_request p hex proof)"
proof -
  obtain c w2 where claimed: "submit_claim x p hex proof w = (c, w2)"
    by fastforce
  note sent = submit_claim_world [OF claimed]
  show ?thesis
  proof (cases "\<exists>e. c = Err e \<and> worth_retrying e")
    case True
    then obtain e where e: "c = Err e" "worth_retrying e" by blast
    have "claim_loop x p a hex proof n False (Some e) w2 = (r, w')"
      using assms claimed e by simp
    then obtain reqs where "w_sent w' = w_sent w2 @ reqs" "prefix reqs (retries p a hex proof n)"
        "r \<noteq> None" "\<forall>txid. r = Some (Ok txid) \<longrightarrow> reqs \<noteq> [] \<and> last reqs = claim_request p hex proof"
      using claim_loop_retries [of x p a hex "proof" n "Some e" w2 r w'] by auto
    then show ?thesis
      using sent by (intro exI [of _ "claim_request p hex proof # reqs"]) auto
  next
    case False
    then show ?thesis
      using assms claimed sent by (cases c) auto
  qed
qed

section \<open>Decoding peg-outs\<close>

definition names_parent :: "script_lib \<Rightarrow> string \<Rightarrow> liquid_output \<Rightarrow> bool" where
  "names_parent s genesis out =
     (case peg_out_of s out of None \<Rightarrow> False | Some t \<Rightarrow> pt_parent_genesis t = genesis)"

lemma scan_outputs_selected:
  "scan_outputs lib s genesis asset txid mismatch (Some result) outs = Ok r \<longleftrightarrow>
     filter (names_parent s genesis) outs = [] \<and> r = result"
  by (induction outs arbitrary: mismatch)
    (auto simp: names_parent_def split: option.splits)

lemma scan_outputs_unselected:
  "scan_outputs lib s genesis asset txid mismatch None outs = Ok r \<longleftrightarrow>
     (\<exists>out target. filter (names_parent s genesis) outs = [out] \<and> peg_out_of s out = Some target
        \<and> read_peg_out lib s asset txid target out = Ok r)"
proof (induction outs arbitrary: mismatch)
  case Nil
  then show ?case by (auto split: option.splits)
next
  case (Cons out outs)
  show ?case
  proof (cases "names_parent s genesis out")
    case True
    then obtain target where t: "peg_out_of s out = Some target" "pt_parent_genesis target = genesis"
      by (auto simp: names_parent_def split: option.splits)
    then show ?thesis
      using True
      by (auto simp: result_simps scan_outputs_selected)
  next
    case False
    then show ?thesis
      using Cons.IH by (auto simp: names_parent_def split: option.splits)
  qed
qed

section \<open>Properties\<close>


text \<open>
  C26: a transaction is decoded exactly when one and only one of its outputs is a peg-out script naming
  this pair's parent chain, and that output has a standard destination, an explicit readable
  value and the pegged asset; the result is that output's destination and value.
\<close>

theorem peg_out_decoded_iff:
  "decode_peg_out lib s p vout txid = Ok (destination, amount) \<longleftrightarrow>
     (\<exists>out target value. filter (names_parent s (pg_parent_genesis p)) vout = [out]
        \<and> peg_out_of s out = Some target
        \<and> sl_address_from_script s (pt_destination target) = Some destination
        \<and> lo_value out = Some value \<and> amount_of_bitcoin lib value = Some amount
        \<and> lo_asset out = Some (pg_pegged_asset p))"
  by (auto simp: decode_peg_out_def scan_outputs_unselected read_peg_out_def result_simps)


section \<open>Witnesses\<close>

definition peg_in_script :: "(string \<times> json) list" where
  "peg_in_script = [
     (''1'', JArray [JString ''deposit'', JString ''script'']), (''2'', JString ''txid''),
     (''3'', JString ''address''), (''4'', JArray []), (''5'', JString ''address''),
     (''6'', JArray [JString ''hex'', JNumber ''1'']), (''7'', JString ''proof''),
     (''8'', JString ''claim'')]"

definition example_peg ::
  "(string \<times> json) list \<Rightarrow> (bitcoin_utxo, bitcoin_address_info, bitcoin_utxo, bitcoin_address_info) peg"
where
  "example_peg table = \<lparr>pg_bitcoin = example_bitcoin table, pg_liquid = example_bitcoin table,
     pg_parent_genesis = ''genesis'', pg_pegin_confirmation_depth = 1, pg_pegged_asset = ''asset''\<rparr>"

lemma example_peg_simps [simp]:
  "pg_bitcoin (example_peg table) = example_bitcoin table"
  "pg_liquid (example_peg table) = example_bitcoin table"
  "pg_parent_genesis (example_peg table) = ''genesis''"
  "pg_pegin_confirmation_depth (example_peg table) = 1"
  "pg_pegged_asset (example_peg table) = ''asset''"
  by (simp_all add: example_peg_def)

lemma example_deposit:
  "\<exists>w'. matured_deposit (example_externals peg_in_script) (example_peg peg_in_script) 1000
     example_world = (Ok (''txid'', ''address'', ''hex'', ''proof''), w') \<and> length (w_sent w') = 7"
  by (simp add: matured_deposit_def peg_in_request_for_def fetch_matured_deposit_def rpc_valid
      faucet_def amount_as_json_number_def mine_committed_transaction_def new_address_def
      generate_to_address_def decode_peg_in_address_def decode_mainchain_transaction_def
      struct_fields_def required_def defaulted_def decode_u64_def parse_one Let_def
      peg_in_script_def example_steps)


definition release_script :: "(string \<times> json) list" where
  "release_script = [(''1'', JArray [JArray []])]"

definition example_script_lib :: script_lib where
  "example_script_lib = \<lparr>sl_from_hex = Some, sl_instructions = (\<lambda>_. []), sl_block_hash = id,
     sl_address_from_script = Some\<rparr>"


end
