(* ===== verification/Fix_PegPair.thy ===== *)
theory Fix_PegPair
  imports Fix_Composite Core_Peg
begin

text \<open>
  \<open>peg_pair.rs\<close> of \<open>nigiri-rs-fixtures\<close>: a Bitcoin and a Liquid fixture wired for Liquid's peg,
  their start under one deadline and one coordinator, and their release, Liquid first.
\<close>

section \<open>The builder\<close>

definition PEG_STARTUP_TIMEOUT :: duration where
  "PEG_STARTUP_TIMEOUT = from_secs 120"

definition PEG_SERVICE :: string where
  "PEG_SERVICE = ''peg''"

definition peg_node_args :: "string \<Rightarrow> string list" where
  "peg_node_args bitcoin_container =
     [''-validatepegin=1'', ''-mainchainrpchost='' @ bitcoin_container,
      ''-mainchainrpcport='' @ show_port (fc_node_rpc_port Bitcoin_chain),
      ''-mainchainrpcuser='' @ RPC_USER, ''-mainchainrpcpassword='' @ RPC_PASSWORD]"

record peg_pair_builder =
  pp_startup_timeout :: duration
  pp_bitcoind_image :: container_image
  pp_bitcoin_electrs_image :: container_image
  pp_elements_image :: container_image
  pp_liquid_electrs_image :: container_image

definition PegPair_builder :: peg_pair_builder where
  "PegPair_builder =
     \<lparr>pp_startup_timeout = PEG_STARTUP_TIMEOUT,
      pp_bitcoind_image = fc_node_image_default Bitcoin_chain,
      pp_bitcoin_electrs_image = fc_electrs_image_default Bitcoin_chain,
      pp_elements_image = fc_node_image_default Liquid_chain,
      pp_liquid_electrs_image = fc_electrs_image_default Liquid_chain\<rparr>"

definition peg_with_startup_timeout :: "peg_pair_builder \<Rightarrow> duration \<Rightarrow> peg_pair_builder" where
  "peg_with_startup_timeout b timeout = b\<lparr>pp_startup_timeout := timeout\<rparr>"

definition with_bitcoind_image :: "peg_pair_builder \<Rightarrow> container_image \<Rightarrow> peg_pair_builder" where
  "with_bitcoind_image b img = b\<lparr>pp_bitcoind_image := img\<rparr>"

definition with_bitcoin_electrs_image :: "peg_pair_builder \<Rightarrow> container_image \<Rightarrow> peg_pair_builder" where
  "with_bitcoin_electrs_image b img = b\<lparr>pp_bitcoin_electrs_image := img\<rparr>"

definition with_elements_image :: "peg_pair_builder \<Rightarrow> container_image \<Rightarrow> peg_pair_builder" where
  "with_elements_image b img = b\<lparr>pp_elements_image := img\<rparr>"

definition with_liquid_electrs_image :: "peg_pair_builder \<Rightarrow> container_image \<Rightarrow> peg_pair_builder" where
  "with_liquid_electrs_image b img = b\<lparr>pp_liquid_electrs_image := img\<rparr>"

section \<open>The environment\<close>

text \<open>
  The trait \<open>PegEnvironment\<close>, with the \<open>Drop\<close> of its stacks. Its starts take the owner
  \<open>CompositeCoordinator\<close>, the only one they are called with.
\<close>

record ('b, 'l, 'p, 'd) peg_environment =
  pe_start_bitcoin :: "peg_pair_builder \<Rightarrow> deadline \<Rightarrow> ('d, fixture_error + 'b) fut"
  pe_start_liquid :: "peg_pair_builder \<Rightarrow> 'b \<Rightarrow> deadline \<Rightarrow> ('d, fixture_error + 'l) fut"
  pe_connect :: "'b \<Rightarrow> 'l \<Rightarrow> ('d, fixture_error + 'p) fut"
  pe_attach_bitcoin_logs :: "'b \<Rightarrow> deadline \<Rightarrow> fixture_error \<Rightarrow> ('d, fixture_error) fut"
  pe_shutdown_bitcoin :: "'b \<Rightarrow> 'd runtime \<Rightarrow> 'd runtime"
  pe_drop_liquid :: "'l \<Rightarrow> 'd runtime \<Rightarrow> 'd runtime"
  pe_drop_bitcoin :: "'b \<Rightarrow> 'd runtime \<Rightarrow> 'd runtime"

record ('b, 'l) peg_handles =
  ph_liquid :: 'l
  ph_bitcoin :: 'b

text \<open>Fields are dropped in the order of their declaration.\<close>

definition drop_handles :: "('b, 'l, 'p, 'd) peg_environment \<Rightarrow> ('b, 'l) peg_handles \<Rightarrow> 'd runtime \<Rightarrow> 'd runtime" where
  "drop_handles P h s = pe_drop_bitcoin P (ph_bitcoin h) (pe_drop_liquid P (ph_liquid h) s)"

definition bitcoin_half :: "fixture_env \<Rightarrow> peg_pair_builder \<Rightarrow> fixture_builder" where
  "bitcoin_half env b =
     with_electrs_image (with_node_image (Fixture_builder (Bitcoin_supported env :: (_, _, unit) supported_chain))
       (pp_bitcoind_image b)) (pp_bitcoin_electrs_image b)"

definition liquid_half :: "fixture_env \<Rightarrow> peg_pair_builder \<Rightarrow> ('u, 'i, 'd) running_fixture \<Rightarrow> fixture_builder" where
  "liquid_half env b bitcoin =
     with_extra_node_args (with_network (with_electrs_image (with_node_image
         (Fixture_builder (Liquid_supported env :: (_, _, unit) supported_chain))
         (pp_elements_image b)) (pp_liquid_electrs_image b))
       (tn_network (ft_names (rf_fixture bitcoin))))
       (peg_node_args (tn_node (ft_names (rf_fixture bitcoin))))"

definition RealPegEnvironment where
  "RealPegEnvironment env bitcoin_sw liquid_sw =
     \<lparr>pe_start_bitcoin = (\<lambda>b d. start_for_coordinator env (Bitcoin_supported env) bitcoin_sw (bitcoin_half env b) d),
      pe_start_liquid = (\<lambda>b bitcoin d.
        start_for_coordinator env (Liquid_supported env) liquid_sw (liquid_half env b bitcoin) d),
      pe_connect = (\<lambda>bitcoin liquid. fut_map (map_err ClientFailed)
        (client_call (Peg_connect (fx_x env) (ft_client (rf_fixture bitcoin)) (ft_client (rf_fixture liquid))))),
      pe_attach_bitcoin_logs = (\<lambda>bitcoin. attach_inner_logs Bitcoin_chain (rf_fixture bitcoin)),
      pe_shutdown_bitcoin = (\<lambda>bitcoin s. snd (release_fixture bitcoin s)),
      pe_drop_liquid = drop_fixture,
      pe_drop_bitcoin = drop_fixture\<rparr>"

section \<open>Starting and releasing\<close>

text \<open>With both stacks in hand the peg is verified; they are dropped when that fails.\<close>

definition connect_peg ::
  "('b, 'l, 'p, 'd) peg_environment \<Rightarrow> deadline \<Rightarrow> ('b, 'l) peg_handles
     \<Rightarrow> ('d, fixture_error + (('b, 'l) peg_handles \<times> 'p)) fut"
where
  "connect_peg P d h =
     fut_bind (until_cancelled ''peg pair''
         (run_flat d PEG_SERVICE ''verifying both chains report the same parent''
           (pe_connect P (ph_bitcoin h) (ph_liquid h)))) (\<lambda>peg. case peg of
       Err e \<Rightarrow> (\<lambda>s. (Some (Err e), drop_handles P h s))
     | Ok peg \<Rightarrow> fut_return (Ok (h, peg)))"

definition start_peg_stacks ::
  "('b, 'l, 'p, 'd) peg_environment \<Rightarrow> peg_pair_builder \<Rightarrow> deadline
     \<Rightarrow> ('d, fixture_error + (('b, 'l) peg_handles \<times> 'p)) fut"
where
  "start_peg_stacks P b d =
     fut_try (until_cancelled ''peg pair'' (pe_start_bitcoin P b d)) (\<lambda>bitcoin.
     fut_bind (until_cancelled ''peg pair'' (pe_start_liquid P b bitcoin d)) (\<lambda>liquid. case liquid of
       Err e \<Rightarrow> fut_bind (pe_attach_bitcoin_logs P bitcoin d e) (\<lambda>e s.
         (Some (Err e), pe_shutdown_bitcoin P bitcoin s))
     | Ok liquid \<Rightarrow> connect_peg P d \<lparr>ph_liquid = liquid, ph_bitcoin = bitcoin\<rparr>))"

definition PegPairBuilder_start ::
  "('b, 'l, 'p, 'd) peg_environment \<Rightarrow> engine_source option \<Rightarrow> nat \<Rightarrow> peg_pair_builder
     \<Rightarrow> ('d, fixture_error + (('b, 'l) peg_handles \<times> 'p)) fut"
where
  "PegPairBuilder_start P failure last_instant b s =
     (case and_then (validate_images [pp_bitcoind_image b, pp_bitcoin_electrs_image b, pp_elements_image b,
           pp_liquid_electrs_image b]) (\<lambda>_. Deadline_new last_instant (rt_now s) (pp_startup_timeout b)) of
        Err e \<Rightarrow> (Some (Err e), s)
      | Ok d \<Rightarrow> run_flat d PEG_SERVICE ''coordinating complete peg startup''
          (coordinate_startup fixture_error_from failure (\<lambda>(h, peg). drop_handles P h)
            (fut_map Ok (start_peg_stacks P b d))) s)"

definition PegPair_start where
  "PegPair_start P failure last_instant = PegPairBuilder_start P failure last_instant PegPair_builder"

text \<open>\<open>PegPair::shutdown\<close>: Liquid's result, and Bitcoin's when that one is a success.\<close>

definition PegPair_shutdown ::
  "(('u, 'i, 'd) running_fixture, ('v, 'j, 'd) running_fixture) peg_handles \<Rightarrow> 'd runtime
     \<Rightarrow> (fixture_error + unit) \<times> 'd runtime"
where
  "PegPair_shutdown h s =
     (let (liquid_result, s1) = release_fixture (ph_liquid h) s;
          (bitcoin_result, s2) = release_fixture (ph_bitcoin h) s1
      in (and_then liquid_result (\<lambda>_. bitcoin_result), s2))"

section \<open>Releases in every case\<close>

definition peg_resource_names :: "string \<Rightarrow> string \<Rightarrow> string set" where
  "peg_resource_names sb sl =
     {''nigiri-rs-fixture-'' @ sb, ''nigiri-rs-bitcoind-'' @ sb, ''nigiri-rs-electrs-'' @ sb}
     \<union> {''nigiri-rs-elements-'' @ sl, ''nigiri-rs-electrs-'' @ sl}"

lemma bitcoin_half_names:
  "fixture_names (bitcoin_half env b) (topology_names_on (sc_chain (Bitcoin_supported env)) sb
       (fb_network (bitcoin_half env b)))
     = {''nigiri-rs-fixture-'' @ sb, ''nigiri-rs-bitcoind-'' @ sb, ''nigiri-rs-electrs-'' @ sb}"
  by (simp add: fixture_names_def topology_names_on_def bitcoin_half_def Fixture_builder_def
      with_node_image_def with_electrs_image_def Bitcoin_supported_def Bitcoin_chain_def)

lemma liquid_half_names:
  "fixture_names (liquid_half env b f) (topology_names_on (sc_chain (Liquid_supported env)) sl
       (fb_network (liquid_half env b f)))
     = {''nigiri-rs-elements-'' @ sl, ''nigiri-rs-electrs-'' @ sl}"
  by (simp add: fixture_names_def topology_names_on_def liquid_half_def with_network_def
      with_extra_node_args_def Liquid_supported_def Liquid_chain_def)

text \<open>A pair in hand: each half owns what it started, the Liquid one on top of the Bitcoin one.\<close>

definition held_pair ::
  "('d \<Rightarrow> held set) \<Rightarrow> 'd container_engine \<Rightarrow> held set
     \<Rightarrow> (('u, 'i, 'd) running_fixture, ('v, 'j, 'd) running_fixture) peg_handles \<Rightarrow> 'd runtime \<Rightarrow> bool"
where
  "held_pair held E base h s \<longleftrightarrow> (\<exists>s1 keep. owning held base keep (holding (rf_owned (ph_bitcoin h)) s1)
     \<and> owning held (held (rt_daemon s1)) {} (holding (rf_owned (ph_liquid h)) s)
     \<and> ft_engine (rf_fixture (ph_bitcoin h)) = E \<and> ft_engine (rf_fixture (ph_liquid h)) = E)"

lemma held_pair_cong:
  "held (rt_daemon s') = held (rt_daemon s) \<Longrightarrow> held_pair held E base h s' = held_pair held E base h s"
  by (simp add: held_pair_def owning_cong [of held "holding o' s'" "holding o' s" for o'])

text \<open>Futures that are dropped only at a limit.\<close>

definition stays :: "('d, 'a) fut \<Rightarrow> bool" where
  "stays m \<longleftrightarrow> (\<forall>s s'. m s = (None, s') \<longrightarrow> rt_limit s \<noteq> None)"

lemma punctual_stays: "punctual m \<Longrightarrow> stays m"
  by (fastforce simp: stays_def dest: punctualD(4))

lemma until_cancelled_run:
  assumes "stays m" and "rt_limit s = None" and "until_cancelled resource m s = (r, s')"
  shows "\<exists>q s1. m (s\<lparr>rt_limit := rt_cancel_at s\<rparr>) = (q, s1) \<and> s' = s1\<lparr>rt_limit := None\<rparr>
    \<and> r = Some (case q of Some a \<Rightarrow> a | None \<Rightarrow> Err (cancelled_startup_error resource))"
proof -
  obtain q s1 where q: "m (s\<lparr>rt_limit := rt_cancel_at s\<rparr>) = (q, s1)"
    by fastforce
  then have "q = None \<Longrightarrow> rt_cancel_at s \<noteq> None"
    using assms(1) by (auto simp: stays_def)
  then show ?thesis
    using assms(2,3) q
    by (cases q) (auto simp: until_cancelled_def race_def earlier_limit_def fut_try_def fut_bind_def
        fut_return_def Let_def split: option.splits sum.splits)
qed

lemma punctual_connect_engine: "punctual (connect_engine sw chain b d)"
proof -
  have "punctual (connect_engine_at sw chain b d now)" for now
    unfolding connect_engine_at_def by (intro punctuality)
  then show ?thesis
    unfolding punctual_def connect_engine_def by blast
qed

lemma supervise_for_coordinator_stays:
  assumes "punctual work"
  shows "stays (supervise_for_coordinator E from_engine ls failure work)"
  unfolding stays_def
proof (intro allI impI notI)
  fix s s'
  assume run: "supervise_for_coordinator E from_engine ls failure work s = (None, s')" and limit: "rt_limit s = None"
  obtain q s1 where q: "work (own_start ls s) = (q, s1)"
    by fastforce
  have none: "rt_limit (own_start ls s) = None" "(own_start ls s)\<lparr>rt_limit := None\<rparr> = own_start ls s"
    by (simp_all add: own_start_def)
  then obtain y where "q = Some y"
    using punctualD(4) [OF assms q] by (cases q) auto
  then have "race (rt_limit s) (from_engine cancelled_error) work (own_start ls s)
      = (Some (Ok y), s1\<lparr>rt_limit := None\<rparr>)"
    using q limit by (simp add: race_def earlier_limit_def none)
  then show False
    using run limit by (auto simp: supervise_for_coordinator_def answer_at_def in_time_def
        split: option.splits sum.splits)
qed

lemma start_for_coordinator_stays:
  assumes "chain_contract C"
  shows "stays (start_for_coordinator env C sw b d)"
  unfolding stays_def
proof (intro allI impI notI)
  fix s s'
  assume run: "start_for_coordinator env C sw b d s = (None, s')" and limit: "rt_limit s = None"
  obtain q s1 where q: "connect_engine sw (sc_chain C) b d s = (q, s1)"
    by fastforce
  have "rt_limit s1 = None"
    using punctualD(2) [OF punctual_connect_engine q] limit by simp
  moreover have "q \<noteq> None"
    using punctualD(4) [OF punctual_connect_engine q] limit by auto
  ultimately show False
    using run q supervise_for_coordinator_stays [OF punctual_map [OF chain_contract.fixture_work_timed(1) [OF assms]]]
    by (fastforce simp: start_for_coordinator_def fut_try_def fut_bind_def fut_return_def fut_map_def stays_def
        split: option.splits sum.splits prod.splits)
qed

context reliable_daemon
begin

text \<open>Names set aside while another startup ran are still free of everything on the daemon.\<close>

lemma kept_names_fresh:
  assumes "owning held base keep s" and "\<forall>n \<in> keep. prefix ''nigiri-rs-'' n"
  shows "\<forall>n \<in> keep. \<forall>h \<in> held (rt_daemon s). \<not> addresses n h"
proof (intro ballI)
  fix n h
  assume n: "n \<in> keep" and h: "h \<in> held (rt_daemon s)"
  note own = ownedD [OF assms(1) [unfolded owning_def]]
  show "\<not> addresses n h"
  proof (cases "h \<in> base")
    case True
    then show ?thesis
      using own(8) [OF n] by (simp add: safe_key_def)
  next
    case False
    then obtain r where "r \<in> set (rt_ledger s)" "or_name r = h_name h"
      using own(2) [of h] h answers_for_name by blast
    then have "n \<noteq> h_name h"
      using own(9) [OF n] by force
    moreover have "\<not> prefix n (h_id h)"
      using generated_ids [OF h] assms(2) n prefix_order.trans by blast
    ultimately show ?thesis
      by (simp add: addresses_def)
  qed
qed

lemma released_pair_leaves:
  assumes "held_pair held (BollardEngine tar docker host) base h s"
  shows "held (rt_daemon (drop_fixture (ph_bitcoin h) (drop_fixture (ph_liquid h) s))) = base"
    and "fst (PegPair_shutdown h s) = Ok ()" and "held (rt_daemon (snd (PegPair_shutdown h s))) = base"
proof -
  obtain s1 keep where own: "owning held base keep (holding (rf_owned (ph_bitcoin h)) s1)"
      "owning held (held (rt_daemon s1)) {} (holding (rf_owned (ph_liquid h)) s)"
    and E: "ft_engine (rf_fixture (ph_bitcoin h)) = BollardEngine tar docker host"
      "ft_engine (rf_fixture (ph_liquid h)) = BollardEngine tar docker host"
    using assms unfolding held_pair_def by blast
  note liquid = released_fixture_leaves [OF own(2) E(2)]
  let ?s2 = "drop_fixture (ph_liquid h) s"
  have "owning held base keep (holding (rf_owned (ph_bitcoin h)) ?s2)"
    using own(1) liquid(1) owning_cong [of held "holding (rf_owned (ph_bitcoin h)) ?s2"
        "holding (rf_owned (ph_bitcoin h)) s1" base keep] by simp
  note bitcoin = released_fixture_leaves [OF this E(1)]
  show "held (rt_daemon (drop_fixture (ph_bitcoin h) ?s2)) = base"
    by (rule bitcoin(1))
  show "fst (PegPair_shutdown h s) = Ok ()" "held (rt_daemon (snd (PegPair_shutdown h s))) = base"
    using liquid(2) bitcoin by (auto simp: PegPair_shutdown_def Let_def drop_fixture_def split: prod.splits)
qed

text \<open>The logs that a failed Liquid half is reported with change nothing that is held.\<close>

lemma inner_logs_leave:
  assumes "attach_inner_logs chain f d e s = (r, s')" and "ft_engine f = BollardEngine tar docker host"
  shows "held (rt_daemon s') = held (rt_daemon s) \<and> (rt_limit s = None \<longrightarrow> r \<noteq> None)"
proof -
  have step: "punctual (attach_engine_log (ft_engine f) d service i e)
      \<and> leads (\<lambda>s. held (rt_daemon s) = B) (attach_engine_log (ft_engine f) d service i e)
          (\<lambda>s. held (rt_daemon s) = B)" for service i e B
  proof -
    have "leads (\<lambda>s. held (rt_daemon s) = B) (engine_call (ft_engine f) (ce_logs (ft_engine f) i))
        (\<lambda>s. held (rt_daemon s) = B)"
      unfolding leads_def
    proof (intro allI impI)
      fix s r s'
      assume B: "held (rt_daemon s) = B" and call: "engine_call (ft_engine f) (ce_logs (ft_engine f) i) s = (r, s')"
      obtain q d' t where "ce_logs (ft_engine f) i (rt_daemon s) = (q, d', t)"
        by (metis prod_cases3)
      then show "held (rt_daemon s') = B"
        using call B assms(2) bollard.logs_keeps bollard.abandoned_keeps
        by (auto simp: engine_call_def split: if_splits)
    qed
    then show ?thesis
      unfolding attach_engine_log_def
      by (intro conjI punctuality punctual_engine_call leads_map leads_deadline_run) (simp_all add: limitless_def)
  qed
  have punctual: "punctual (attach_inner_logs chain f d e)"
    unfolding attach_inner_logs_def using step by (intro punctuality) blast+
  have "leads (\<lambda>s. held (rt_daemon s) = B) (attach_inner_logs chain f d e) (\<lambda>s. held (rt_daemon s) = B)" for B
    unfolding attach_inner_logs_def
    by (rule leads_bind [where R = "\<lambda>s. held (rt_daemon s) = B"]) (use step in blast)+
  then have "held (rt_daemon s') = held (rt_daemon s)"
    by (rule leadsD) (simp, rule assms(1))
  moreover have "rt_limit s = None \<longrightarrow> r \<noteq> None"
    using punctualD(4) [OF punctual assms(1)] by (cases r) auto
  ultimately show ?thesis
    by blast
qed

lemma connected_peg:
  assumes "connect_peg (RealPegEnvironment env bsw lsw) d h s = (r, s')" and "rt_limit s = None"
    and pair: "held_pair held (BollardEngine tar docker host) base h s"
  shows "(\<exists>p. r = Some (Ok (h, p)) \<and> held_pair held (BollardEngine tar docker host) base h s')
    \<or> (\<exists>e. r = Some (Err e)) \<and> held (rt_daemon s') = base"
proof -
  let ?P = "RealPegEnvironment env bsw lsw"
  let ?m = "run_flat d PEG_SERVICE ''verifying both chains report the same parent''
      (pe_connect ?P (ph_bitcoin h) (ph_liquid h))"
  have punctual: "punctual ?m" and apart: "apart ?m"
    unfolding run_flat_def RealPegEnvironment_def peg_environment.simps
    by (intro punctuality, intro aside)
  obtain q s1 where q: "until_cancelled ''peg pair'' ?m s = (q, s1)"
    by fastforce
  obtain p s2 where run: "?m (s\<lparr>rt_limit := rt_cancel_at s\<rparr>) = (p, s2)" "s1 = s2\<lparr>rt_limit := None\<rparr>"
      "q = Some (case p of Some a \<Rightarrow> a | None \<Rightarrow> Err (cancelled_startup_error ''peg pair''))"
    using until_cancelled_run [OF punctual_stays [OF punctual] assms(2) q] by blast
  have "held_pair held (BollardEngine tar docker host) base h s1"
    using pair apartD(1) [OF apart run(1)] run(2)
      held_pair_cong [of held s1 s "BollardEngine tar docker host" base h] by simp
  note kept = this
  show ?thesis
  proof (cases "case p of Some a \<Rightarrow> a | None \<Rightarrow> Err (cancelled_startup_error ''peg pair'')")
    case (Inl e)
    then have "r = Some (Err e)" "s' = drop_fixture (ph_bitcoin h) (drop_fixture (ph_liquid h) s1)"
      using assms(1) q run(3)
      by (auto simp: connect_peg_def fut_bind_def drop_handles_def RealPegEnvironment_def)
    then show ?thesis
      using released_pair_leaves(1) [OF kept] by simp
  next
    case (Inr a)
    then show ?thesis
      using assms(1) q run(3) kept by (auto simp: connect_peg_def fut_bind_def fut_return_def)
  qed
qed

lemma started_peg_stacks:
  assumes run: "start_peg_stacks (RealPegEnvironment env bsw lsw) b d s = (r, s')" and "rt_limit s = None"
    and engines: "sw_connected bsw = Ok (BollardEngine tar docker host)"
      "sw_connected lsw = Ok (BollardEngine tar docker host)"
    and fresh: "\<forall>n \<in> peg_resource_names (sw_scope bsw) (sw_scope lsw). \<forall>h \<in> held (rt_daemon s). \<not> addresses n h"
    and scopes: "sw_scope bsw \<noteq> sw_scope lsw"
  shows "(\<exists>h p. r = Some (Ok (h, p)) \<and> held_pair held (BollardEngine tar docker host) (held (rt_daemon s)) h s')
    \<or> (\<exists>e. r = Some (Err e)) \<and> held (rt_daemon s') = held (rt_daemon s)"
proof -
  let ?P = "RealPegEnvironment env bsw lsw" and ?E = "BollardEngine tar docker host"
  let ?late = "Err (cancelled_startup_error ''peg pair'')"
  let ?B = "{''nigiri-rs-fixture-'' @ sw_scope bsw, ''nigiri-rs-bitcoind-'' @ sw_scope bsw,
      ''nigiri-rs-electrs-'' @ sw_scope bsw}"
  let ?L = "{''nigiri-rs-elements-'' @ sw_scope lsw, ''nigiri-rs-electrs-'' @ sw_scope lsw}"
  obtain q1 s1 where q1: "until_cancelled ''peg pair'' (pe_start_bitcoin ?P b d) s = (q1, s1)"
    by fastforce
  have start1: "pe_start_bitcoin ?P b d = start_for_coordinator env (Bitcoin_supported env) bsw (bitcoin_half env b) d"
    by (simp add: RealPegEnvironment_def)
  obtain p1 t1 where first: "start_for_coordinator env (Bitcoin_supported env) bsw (bitcoin_half env b) d
        (s\<lparr>rt_limit := rt_cancel_at s\<rparr>) = (p1, t1)"
      "s1 = t1\<lparr>rt_limit := None\<rparr>" "q1 = Some (case p1 of Some a \<Rightarrow> a | None \<Rightarrow> ?late)"
    using until_cancelled_run [OF start_for_coordinator_stays [OF bitcoin.chain_contract_axioms] assms(2)
        q1 [unfolded start1]] by blast
  have free: "\<forall>n \<in> ?B \<union> ?L. \<forall>h \<in> held (rt_daemon (s\<lparr>rt_limit := rt_cancel_at s\<rparr>)). \<not> addresses n h"
      "?B \<inter> ?L = {}"
    using fresh scopes unfolding peg_resource_names_def by auto
  note bitcoin_outcome = started_fixture_owned [OF first(1) bitcoin.chain_contract_axioms engines(1)
      bitcoin_half_names [symmetric] free]
  show ?thesis
  proof (cases "\<exists>f. p1 = Some (Ok f)")
    case False
    then have "\<exists>e. q1 = Some (Err e)" "held (rt_daemon s1) = held (rt_daemon s)"
      using bitcoin_outcome first(2,3) by (auto split: option.splits) (metis sum.exhaust)
    then show ?thesis
      using run q1 by (auto simp: start_peg_stacks_def fut_try_def fut_bind_def fut_return_def)
  next
    case True
    then obtain f where f: "p1 = Some (Ok f)" "ft_engine (rf_fixture f) = ?E"
        "owning held (held (rt_daemon s)) ?L (holding (rf_owned f) t1)"
      using bitcoin_outcome by auto
    then have own: "owning held (held (rt_daemon s)) ?L (holding (rf_owned f) s1)" and limit1: "rt_limit s1 = None"
      using owning_cong [of held "holding (rf_owned f) s1" "holding (rf_owned f) t1"] first(2) by auto
    obtain q2 s2 where q2: "until_cancelled ''peg pair'' (pe_start_liquid ?P b f d) s1 = (q2, s2)"
      by fastforce
    have rest: "(r, s') = (case q2 of None \<Rightarrow> (None, s2) | Some (Err e) \<Rightarrow>
          fut_bind (pe_attach_bitcoin_logs ?P f d e) (\<lambda>e s. (Some (Err e), pe_shutdown_bitcoin ?P f s)) s2
        | Some (Ok l) \<Rightarrow> connect_peg ?P d \<lparr>ph_liquid = l, ph_bitcoin = f\<rparr> s2)"
      using run q1 first(3) f(1) q2
      by (auto simp: start_peg_stacks_def fut_try_def fut_bind_def split: option.splits sum.splits)
    have start2: "pe_start_liquid ?P b f d = start_for_coordinator env (Liquid_supported env) lsw (liquid_half env b f) d"
      by (simp add: RealPegEnvironment_def)
    obtain p2 t2 where second: "start_for_coordinator env (Liquid_supported env) lsw (liquid_half env b f) d
          (s1\<lparr>rt_limit := rt_cancel_at s1\<rparr>) = (p2, t2)"
        "s2 = t2\<lparr>rt_limit := None\<rparr>" "q2 = Some (case p2 of Some a \<Rightarrow> a | None \<Rightarrow> ?late)"
      using until_cancelled_run [OF start_for_coordinator_stays [OF liquid.chain_contract_axioms] limit1
          q2 [unfolded start2]] by blast
    have "\<forall>n \<in> ?L. \<forall>h \<in> held (rt_daemon (holding (rf_owned f) s1)). \<not> addresses n h"
      by (rule kept_names_fresh [OF own]) auto
    then have free2: "\<forall>n \<in> ?L \<union> {}. \<forall>h \<in> held (rt_daemon (s1\<lparr>rt_limit := rt_cancel_at s1\<rparr>)). \<not> addresses n h"
        "?L \<inter> {} = {}"
      by simp_all
    note liquid_outcome = started_fixture_owned [OF second(1) liquid.chain_contract_axioms engines(2)
        liquid_half_names [symmetric] free2]
    have limit2: "rt_limit s2 = None"
      using second(2) by simp
    show ?thesis
    proof (cases "\<exists>l. p2 = Some (Ok l)")
      case True
      then obtain l where l: "p2 = Some (Ok l)" "ft_engine (rf_fixture l) = ?E"
          "owning held (held (rt_daemon s1)) {} (holding (rf_owned l) t2)"
        using liquid_outcome by auto
      then have "owning held (held (rt_daemon s1)) {} (holding (rf_owned l) s2)"
        using owning_cong [of held "holding (rf_owned l) s2" "holding (rf_owned l) t2"] second(2) by simp
      then have pair: "held_pair held ?E (held (rt_daemon s)) \<lparr>ph_liquid = l, ph_bitcoin = f\<rparr> s2"
        using own f(2) l(2) by (auto simp: held_pair_def)
      have "connect_peg ?P d \<lparr>ph_liquid = l, ph_bitcoin = f\<rparr> s2 = (r, s')"
        using rest second(3) l(1) by simp
      from connected_peg [OF this limit2 pair] show ?thesis
        by blast
    next
      case False
      then have same: "held (rt_daemon s2) = held (rt_daemon s1)"
        using liquid_outcome second(2) by auto
      obtain e where e: "q2 = Some (Err e)"
        using False second(3) by (cases p2) (auto, metis sum.exhaust)
      obtain w s3 where logs: "attach_inner_logs Bitcoin_chain (rf_fixture f) d e s2 = (w, s3)"
        by fastforce
      note logged = inner_logs_leave [OF logs f(2)]
      then obtain e' where "w = Some e'"
        using limit2 by auto
      then have ended: "r = Some (Err e')" "s' = drop_fixture f s3"
        using rest e logs by (auto simp: RealPegEnvironment_def fut_bind_def drop_fixture_def)
      have "owning held (held (rt_daemon s)) ?L (holding (rf_owned f) s3)"
        using own owning_cong [of held "holding (rf_owned f) s3" "holding (rf_owned f) s1"] logged same by simp
      from released_fixture_leaves(1) [OF this f(2)] show ?thesis
        using ended by simp
    qed
  qed
qed

end

section \<open>Properties\<close>

lemma coordinated:
  assumes "coordinate_startup from_engine failure discard (fut_map Ok w) s = (r, s')"
  shows "(\<nexists>v. r = Some (Ok v)) \<and> s' = s
    \<or> (\<exists>q s1. w (s\<lparr>rt_limit := None, rt_cancel_at := rt_limit s\<rparr>) = (q, s1)
        \<and> ((\<exists>v. q = Some (Ok v) \<and> r = Some (Ok v) \<and> s' = resume s s1)
          \<or> (\<exists>v. q = Some (Ok v) \<and> r = None \<and> s' = resume s (discard v s1))
          \<or> (\<nexists>v. q = Some (Ok v)) \<and> (\<nexists>v. r = Some (Ok v)) \<and> s' = resume s s1))"
proof (cases failure)
  case None
  obtain q s1 where q: "w (s\<lparr>rt_limit := None, rt_cancel_at := rt_limit s\<rparr>) = (q, s1)"
    by fastforce
  consider "q = None" | e where "q = Some (Err e)" | v where "q = Some (Ok v)"
    by (metis option.exhaust sum.exhaust)
  then show ?thesis
    by cases (use assms None q in \<open>auto simp: coordinate_startup_def fut_map_def fut_bind_def fut_return_def
      answer_at_def split: if_splits\<close>)
qed (use assms in \<open>auto simp: coordinate_startup_def\<close>)



end
