(* ===== verification/Fix_Retry.thy ===== *)
theory Fix_Retry
  imports Fix_Composite
begin

text \<open>
  The readiness loops of \<open>lnd_pair.rs\<close> and \<open>lnd_pair/channel.rs\<close>. They share one shape: an attempt
  that is over with a value or an error, or says what it saw; then the shared pause under the
  deadline. This theory has the loop with its lemmas, the attempts are in \<open>Fix_LndReady\<close>.
\<close>

section \<open>The loop\<close>

definition attempt_round ::
  "('o \<Rightarrow> ('d, fixture_error + unit) fut) \<Rightarrow> ('o \<Rightarrow> ('d, fixture_error + ('o + 'a)) fut)
     \<Rightarrow> 'o \<Rightarrow> ('d, fixture_error + ('o + 'a)) fut"
where
  "attempt_round wait attempt seen =
     fut_try (attempt seen) (\<lambda>answer. case answer of
         Ok a \<Rightarrow> fut_return (Ok (Ok a))
       | Err seen' \<Rightarrow> fut_map (map_ok (\<lambda>_. Err seen')) (wait seen'))"

text \<open>
  The loop goes on only while time passes towards the deadline, which a pause ensures
  (\<open>retrying_unfold\<close>): the last branch is never taken.
\<close>

function retrying ::
  "deadline \<Rightarrow> ('o \<Rightarrow> ('d, fixture_error + unit) fut) \<Rightarrow> ('o \<Rightarrow> ('d, fixture_error + ('o + 'a)) fut)
     \<Rightarrow> 'o \<Rightarrow> 'd runtime \<Rightarrow> (fixture_error + 'a) option \<times> 'd runtime"
where
  "retrying d wait attempt seen s =
     (case attempt_round wait attempt seen s of
        (None, s') \<Rightarrow> (None, s')
      | (Some (Err e), s') \<Rightarrow> (Some (Err e), s')
      | (Some (Ok (Ok a)), s') \<Rightarrow> (Some (Ok a), s')
      | (Some (Ok (Err seen')), s') \<Rightarrow>
          if rt_now s < rt_now s' \<and> rt_now s < dl_expires_at d
          then retrying d wait attempt seen' s' else (None, s'))"
  by pat_completeness auto
termination
  by (relation "measure (\<lambda>(d, wait, attempt, seen, s). dl_expires_at d - rt_now s)") auto

declare retrying.simps [simp del]

definition paced :: "deadline \<Rightarrow> ('o \<Rightarrow> ('d, fixture_error + unit) fut) \<Rightarrow> bool" where
  "paced d wait \<longleftrightarrow> (\<forall>seen. punctual (wait seen) \<and> by_deadline d (wait seen)
     \<and> (\<forall>s u s'. wait seen s = (Some (Ok u), s') \<longrightarrow> rt_now s < rt_now s' \<and> rt_now s' \<le> dl_expires_at d))"

lemma pacedD:
  assumes "paced d wait"
  shows "punctual (wait seen)" "by_deadline d (wait seen)"
    and "wait seen s = (Some (Ok u), s') \<Longrightarrow> rt_now s < rt_now s' \<and> rt_now s' \<le> dl_expires_at d"
  using assms unfolding paced_def by blast+

lemma paced_wait_before_retry:
  "paced d (\<lambda>seen. wait_before_retry d (service seen) (text seen))"
proof -
  have "by_deadline d (wait_before_retry d service observation)" for service observation
    unfolding wait_before_retry_def by (intro by_deadlines punctuality)
  then show ?thesis
    unfolding paced_def using wait_before_retry_Ok by (auto intro: punctuality) fastforce
qed

section \<open>What a loop keeps\<close>

lemma punctual_attempt_round:
  "paced d wait \<Longrightarrow> (\<And>seen. punctual (attempt seen)) \<Longrightarrow> punctual (attempt_round wait attempt seen)"
  unfolding attempt_round_def by (rule punctual_try) (auto intro: punctuality dest: pacedD split: sum.split)

lemma attempt_round_cases:
  "attempt_round wait attempt seen s =
     (case attempt seen s of
        (Some (Ok (Err seen')), s1) \<Rightarrow>
          (case wait seen' s1 of
             (None, s2) \<Rightarrow> (None, s2)
           | (Some (Err e), s2) \<Rightarrow> (Some (Err e), s2)
           | (Some (Ok _), s2) \<Rightarrow> (Some (Ok (Err seen')), s2))
      | (Some (Ok (Ok a)), s1) \<Rightarrow> (Some (Ok (Ok a)), s1)
      | (Some (Err e), s1) \<Rightarrow> (Some (Err e), s1)
      | (None, s1) \<Rightarrow> (None, s1))"
  by (simp add: attempt_round_def fut_try_def fut_bind_def fut_map_def fut_return_def
      split: prod.split option.split sum.split)

lemma attempt_round_again:
  assumes "paced d wait" and "\<And>seen. punctual (attempt seen)"
    and "attempt_round wait attempt seen s = (Some (Ok (Err seen')), s')"
  shows "rt_now s < rt_now s'" "rt_now s' \<le> dl_expires_at d"
proof -
  obtain s1 u where "attempt seen s = (Some (Ok (Err seen')), s1)" "wait seen' s1 = (Some (Ok u), s')"
    using assms(3) by (auto simp: attempt_round_cases split: prod.splits option.splits sum.splits)
  then show "rt_now s < rt_now s'" "rt_now s' \<le> dl_expires_at d"
    using punctualD(1) [OF assms(2)] pacedD(3) [OF assms(1)] by fastforce+
qed

lemma retrying_unfold:
  assumes "paced d wait" and "\<And>seen. punctual (attempt seen)"
  shows "retrying d wait attempt seen s =
     (case attempt_round wait attempt seen s of
        (None, s') \<Rightarrow> (None, s')
      | (Some (Err e), s') \<Rightarrow> (Some (Err e), s')
      | (Some (Ok (Ok a)), s') \<Rightarrow> (Some (Ok a), s')
      | (Some (Ok (Err seen')), s') \<Rightarrow> retrying d wait attempt seen' s')"
  using attempt_round_again [OF assms]
  by (subst retrying.simps) (fastforce split: prod.split option.split sum.split)

lemma retrying_induct:
  assumes "paced d wait" and "\<And>seen. punctual (attempt seen)"
    and "\<And>seen s. (\<And>seen' s'. attempt_round wait attempt seen s = (Some (Ok (Err seen')), s') \<Longrightarrow> P seen' s')
      \<Longrightarrow> P seen s"
  shows "P seen s"
proof (induction "Suc (dl_expires_at d) - rt_now s" arbitrary: seen s rule: less_induct)
  case less
  show ?case
    by (rule assms(3), rule less.hyps)
      (use attempt_round_again [OF assms(1,2)] in \<open>fastforce\<close>)
qed

text \<open>Induction over the rounds: what each round's end gives, and what another round hands on.\<close>

lemma retrying_rule:
  assumes "paced d wait" and "\<And>seen. punctual (attempt seen)"
    and over: "\<And>seen s r s'. attempt_round wait attempt seen s = (r, s') \<Longrightarrow> (\<nexists>x. r = Some (Ok (Err x))) \<Longrightarrow>
      P s (case r of None \<Rightarrow> None | Some (Err e) \<Rightarrow> Some (Err e) | Some (Ok (Ok a)) \<Rightarrow> Some (Ok a)) s'"
    and again: "\<And>seen s seen' s1 r s'. attempt_round wait attempt seen s = (Some (Ok (Err seen')), s1) \<Longrightarrow>
      P s1 r s' \<Longrightarrow> P s r s'"
    and run: "retrying d wait attempt seen s = (r, s')"
  shows "P s r s'"
proof -
  have "retrying d wait attempt seen s = (r, s') \<longrightarrow> P s r s'"
  proof (induction seen s rule: retrying_induct [where attempt = attempt, OF assms(1,2)])
    case (1 seen s)
    obtain q s1 where q: "attempt_round wait attempt seen s = (q, s1)"
      by fastforce
    show ?case
    proof (cases "\<exists>seen'. q = Some (Ok (Err seen'))")
      case True
      then show ?thesis
        using q 1 again retrying_unfold [where attempt = attempt and seen = seen and s = s, OF assms(1,2)] by fastforce
    next
      case False
      then show ?thesis
        using q over [OF q] retrying_unfold [where attempt = attempt and seen = seen and s = s, OF assms(1,2)]
        by (auto split: option.splits sum.splits)
    qed
  qed
  then show ?thesis
    using run by simp
qed

lemma punctual_retrying:
  assumes "paced d wait" and "\<And>seen. punctual (attempt seen)"
  shows "punctual (retrying d wait attempt seen)"
  unfolding punctual_def
proof (intro allI impI)
  fix s r s'
  assume run: "retrying d wait attempt seen s = (r, s')"
  note round = punctualD [OF punctual_attempt_round [OF assms]]
  show "rt_now s \<le> rt_now s' \<and> rt_limit s' = rt_limit s
    \<and> (\<forall>l. rt_limit s = Some l \<longrightarrow> rt_now s' \<le> max (rt_now s) l)
    \<and> (r = None \<longrightarrow> (\<exists>l. rt_limit s = Some l \<and> l \<le> rt_now s'))"
  proof (rule retrying_rule [OF assms _ _ run, where P = "\<lambda>s r s'. rt_now s \<le> rt_now s'
      \<and> rt_limit s' = rt_limit s \<and> (\<forall>l. rt_limit s = Some l \<longrightarrow> rt_now s' \<le> max (rt_now s) l)
      \<and> (r = None \<longrightarrow> (\<exists>l. rt_limit s = Some l \<and> l \<le> rt_now s'))"], goal_cases)
    case (1 seen s r s')
    then show ?case
      using round [OF 1(1)] by (auto split: option.splits sum.splits)
  next
    case (2 seen s seen' s1 r s')
    then show ?case
      using round [OF 2(1)] by (auto intro: order_trans)
  qed
qed

lemma by_deadline_retrying:
  assumes "paced d wait" and "\<And>seen. punctual (attempt seen)" and "\<And>seen. by_deadline d (attempt seen)"
  shows "by_deadline d (retrying d wait attempt seen)"
proof -
  have round: "by_deadline d (attempt_round wait attempt seen)" for seen
    unfolding attempt_round_def
    by (rule by_deadline_try [OF assms(3)]) (auto intro: by_deadlines pacedD [OF assms(1)] split: sum.split)
  show ?thesis
    unfolding by_deadline_def
  proof (intro allI impI)
    fix s r s'
    assume run: "retrying d wait attempt seen s = (r, s')"
    show "rt_now s' \<le> max (rt_now s) (dl_expires_at d)"
      by (rule retrying_rule [OF assms(1,2) _ _ run, where P = "\<lambda>s r s'. rt_now s' \<le> max (rt_now s) (dl_expires_at d)"])
        (use by_deadlineD [OF round] in \<open>fastforce\<close>)+
  qed
qed

lemma leads_retrying:
  assumes "paced d wait" and "\<And>seen. punctual (attempt seen)"
    and "\<And>seen. leads P (attempt seen) P" and "\<And>seen. leads P (wait seen) P"
  shows "leads P (retrying d wait attempt seen) P"
proof -
  have round: "leads P (attempt_round wait attempt seen) P" for seen
    unfolding attempt_round_def
    by (rule leads_try [OF assms(3)]) (auto intro: leads_return leads_map assms(4) split: sum.split)
  show ?thesis
    unfolding leads_def
  proof (intro allI impI)
    fix s r s'
    assume start: "P s" and run: "retrying d wait attempt seen s = (r, s')"
    have "P s \<longrightarrow> P s'"
      by (rule retrying_rule [OF assms(1,2) _ _ run, where P = "\<lambda>s r s'. P s \<longrightarrow> P s'"]) (use leadsD [OF round] in blast)+
    then show "P s'"
      using start by simp
  qed
qed

lemma apart_retrying:
  assumes "paced d wait" and "\<And>seen. punctual (attempt seen)"
    and "\<And>seen. apart (attempt seen)" and "\<And>seen. apart (wait seen)"
  shows "apart (retrying d wait attempt seen)"
  using assms unfolding apart_leads by (blast intro: leads_retrying)

lemma apart_wait_before_retry [aside]: "apart (wait_before_retry d service text)"
  unfolding wait_before_retry_def by (intro aside)

lemma retrying_Ok:
  assumes "paced d wait" and "\<And>seen. punctual (attempt seen)"
    and "retrying d wait attempt seen s = (Some (Ok a), s')"
  shows "\<exists>seen' s0. rt_now s \<le> rt_now s0 \<and> attempt seen' s0 = (Some (Ok (Ok a)), s')"
proof -
  have "r = Some (Ok a) \<longrightarrow> (\<exists>seen' s0. rt_now s \<le> rt_now s0 \<and> attempt seen' s0 = (Some (Ok (Ok a)), s'))"
    if run: "retrying d wait attempt seen s = (r, s')" for r
  proof (rule retrying_rule [OF assms(1,2) _ _ run, where P = "\<lambda>s r s'. r = Some (Ok a) \<longrightarrow>
      (\<exists>seen' s0. rt_now s \<le> rt_now s0 \<and> attempt seen' s0 = (Some (Ok (Ok a)), s'))"], goal_cases)
    case (1 seen s r s')
    then show ?case
      by (auto simp: attempt_round_cases split: prod.splits option.splits sum.splits)
  next
    case (2 seen s seen' s1 r s')
    then show ?case
      using attempt_round_again(1) [OF assms(1,2) 2(1)] by (meson less_imp_le order_trans)
  qed
  then show ?thesis
    using assms(3) by simp
qed

end
