(* ===== verification/Spec2Isabelle.thy ===== *)
theory Spec2Isabelle
  imports Lnd_Node Lnd_Wallet Fix_PegPair Fix_Retry
begin

text \<open>
  A verification of the nigiri-rs workspace: a Rust library that drives regtest Bitcoin, Liquid and
  Lightning nodes. The workspace has four crates with logic of their own. \<open>nigiri-rs-lnd\<close> is a gRPC
  client of LND whose promise is that a mutating call never reports a definitive failure when its
  outcome is unknown. \<open>nigiri-rs-core\<close> is a client of the nodes' JSON-RPC and Esplora interfaces with
  the peg between the two chains. \<open>nigiri-rs-fixtures\<close> starts the nodes in Docker containers under
  one deadline and removes everything it created. \<open>nigiri-rs-macros\<close> wraps tests. The fixtures call
  both clients; the clients do not know of each other.

  The theories, in the order in which they import each other:

  \<^item> \<open>Nigiri_Prelude\<close>, \<open>Rust_Std\<close>: the result type (\<open>'e + 'a\<close> with \<open>Ok\<close> and \<open>Err\<close>), its
    combinators, machine integers with their conversions and checked operations, durations, UTF-8
    and the string functions of Rust's standard library. Collections of rewrite rules
    (\<open>result_simps\<close>) that the other theories share.

  \<^item> \<open>Lnd_Types\<close> (\<open>amount.rs\<close>, \<open>error.rs\<close>, \<open>types.rs\<close>), \<open>Lnd_Endpoint\<close> (\<open>endpoint.rs\<close>),
    \<open>Lnd_Config\<close> (\<open>config.rs\<close>): amounts, errors, records with their constructors, peer endpoints,
    bounded reading of credentials. \<open>Lnd_Transport\<close> (\<open>transport.rs\<close>): one deadline per operation,
    the classification of gRPC statuses, the pinned certificate. \<open>Lnd_Convert\<close> (\<open>convert.rs\<close>):
    checked conversion of responses. \<open>Lnd_Payment\<close> (\<open>payment.rs\<close>), \<open>Lnd_Channel\<close> (\<open>channel.rs\<close>):
    invoices, the payment stream and the channel stream as recursions over the items the server
    sends. \<open>Lnd_Node\<close> (\<open>node.rs\<close>, \<open>client.rs\<close>), \<open>Lnd_Wallet\<close> (\<open>wallet_unlocker.rs\<close>): the
    remaining operations, the client and its channel, the wallet unlocker.

  \<^item> \<open>Core_Json\<close>, \<open>Core_Http\<close> (\<open>http.rs\<close>), \<open>Core_Types\<close> (\<open>config.rs\<close>, \<open>endpoint.rs\<close>,
    \<open>error.rs\<close>, \<open>network.rs\<close>, \<open>types.rs\<close>), \<open>Core_Rpc\<close> (\<open>rpc.rs\<close>, \<open>node_rpc.rs\<close>, \<open>client.rs\<close>,
    \<open>liquid.rs\<close>), \<open>Core_Peg\<close> (\<open>peg.rs\<close>, \<open>peg/output.rs\<close>). An operation is a function of a world
    that holds the clock, the requests sent so far and the server's behaviour, so that what was
    sent and when is part of every result.

  \<^item> \<open>Fix_Diagnostics\<close> (\<open>diagnostics.rs\<close>): redaction of everything a report carries.
    \<open>Fix_Topology\<close> (\<open>error.rs\<close>, \<open>image.rs\<close>, \<open>chain.rs\<close> with \<open>chain/bitcoin.rs\<close> and
    \<open>chain/liquid.rs\<close>, \<open>lnd.rs\<close>, \<open>runtime/spec.rs\<close>): images, arguments and container
    specifications. \<open>Fix_Runtime\<close> (\<open>deadline.rs\<close>, \<open>runtime/mod.rs\<close>, \<open>runtime/resources.rs\<close>, the
    startup of \<open>runtime/supervisor.rs\<close>): futures, deadlines, the ledger of owned resources, startup
    and cleanup. \<open>Fix_Ownership\<close>: what the ledger promises about the daemon. \<open>Fix_Engine\<close>
    (\<open>runtime/engine.rs\<close>): the Docker engine, log samples and files read from containers.
    \<open>Fix_Supervisor\<close> (\<open>runtime/supervisor.rs\<close>): the threads that own a startup and hand its value
    over. \<open>Fix_Node\<close> (\<open>node.rs\<close>, \<open>electrs.rs\<close>, \<open>electrum.rs\<close>, \<open>readiness.rs\<close>, \<open>endpoint.rs\<close>):
    starting and probing one service. \<open>Fix_Fixture\<close> (\<open>fixture.rs\<close>): the public fixture.

  How state and effects correspond to the code. A struct is a record and an enum a datatype with
  the source's constructors. Every \<open>?\<close>, early return and error conversion is a branch over the
  result type. A gRPC call is a function from the request and its absolute deadline to a reply, a
  refusal or silence; a stream is the list of its items. A future of the fixtures is a function on
  \<open>runtime\<close> (clock and requests, the daemon's state, the ledger, the creations under way, the time
  at which the future is dropped) whose value is \<open>None\<close> when it is dropped before it has one;
  \<open>timeout_at\<close> and \<open>select!\<close> are the function \<open>race\<close>. Requests that the code polls together
  (\<open>join!\<close>) are made in the listed order from one clock and end with the slower one. The daemon
  is a function of its state; the locale \<open>docker_daemon\<close> names what Docker documents about names,
  identifiers, labels and removal, and is interpreted on an executable daemon.

  What is a parameter. BOLT11 and hash parsing, protobuf encoding, X.509 and rustls, URL and JSON
  parsing, address parsing, tar framing beyond the checks the code makes itself, and Docker's HTTP
  interface are arguments of the definitions (\<open>ext\<close>, \<open>rustls\<close>, \<open>externals\<close>, \<open>fixture_env\<close>,
  \<open>docker\<close>), with what the code relies on as named hypotheses or locale assumptions.

  What the groups of lemmas show. In the Lightning client: when exactly a call succeeds, which
  errors can follow a dispatched mutation, and that what it returns agrees with the request and
  with the invoice's own encoding. In the core client: requests as sent, errors with the committed
  transaction in them, bodies within their limit and free of secrets, waits that end. In the
  fixtures: credentials in no report, nothing left on the daemon after a cleanup that reports
  success, startups that end by their deadline and succeed only when the services agree. Three
  collections carry most fixture proofs: \<open>punctuality\<close> (a future lets time pass forward and is
  dropped only at its limit), \<open>by_deadlines\<close> (it ends by the deadline) and \<open>reporting\<close> (its errors
  are bounded and redacted); the locale \<open>retry_loop\<close> gives them to every retry loop.

  Bounds and fuel. No definition takes fuel: the retry loops of the fixtures and of the core client
  recurse on the time left to their deadline, each round of them taking at least the fixed pause or
  hitting the deadline, and the streams on the list of items. Machine integers keep their width:
  amounts are \<open>u64\<close>, times nanoseconds as natural numbers below the clock's last instant, and every
  checked operation of the code is a branch.

  Not modelled: the generated protobuf code and the build scripts; \<open>Debug\<close> output; tokio's clamp
  of far-future timers; spawning of threads and channels beyond the order of their events, which
  \<open>Fix_Supervisor\<close> models as a step relation; the real sockets and sleeps; the facades
  (\<open>lib.rs\<close>, the crate \<open>nigiri-rs\<close>) that only re-export; examples and tests. The composites
  of the fixtures (\<open>peg_pair.rs\<close>, \<open>lnd_pair.rs\<close>) and the test macros are not modelled.
\<close>

end
